(* ===== verification/Redins_Prelude.thy ===== *)
theory Redins_Prelude
  imports Main "HOL-Library.Word" "HOL-Library.Sublist" "HOL-Library.Multiset"
begin

text \<open>
  The shared layer of the development: Go panics and errors as values, the state monad with
  panics in which the stateful operations are written, a weakest-precondition calculus for it, and
  the functions of Go's \<open>strings\<close> package that the sources call, with the lemmas the
  components use about them.
\<close>

named_theorems wp_rules \<open>rewrite rules of the weakest-precondition calculus\<close>
named_theorems go_strings \<open>facts on the string functions of the Go library\<close>

section \<open>Panics, errors and stateful computations\<close>

text \<open>
  The run-time panics the sources can raise. Nothing in the repository recovers from a panic, so a
  panic ends the process and the state with it.
\<close>

datatype go_panic =
  NilDereference | IndexOutOfRange | DivideByZero | TypeAssertion | SendOnClosedChannel
| NonPositiveInterval

type_synonym go_error = string

text \<open>A computation over a state \<open>'s\<close>: it panics, or returns a value and the next state.\<close>

type_synonym ('s, 'a) go = "'s \<Rightarrow> go_panic + ('a \<times> 's)"

definition Return :: "'a \<Rightarrow> ('s, 'a) go" where
  "Return x s = Inr (x, s)"

definition Panic :: "go_panic \<Rightarrow> ('s, 'a) go" where
  "Panic p s = Inl p"

definition Bind :: "('s, 'a) go \<Rightarrow> ('a \<Rightarrow> ('s, 'b) go) \<Rightarrow> ('s, 'b) go" where
  "Bind m f s = (case m s of Inl p \<Rightarrow> Inl p | Inr (a, s') \<Rightarrow> f a s')"

definition Seq :: "('s, 'a) go \<Rightarrow> ('s, 'b) go \<Rightarrow> ('s, 'b) go" where
  "Seq m k = Bind m (\<lambda>_. k)"

definition Gets :: "('s \<Rightarrow> 'a) \<Rightarrow> ('s, 'a) go" where
  "Gets f s = Inr (f s, s)"

definition Modify :: "('s \<Rightarrow> 's) \<Rightarrow> ('s, unit) go" where
  "Modify f s = Inr ((), f s)"

text \<open>A call of code outside the repository, which cannot panic and moves the world on.\<close>

definition Extern :: "('s \<Rightarrow> 'a \<times> 's) \<Rightarrow> ('s, 'a) go" where
  "Extern f s = Inr (f s)"

text \<open>A computation over a part of the state, run on the whole (a field and its update).\<close>

definition Zoom :: "('s \<Rightarrow> 't) \<Rightarrow> ('t \<Rightarrow> 's \<Rightarrow> 's) \<Rightarrow> ('t, 'a) go \<Rightarrow> ('s, 'a) go" where
  "Zoom get put m s = (case m (get s) of Inl p \<Rightarrow> Inl p | Inr (a, t) \<Rightarrow> Inr (a, put t s))"

text \<open>A pure computation that may panic.\<close>

definition Lift :: "go_panic + 'a \<Rightarrow> ('s, 'a) go" where
  "Lift r s = (case r of Inl p \<Rightarrow> Inl p | Inr a \<Rightarrow> Inr (a, s))"

lemma Bind_Return: "Bind (Return x) f = f x"
  by (rule ext) (simp add: Bind_def Return_def)

lemma Lift_Inr: "Lift (Inr x) = Return x"
  by (rule ext) (simp add: Lift_def Return_def)

text \<open>A \<open>range\<close> loop over a slice that threads an accumulator.\<close>

primrec ForEach :: "'x list \<Rightarrow> ('x \<Rightarrow> 'a \<Rightarrow> ('s, 'a) go) \<Rightarrow> 'a \<Rightarrow> ('s, 'a) go" where
  "ForEach [] body acc = Return acc"
| "ForEach (x # xs) body acc = Bind (body x acc) (ForEach xs body)"

section \<open>Weakest preconditions\<close>

text \<open>
  \<open>wp E m Q s\<close>: run from \<open>s\<close>, \<open>m\<close> panics only with a panic that satisfies \<open>E\<close>, and when it
  returns, the value and the new state satisfy \<open>Q\<close>. With \<open>E\<close> everywhere false this is total
  correctness without panics; with \<open>E\<close> everywhere true a panic is no failure.
\<close>

definition wp ::
  "(go_panic \<Rightarrow> bool) \<Rightarrow> ('s, 'a) go \<Rightarrow> ('a \<Rightarrow> 's \<Rightarrow> bool) \<Rightarrow> 's \<Rightarrow> bool" where
  "wp E m Q s = (case m s of Inl p \<Rightarrow> E p | Inr (a, s') \<Rightarrow> Q a s')"

abbreviation AnyPanic :: "go_panic \<Rightarrow> bool" where
  "AnyPanic \<equiv> (\<lambda>_. True)"

abbreviation NoPanic :: "go_panic \<Rightarrow> bool" where
  "NoPanic \<equiv> (\<lambda>_. False)"

lemma wp_Return [wp_rules]: "wp E (Return x) Q s = Q x s"
  by (simp add: wp_def Return_def)

lemma wp_Panic [wp_rules]: "wp E (Panic p) Q s = E p"
  by (simp add: wp_def Panic_def)

lemma wp_Bind [wp_rules]: "wp E (Bind m f) Q s = wp E m (\<lambda>a. wp E (f a) Q) s"
  by (auto simp: wp_def Bind_def split: sum.splits prod.splits)

lemma wp_Seq [wp_rules]: "wp E (Seq m k) Q s = wp E m (\<lambda>_. wp E k Q) s"
  by (simp add: Seq_def wp_Bind)

lemma wp_Gets [wp_rules]: "wp E (Gets f) Q s = Q (f s) s"
  by (simp add: wp_def Gets_def)

lemma wp_Modify [wp_rules]: "wp E (Modify f) Q s = Q () (f s)"
  by (simp add: wp_def Modify_def)

lemma wp_Extern [wp_rules]: "wp E (Extern f) Q s = Q (fst (f s)) (snd (f s))"
  by (simp add: wp_def Extern_def split: prod.splits)

lemma wp_Lift [wp_rules]: "wp E (Lift r) Q s = (case r of Inl p \<Rightarrow> E p | Inr a \<Rightarrow> Q a s)"
  by (simp add: wp_def Lift_def split: sum.splits)

lemma wp_Zoom [wp_rules]:
  "wp E (Zoom get put m) Q s = wp E m (\<lambda>a t. Q a (put t s)) (get s)"
  by (auto simp: wp_def Zoom_def split: sum.splits prod.splits)

lemma wp_ForEach_Nil [wp_rules]: "wp E (ForEach [] body acc) Q s = Q acc s"
  by (simp add: wp_rules)

lemma wp_if: "wp E (if b then m else k) Q s = (if b then wp E m Q s else wp E k Q s)"
  by simp

lemma wp_mono:
  assumes "wp E m P s" "\<And>a t. P a t \<Longrightarrow> Q a t" "\<And>p. E p \<Longrightarrow> F p"
  shows "wp F m Q s"
  using assms by (auto simp: wp_def split: sum.splits prod.splits)

text \<open>The consequence rule in the form the component proofs apply: the panics are unchanged.\<close>

lemma wp_strengthen:
  assumes "wp E m P s" "\<And>a t. P a t \<Longrightarrow> Q a t"
  shows "wp E m Q s"
  using assms(1) by (rule wp_mono) (auto intro: assms(2))

text \<open>A frame condition, proved whether or not panics happen, adds to a proof without panics.\<close>

lemma wp_with_frame:
  "wp NoPanic m P s \<Longrightarrow> wp AnyPanic m Q s \<Longrightarrow> wp NoPanic m (\<lambda>a t. P a t \<and> Q a t) s"
  by (auto simp: wp_def split: sum.splits prod.splits)

lemma wp_conj: "wp E m P s \<Longrightarrow> wp E m Q s \<Longrightarrow> wp E m (\<lambda>a t. P a t \<and> Q a t) s"
  by (auto simp: wp_def split: sum.splits prod.splits)

lemma wp_triv: "wp AnyPanic m (\<lambda>_ _. True) s"
  by (auto simp: wp_def split: sum.splits prod.splits)

lemma wpI: "(\<And>a s'. m s = Inr (a, s') \<Longrightarrow> Q a s') \<Longrightarrow> wp AnyPanic m Q s"
  by (auto simp: wp_def split: sum.splits prod.splits)

lemma wpD: "wp E m Q s \<Longrightarrow> m s = Inr (a, s') \<Longrightarrow> Q a s'"
  by (simp add: wp_def)

lemma wp_NoPanicD: "wp NoPanic m Q s \<Longrightarrow> \<exists>a s'. m s = Inr (a, s') \<and> Q a s'"
  by (auto simp: wp_def split: sum.splits prod.splits)

lemma wp_ForEach:
  assumes "I acc s"
    and step: "\<And>x a t. x \<in> set xs \<Longrightarrow> I a t \<Longrightarrow> wp E (body x a) I t"
  shows "wp E (ForEach xs body acc) I s"
  using assms
proof (induction xs arbitrary: acc s)
  case Nil
  then show ?case by (simp add: wp_rules)
next
  case (Cons x xs)
  have "wp E (body x acc) I s" using Cons.prems by simp
  then show ?case
    by (simp add: wp_rules, elim wp_strengthen) (auto intro!: Cons.IH Cons.prems(2))
qed

text \<open>A loop whose body computes a function of the element and the accumulator is a fold.\<close>

lemma wp_ForEach_fold:
  assumes "\<And>x a t. x \<in> set xs \<Longrightarrow> wp NoPanic (body x a) (\<lambda>b _. b = f x a) t"
  shows "wp NoPanic (ForEach xs body acc) (\<lambda>a _. a = fold f xs acc) s"
  using assms
proof (induction xs arbitrary: acc s)
  case Nil
  then show ?case by (simp add: wp_rules)
next
  case (Cons y ys acc s)
  have "wp NoPanic (body y acc) (\<lambda>b _. b = f y acc) s" using Cons.prems by simp
  then show ?case
    by (simp add: wp_rules, elim wp_strengthen) (auto intro!: Cons.IH Cons.prems)
qed

section \<open>What a computation leaves alone\<close>

text \<open>
  \<open>keeps f m\<close>: whatever state \<open>m\<close> is run from, it leaves the observation \<open>f\<close> of the state as it was.
  The rules follow the structure of a computation, so frame conditions of whole operations are
  found by resolution.
\<close>

named_theorems keeps_intros \<open>introduction rules for frame conditions\<close>

definition keeps :: "('s \<Rightarrow> 'b) \<Rightarrow> ('s, 'a) go \<Rightarrow> bool" where
  "keeps f m \<longleftrightarrow> (\<forall>s. wp AnyPanic m (\<lambda>_ s'. f s' = f s) s)"

lemma keepsD: "keeps f m \<Longrightarrow> wp AnyPanic m (\<lambda>_ s'. f s' = f s) s"
  by (simp add: keeps_def)

lemma keeps_Return [keeps_intros]: "keeps f (Return x)"
  by (simp add: keeps_def wp_rules)

lemma keeps_Panic [keeps_intros]: "keeps f (Panic p)"
  by (simp add: keeps_def wp_rules)

lemma keeps_Gets [keeps_intros]: "keeps f (Gets g)"
  by (simp add: keeps_def wp_rules)

lemma keeps_Lift [keeps_intros]: "keeps f (Lift r)"
  by (simp add: keeps_def wp_rules split: sum.splits)

lemma keeps_Modify [keeps_intros]: "(\<And>s. f (g s) = f s) \<Longrightarrow> keeps f (Modify g)"
  by (simp add: keeps_def wp_rules)

lemma keeps_Zoom [keeps_intros]: "(\<And>t s. f (put t s) = f s) \<Longrightarrow> keeps f (Zoom get put m)"
  by (simp add: keeps_def wp_rules wp_triv)

lemma keeps_Bind [keeps_intros]:
  assumes "keeps f m" "\<And>a. keeps f (k a)"
  shows "keeps f (Bind m k)"
proof -
  have "wp AnyPanic m (\<lambda>a. wp AnyPanic (k a) (\<lambda>_ s'. f s' = f s)) s" for s
  proof (rule wp_strengthen [OF keepsD [OF assms(1)]])
    fix a t
    assume "f t = f s"
    then show "wp AnyPanic (k a) (\<lambda>_ s'. f s' = f s) t"
      using keepsD [OF assms(2)] by metis
  qed
  then show ?thesis by (simp add: keeps_def wp_rules)
qed

lemma keeps_Seq [keeps_intros]: "keeps f m \<Longrightarrow> keeps f k \<Longrightarrow> keeps f (Seq m k)"
  unfolding Seq_def by (rule keeps_Bind)

lemma keeps_if [keeps_intros]:
  "(b \<Longrightarrow> keeps f m) \<Longrightarrow> (\<not> b \<Longrightarrow> keeps f k) \<Longrightarrow> keeps f (if b then m else k)"
  by simp

lemma keeps_ForEach [keeps_intros]:
  assumes "\<And>x a. keeps f (body x a)"
  shows "keeps f (ForEach xs body acc)"
  by (induction xs arbitrary: acc) (auto intro!: keeps_intros assms)

text \<open>
  \<open>yields P m\<close>: every value \<open>m\<close> returns satisfies \<open>P\<close>, from whatever state it is run. The second rule
  for \<open>Bind\<close> hands a property of the first value on.
\<close>

named_theorems yields_intros \<open>introduction rules for properties of returned values\<close>

definition yields :: "('a \<Rightarrow> bool) \<Rightarrow> ('s, 'a) go \<Rightarrow> bool" where
  "yields P m \<longleftrightarrow> (\<forall>s. wp AnyPanic m (\<lambda>a _. P a) s)"

lemma yieldsD: "yields P m \<Longrightarrow> wp AnyPanic m (\<lambda>a _. P a) s"
  by (simp add: yields_def)

lemma yields_True: "yields (\<lambda>_. True) m"
  by (simp add: yields_def wp_triv)

lemma yields_mono: "yields P m \<Longrightarrow> (\<And>a. P a \<Longrightarrow> Q a) \<Longrightarrow> yields Q m"
  unfolding yields_def by (blast intro: wp_strengthen)

lemma yields_conj: "yields P m \<Longrightarrow> yields Q m \<Longrightarrow> yields (\<lambda>a. P a \<and> Q a) m"
  by (simp add: yields_def wp_conj)

lemma yields_Return [yields_intros]: "P x \<Longrightarrow> yields P (Return x)"
  by (simp add: yields_def wp_rules)

lemma yields_Panic [yields_intros]: "yields P (Panic p)"
  by (simp add: yields_def wp_rules)

lemma yields_Lift: "(\<And>a. r = Inr a \<Longrightarrow> P a) \<Longrightarrow> yields P (Lift r)"
  by (simp add: yields_def wp_rules split: sum.splits)

lemma yields_Bind_with:
  assumes "yields R m" "\<And>a. R a \<Longrightarrow> yields P (k a)"
  shows "yields P (Bind m k)"
  unfolding yields_def wp_Bind
  by (auto intro!: wp_strengthen [OF yieldsD [OF assms(1)]] yieldsD assms(2))

lemma yields_Bind [yields_intros]: "(\<And>a. yields P (k a)) \<Longrightarrow> yields P (Bind m k)"
  by (rule yields_Bind_with [OF yields_True])

lemma yields_Bind_Lift:
  "(\<And>a. r = Inr a \<Longrightarrow> yields P (k a)) \<Longrightarrow> yields P (Bind (Lift r) k)"
  by (rule yields_Bind_with [OF yields_Lift]) blast+

lemma yields_Seq [yields_intros]: "yields P k \<Longrightarrow> yields P (Seq m k)"
  unfolding Seq_def by (rule yields_Bind)

lemma yields_if [yields_intros]:
  "(b \<Longrightarrow> yields P m) \<Longrightarrow> (\<not> b \<Longrightarrow> yields P k) \<Longrightarrow> yields P (if b then m else k)"
  by simp

lemma yields_Gets: "(\<And>s. P (f s)) \<Longrightarrow> yields P (Gets f)"
  by (simp add: yields_def wp_rules)

lemma yields_ForEach:
  assumes "I acc" "\<And>x a. x \<in> set xs \<Longrightarrow> I a \<Longrightarrow> yields I (body x a)"
  shows "yields I (ForEach xs body acc)"
  using assms
proof (induction xs arbitrary: acc)
  case (Cons y ys acc)
  then show ?case by (auto intro!: yields_Bind_with [of I])
qed (simp add: yields_intros)

text \<open>
  \<open>calm V P m\<close>: \<open>m\<close> never panics, never enlarges the set \<open>V\<close> observes, and returns values that
  satisfy \<open>P\<close>.
\<close>

named_theorems calm_intros \<open>introduction rules for computations that neither panic nor enlarge\<close>

definition calm :: "('s \<Rightarrow> 'v set) \<Rightarrow> ('a \<Rightarrow> bool) \<Rightarrow> ('s, 'a) go \<Rightarrow> bool" where
  "calm V P m \<longleftrightarrow> (\<forall>s. wp NoPanic m (\<lambda>a s'. V s' \<subseteq> V s \<and> P a) s)"

lemma calmD: "calm V P m \<Longrightarrow> wp NoPanic m (\<lambda>a s'. V s' \<subseteq> V s \<and> P a) s"
  by (simp add: calm_def)

lemma calm_mono: "calm V P m \<Longrightarrow> (\<And>a. P a \<Longrightarrow> Q a) \<Longrightarrow> calm V Q m"
  unfolding calm_def by (blast intro: wp_strengthen)

lemma calm_Return [calm_intros]: "P x \<Longrightarrow> calm V P (Return x)"
  by (simp add: calm_def wp_rules)

lemma calm_Gets [calm_intros]: "(\<And>s. P (f s)) \<Longrightarrow> calm V P (Gets f)"
  by (simp add: calm_def wp_rules)

lemma calm_Lift: "r = Inr a \<Longrightarrow> P a \<Longrightarrow> calm V P (Lift r)"
  by (simp add: calm_def wp_rules)

lemma calm_Extern:
  "(\<And>s. V (snd (f s)) \<subseteq> V s) \<Longrightarrow> (\<And>s. P (fst (f s))) \<Longrightarrow> calm V P (Extern f)"
  by (simp add: calm_def wp_rules)

lemma calm_Modify: "(\<And>s. V (f s) \<subseteq> V s) \<Longrightarrow> P () \<Longrightarrow> calm V P (Modify f)"
  by (simp add: calm_def wp_rules)

lemma calm_Bind_with:
  assumes "calm V R m" "\<And>a. R a \<Longrightarrow> calm V P (k a)"
  shows "calm V P (Bind m k)"
proof -
  have "wp NoPanic m (\<lambda>a. wp NoPanic (k a) (\<lambda>b t. V t \<subseteq> V s \<and> P b)) s" for s
    by (rule wp_strengthen [OF calmD [OF assms(1)]])
      (auto intro!: wp_strengthen [OF calmD [OF assms(2)]])
  then show ?thesis by (simp add: calm_def wp_rules)
qed

lemma calm_Bind [calm_intros]:
  "calm V (\<lambda>_. True) m \<Longrightarrow> (\<And>a. calm V P (k a)) \<Longrightarrow> calm V P (Bind m k)"
  by (rule calm_Bind_with)

lemma calm_Seq [calm_intros]: "calm V (\<lambda>_. True) m \<Longrightarrow> calm V P k \<Longrightarrow> calm V P (Seq m k)"
  unfolding Seq_def by (rule calm_Bind)

lemma calm_if [calm_intros]:
  "(b \<Longrightarrow> calm V P m) \<Longrightarrow> (\<not> b \<Longrightarrow> calm V P k) \<Longrightarrow> calm V P (if b then m else k)"
  by simp

lemma calm_ForEach:
  assumes "I acc" "\<And>x a. x \<in> set xs \<Longrightarrow> I a \<Longrightarrow> calm V I (body x a)"
  shows "calm V I (ForEach xs body acc)"
  using assms
proof (induction xs arbitrary: acc)
  case (Cons y ys acc)
  then show ?case by (auto intro!: calm_Bind_with [of V I])
qed (simp add: calm_intros)

lemma calm_Zoom:
  assumes "calm V P m" "\<And>t s. W (put t s) = V t" "\<And>s. V (get s) = W s"
  shows "calm W P (Zoom get put m)"
proof -
  have "wp NoPanic m (\<lambda>a t. W (put t s) \<subseteq> W s \<and> P a) (get s)" for s
    using calmD [OF assms(1), of "get s"] by (simp only: assms(2,3))
  then show ?thesis by (simp add: calm_def wp_rules)
qed

section \<open>Integers and durations\<close>

text \<open>Go's integer division truncates towards zero; a zero divisor panics at the call site.\<close>

definition go_div :: "int \<Rightarrow> int \<Rightarrow> int" where
  "go_div a b = sgn a * sgn b * (\<bar>a\<bar> div \<bar>b\<bar>)"

lemma go_div_pos: "0 \<le> a \<Longrightarrow> 0 < b \<Longrightarrow> go_div a b = a div b"
  by (cases "a = 0") (simp_all add: go_div_def)

text \<open>Durations are counted in nanoseconds.\<close>

definition millisecond :: int where "millisecond = 1000000"
definition second :: int where "second = 1000000000"
definition minute :: int where "minute = 60000000000"

lemmas durations = millisecond_def second_def minute_def

section \<open>Strings\<close>

text \<open>
  A Go string is a sequence of bytes; it is a \<^typ>\<open>string\<close> here, one character per byte.
\<close>

definition HasSuffix :: "string \<Rightarrow> string \<Rightarrow> bool" where
  "HasSuffix s suf = suffix suf s"

definition TrimSuffix :: "string \<Rightarrow> string \<Rightarrow> string" where
  "TrimSuffix s suf = (if HasSuffix s suf then take (length s - length suf) s else s)"

definition TrimPrefix :: "string \<Rightarrow> string \<Rightarrow> string" where
  "TrimPrefix s pre = (if prefix pre s then drop (length pre) s else s)"

text \<open>\<open>strings.SplitAfterN(s, sep, 2)\<close> for a separator of one byte.\<close>

definition SplitAfter2 :: "char \<Rightarrow> string \<Rightarrow> string list" where
  "SplitAfter2 c s =
     (case dropWhile (\<lambda>x. x \<noteq> c) s of
        [] \<Rightarrow> [s]
      | _ # rest \<Rightarrow> [takeWhile (\<lambda>x. x \<noteq> c) s @ [c], rest])"

definition lower_char :: "char \<Rightarrow> char" where
  "lower_char c =
     (if 65 \<le> (of_char c :: nat) \<and> (of_char c :: nat) \<le> 90
      then char_of ((of_char c :: nat) + 32) else c)"

text \<open>
  \<open>strings.ToLower\<close> on the names the DNS library delivers, which are in presentation format and
  hence ASCII.
\<close>

definition ToLower :: "string \<Rightarrow> string" where
  "ToLower s = map lower_char s"

abbreviation dot :: char where
  "dot \<equiv> CHR ''.''"

definition dots :: "string \<Rightarrow> nat" where
  "dots s = count_list s dot"

lemma TrimSuffix_cases:
  "TrimSuffix s suf = s \<or> s = TrimSuffix s suf @ suf"
  by (auto simp: TrimSuffix_def HasSuffix_def suffix_def)

lemma TrimSuffix_append [simp]: "TrimSuffix (s @ suf) suf = s"
  by (simp add: TrimSuffix_def HasSuffix_def suffix_def)

lemma TrimSuffix_id: "\<not> HasSuffix s suf \<Longrightarrow> TrimSuffix s suf = s"
  by (simp add: TrimSuffix_def)

lemma length_TrimSuffix [go_strings]: "length (TrimSuffix s suf) \<le> length s"
  by (simp add: TrimSuffix_def)

lemma dots_append [simp]: "dots (s @ t) = dots s + dots t"
  by (simp add: dots_def)

lemma dots_TrimSuffix [go_strings]: "dots (TrimSuffix s suf) \<le> dots s"
  using TrimSuffix_cases [of s suf] by (metis dots_append le_add1 order_refl)

lemma SplitAfter2_one: "c \<notin> set s \<Longrightarrow> SplitAfter2 c s = [s]"
proof -
  assume "c \<notin> set s"
  then have "dropWhile (\<lambda>x. x \<noteq> c) s = []" by auto
  then show ?thesis unfolding SplitAfter2_def by (simp only: list.case)
qed

lemma SplitAfter2_two:
  "c \<notin> set a \<Longrightarrow> SplitAfter2 c (a @ c # b) = [a @ [c], b]"
proof -
  assume "c \<notin> set a"
  then have "dropWhile (\<lambda>x. x \<noteq> c) (a @ c # b) = c # b"
    and "takeWhile (\<lambda>x. x \<noteq> c) (a @ c # b) = a"
    by (auto simp: dropWhile_append takeWhile_append intro: takeWhile_eq_all_conv [THEN iffD2])
  then show ?thesis by (simp add: SplitAfter2_def)
qed

lemma SplitAfter2_cases:
  obtains (one) "c \<notin> set s" "SplitAfter2 c s = [s]"
  | (two) a b where "c \<notin> set a" "s = a @ c # b" "SplitAfter2 c s = [a @ [c], b]"
proof (cases "c \<in> set s")
  case True
  then obtain a b where "s = a @ c # b" "c \<notin> set a"
    by (meson split_list_first)
  then show ?thesis using two SplitAfter2_two by blast
next
  case False
  then show ?thesis using one SplitAfter2_one by blast
qed

text \<open>In-place updates of a list at the positions that satisfy a test.\<close>

lemma fold_update_upt:
  "k \<le> length xs \<Longrightarrow>
     fold (\<lambda>i m. if P i then m[i := v] else m) [0..<k] xs =
     map (\<lambda>i. if i < k \<and> P i then v else xs ! i) [0..<length xs]"
proof (induction k)
  case 0
  then show ?case by (simp add: map_nth)
next
  case (Suc k)
  then show ?case by (auto intro!: nth_equalityI simp: nth_list_update less_Suc_eq)
qed

lemma fold_max_upt:
  "fold (\<lambda>i m. if P i then max (f i) m else m) [0..<k] (d :: int) =
     Max (insert d (f ` {i. i < k \<and> P i}))"
proof (induction k)
  case (Suc k)
  have fin: "finite (f ` {i. i < k \<and> P i})" by simp
  have "{i. i < Suc k \<and> P i} = {i. i < k \<and> P i} \<union> (if P k then {k} else {})"
    by (auto simp: less_Suc_eq)
  then show ?case using Suc fin by (auto simp: insert_commute [of d])
qed simp

text \<open>Induction for the loops that give up once their counter exceeds ten.\<close>

lemma loop_count_induct [case_names stop step]:
  assumes "\<And>k. 10 < k \<Longrightarrow> P k" "\<And>k. k \<le> 10 \<Longrightarrow> P (Suc k) \<Longrightarrow> P k"
  shows "P (k :: nat)"
proof (induction "11 - k" arbitrary: k)
  case 0
  then show ?case using assms(1) by simp
next
  case (Suc n)
  then show ?case using assms(2) by simp
qed

lemma TrimPrefix_append [simp]: "TrimPrefix (pre @ s) pre = s"
  by (simp add: TrimPrefix_def)

end
