(* ===== verification/Dns_Types.thy ===== *)
theory Dns_Types
  imports Redins_Prelude
begin

text \<open>
  The data model: the resource records of the DNS library as far as the sources build and read
  them, the record sets of \<open>handler/dns_types.go\<close>, and the zone and record structures that hold
  them. Also the decoder \<open>IP_RR.UnmarshalJSON\<close>, which accepts a country or an autonomous system
  number either as one value or as a list.
\<close>

section \<open>Resource records of the DNS library\<close>

type_synonym uint8 = "8 word"
type_synonym uint16 = "16 word"
type_synonym uint32 = "32 word"
type_synonym uint = "64 word"

text \<open>\<open>net.IP\<close> is a byte slice; \<open>None\<close> is the nil slice.\<close>

type_synonym net_IP = "uint8 list option"

record RR_Header =
  hdr_Name :: string
  hdr_Rrtype :: uint16
  hdr_Class :: uint16
  hdr_Ttl :: uint32

record RRSIG_Data =
  sig_TypeCovered :: uint16
  sig_Algorithm :: uint8
  sig_Labels :: uint8
  sig_OrigTtl :: uint32
  sig_Expiration :: uint32
  sig_Inception :: uint32
  sig_KeyTag :: uint16
  sig_SignerName :: string
  sig_Signature :: string

record DNSKEY_Data =
  key_Flags :: uint16
  key_Protocol :: uint8
  key_Algorithm :: uint8
  key_PublicKey :: string

record SOA_Data =
  soa_Ns :: string
  soa_Mbox :: string
  soa_Serial :: uint32
  soa_Refresh :: uint32
  soa_Retry :: uint32
  soa_Expire :: uint32
  soa_Minttl :: uint32

datatype rdata =
    RA net_IP
  | RAAAA net_IP
  | RCNAME string
  | RTXT "string list"
  | RNS string
  | RMX string uint16
  | RSRV string uint16 uint16 uint16
  | RCAA string uint8 string
  | RPTR string
  | RTLSA uint8 uint8 uint8 string
  | RSOA SOA_Data
  | RDNSKEY DNSKEY_Data
  | RRRSIG RRSIG_Data
  | RNSEC string "uint16 list"
  | ROther string

text \<open>A resource record: its header and its data, which fixes the dynamic type.\<close>

datatype dns_RR = RR (rr_Hdr: RR_Header) (rr_Data: rdata)

abbreviation rr_name :: "dns_RR \<Rightarrow> string" where
  "rr_name r \<equiv> hdr_Name (rr_Hdr r)"

abbreviation rr_type :: "dns_RR \<Rightarrow> uint16" where
  "rr_type r \<equiv> hdr_Rrtype (rr_Hdr r)"

abbreviation rr_class :: "dns_RR \<Rightarrow> uint16" where
  "rr_class r \<equiv> hdr_Class (rr_Hdr r)"

abbreviation rr_ttl :: "dns_RR \<Rightarrow> uint32" where
  "rr_ttl r \<equiv> hdr_Ttl (rr_Hdr r)"

text \<open>The codes of the protocol, as the DNS library names them.\<close>

definition TypeA :: uint16 where "TypeA = 1"
definition TypeNS :: uint16 where "TypeNS = 2"
definition TypeCNAME :: uint16 where "TypeCNAME = 5"
definition TypeSOA :: uint16 where "TypeSOA = 6"
definition TypePTR :: uint16 where "TypePTR = 12"
definition TypeMX :: uint16 where "TypeMX = 15"
definition TypeTXT :: uint16 where "TypeTXT = 16"
definition TypeAAAA :: uint16 where "TypeAAAA = 28"
definition TypeSRV :: uint16 where "TypeSRV = 33"
definition TypeOPT :: uint16 where "TypeOPT = 41"
definition TypeRRSIG :: uint16 where "TypeRRSIG = 46"
definition TypeNSEC :: uint16 where "TypeNSEC = 47"
definition TypeDNSKEY :: uint16 where "TypeDNSKEY = 48"
definition TypeTLSA :: uint16 where "TypeTLSA = 52"
definition TypeCAA :: uint16 where "TypeCAA = 257"

lemmas type_codes = TypeA_def TypeNS_def TypeCNAME_def TypeSOA_def TypePTR_def TypeMX_def
  TypeTXT_def TypeAAAA_def TypeSRV_def TypeOPT_def TypeRRSIG_def TypeNSEC_def TypeDNSKEY_def
  TypeTLSA_def TypeCAA_def

definition ClassINET :: uint16 where "ClassINET = 1"
definition ClassNONE :: uint16 where "ClassNONE = 254"

definition RcodeSuccess :: int where "RcodeSuccess = 0"
definition RcodeServerFailure :: int where "RcodeServerFailure = 2"
definition RcodeNameError :: int where "RcodeNameError = 3"
definition RcodeNotImplemented :: int where "RcodeNotImplemented = 4"
definition RcodeRefused :: int where "RcodeRefused = 5"
definition RcodeNotAuth :: int where "RcodeNotAuth = 9"

lemmas rcodes = RcodeSuccess_def RcodeServerFailure_def RcodeNameError_def
  RcodeNotImplemented_def RcodeRefused_def RcodeNotAuth_def

section \<open>Record sets\<close>

record IpFilterConfig =
  fc_Count :: string
  fc_Order :: string
  fc_GeoFilter :: string

record IpHealthCheckConfig =
  hcc_Protocol :: string
  hcc_Uri :: string
  hcc_Port :: int
  hcc_Timeout :: int
  hcc_UpCount :: int
  hcc_DownCount :: int
  hcc_Enable :: bool

record IP_RR =
  ip_Weight :: int
  ip_Ip :: net_IP
  ip_Country :: "string list"
  ip_ASN :: "uint list"

record IP_RRSet =
  ips_FilterConfig :: IpFilterConfig
  ips_HealthCheckConfig :: IpHealthCheckConfig
  ips_Ttl :: uint32
  ips_Data :: "IP_RR list"

record CNAME_RRSet =
  cname_Host :: string
  cname_Ttl :: uint32

record TXT_RR =
  txt_Text :: string

record TXT_RRSet =
  txts_Ttl :: uint32
  txts_Data :: "TXT_RR list"

record NS_RR =
  ns_Host :: string

record NS_RRSet =
  nss_Ttl :: uint32
  nss_Data :: "NS_RR list"

record MX_RR =
  mx_Host :: string
  mx_Preference :: uint16

record MX_RRSet =
  mxs_Ttl :: uint32
  mxs_Data :: "MX_RR list"

record SRV_RR =
  srv_Target :: string
  srv_Priority :: uint16
  srv_Weight :: uint16
  srv_Port :: uint16

record SRV_RRSet =
  srvs_Ttl :: uint32
  srvs_Data :: "SRV_RR list"

record CAA_RR =
  caa_Tag :: string
  caa_Value :: string
  caa_Flag :: uint8

record CAA_RRSet =
  caas_Ttl :: uint32
  caas_Data :: "CAA_RR list"

record PTR_RRSet =
  ptr_Domain :: string
  ptr_Ttl :: uint32

record TLSA_RR =
  tlsa_Usage :: uint8
  tlsa_Selector :: uint8
  tlsa_MatchingType :: uint8
  tlsa_Certificate :: string

record TLSA_RRSet =
  tlsas_Ttl :: uint32
  tlsas_Data :: "TLSA_RR list"

record ANAME_Record =
  aname_Location :: string

record SOA_RRSet =
  soas_Ns :: string
  soas_MBox :: string
  soas_Data :: "dns_RR option"
  soas_Ttl :: uint32
  soas_Refresh :: uint32
  soas_Retry :: uint32
  soas_Expire :: uint32
  soas_MinTtl :: uint32
  soas_Serial :: uint32

record RRSets =
  rr_A :: IP_RRSet
  rr_AAAA :: IP_RRSet
  rr_TXT :: TXT_RRSet
  rr_CNAME :: "CNAME_RRSet option"
  rr_NS :: NS_RRSet
  rr_MX :: MX_RRSet
  rr_SRV :: SRV_RRSet
  rr_CAA :: CAA_RRSet
  rr_PTR :: "PTR_RRSet option"
  rr_TLSA :: TLSA_RRSet
  rr_ANAME :: "ANAME_Record option"

text \<open>A private key by its dynamic type; the number stands for the key material.\<close>

datatype PrivateKey = RsaKey nat | EcdsaKey nat | OtherKey nat

record ZoneKey =
  zk_DnsKey :: dns_RR
  zk_PrivateKey :: PrivateKey
  zk_KeyInception :: uint32
  zk_KeyExpiration :: uint32

record ZoneConfig =
  zc_DomainId :: string
  zc_SOA :: "SOA_RRSet option"
  zc_DnsSec :: bool
  zc_CnameFlattening :: bool

text \<open>A zone; \<open>zone_Locations\<close> is the key set of the source's \<open>map[string]struct{}\<close>.\<close>

record Zone =
  zone_Name :: string
  zone_Config :: ZoneConfig
  zone_Locations :: "string set"
  zone_ZSK :: "ZoneKey option"
  zone_KSK :: "ZoneKey option"
  zone_DnsKeySig :: "dns_RR option"
  zone_CacheTimeout :: int

text \<open>A record embeds the record sets and adds the zone it was loaded for.\<close>

record Record = RRSets +
  rec_Zone :: "Zone option"
  rec_Name :: string
  rec_CacheTimeout :: int

text \<open>The zero values Go gives fresh structures.\<close>

definition zero_IP_RR :: IP_RR where
  "zero_IP_RR = \<lparr>ip_Weight = 0, ip_Ip = None, ip_Country = [], ip_ASN = []\<rparr>"

definition zero_IP_RRSet :: IP_RRSet where
  "zero_IP_RRSet = \<lparr>
     ips_FilterConfig = \<lparr>fc_Count = [], fc_Order = [], fc_GeoFilter = []\<rparr>,
     ips_HealthCheckConfig = \<lparr>hcc_Protocol = [], hcc_Uri = [], hcc_Port = 0, hcc_Timeout = 0,
       hcc_UpCount = 0, hcc_DownCount = 0, hcc_Enable = False\<rparr>,
     ips_Ttl = 0, ips_Data = []\<rparr>"

definition zero_Record :: Record where
  "zero_Record = \<lparr>rr_A = zero_IP_RRSet, rr_AAAA = zero_IP_RRSet,
     rr_TXT = \<lparr>txts_Ttl = 0, txts_Data = []\<rparr>, rr_CNAME = None,
     rr_NS = \<lparr>nss_Ttl = 0, nss_Data = []\<rparr>, rr_MX = \<lparr>mxs_Ttl = 0, mxs_Data = []\<rparr>,
     rr_SRV = \<lparr>srvs_Ttl = 0, srvs_Data = []\<rparr>, rr_CAA = \<lparr>caas_Ttl = 0, caas_Data = []\<rparr>,
     rr_PTR = None, rr_TLSA = \<lparr>tlsas_Ttl = 0, tlsas_Data = []\<rparr>, rr_ANAME = None,
     rec_Zone = None, rec_Name = [], rec_CacheTimeout = 0\<rparr>"

section \<open>Decoding an address record\<close>

text \<open>
  The dynamic values a JSON document decodes to; \<open>'f\<close> is the type of the 64-bit floating-point
  numbers.
\<close>

datatype 'f iface =
    INil
  | IString string
  | IFloat 'f
  | IBool bool
  | IArray "'f iface list"
  | IObject "(string \<times> 'f iface) list"

record 'f raw_IP_RR =
  raw_Country :: "'f iface"
  raw_ASN :: "'f iface"
  raw_Weight :: int
  raw_Ip :: net_IP

fun append_countries :: "'f iface list \<Rightarrow> string list \<Rightarrow> string list \<times> go_error option" where
  "append_countries [] acc = (acc, None)"
| "append_countries (IString c # xs) acc = append_countries xs (acc @ [c])"
| "append_countries (x # xs) acc = (acc, Some ''string expected'')"

fun append_asns ::
  "('f \<Rightarrow> uint) \<Rightarrow> 'f iface list \<Rightarrow> uint list \<Rightarrow> uint list \<times> go_error option" where
  "append_asns to_uint [] acc = (acc, None)"
| "append_asns to_uint (IFloat f # xs) acc = append_asns to_uint xs (acc @ [to_uint f])"
| "append_asns to_uint (x # xs) acc = (acc, Some ''invalid type'')"

fun parse_Country :: "'f iface \<Rightarrow> string list \<Rightarrow> string list \<times> go_error option" where
  "parse_Country INil old = (old, None)"
| "parse_Country (IString v) old = ([v], None)"
| "parse_Country (IArray xs) old = append_countries xs old"
| "parse_Country v old = (old, Some ''cannot parse country value'')"

fun parse_ASN :: "('f \<Rightarrow> uint) \<Rightarrow> 'f iface \<Rightarrow> uint list \<Rightarrow> uint list \<times> go_error option" where
  "parse_ASN to_uint INil old = (old, None)"
| "parse_ASN to_uint (IFloat v) old = ([to_uint v], None)"
| "parse_ASN to_uint (IArray xs) old = append_asns to_uint xs old"
| "parse_ASN to_uint v old = (old, Some ''cannot parse asn value'')"

text \<open>
  \<open>IP_RR.UnmarshalJSON\<close>: the receiver with what was written to it, and the error if any. The JSON
  decoder and the conversion of a float to an unsigned integer are parameters.
\<close>

definition UnmarshalJSON ::
  "(string \<Rightarrow> go_error + 'f raw_IP_RR) \<Rightarrow> ('f \<Rightarrow> uint) \<Rightarrow> IP_RR \<Rightarrow> string \<Rightarrow>
     IP_RR \<times> go_error option" where
  "UnmarshalJSON decode to_uint iprr data =
     (case decode data of
        Inl err \<Rightarrow> (iprr, Some err)
      | Inr raw \<Rightarrow>
          (let iprr = iprr\<lparr>ip_Ip := raw_Ip raw, ip_Weight := raw_Weight raw\<rparr>
           in case parse_Country (raw_Country raw) (ip_Country iprr) of
                (cs, Some err) \<Rightarrow> (iprr\<lparr>ip_Country := cs\<rparr>, Some err)
              | (cs, None) \<Rightarrow>
                  (let iprr = iprr\<lparr>ip_Country := cs\<rparr>
                   in case parse_ASN to_uint (raw_ASN raw) (ip_ASN iprr) of
                        (as, err) \<Rightarrow> (iprr\<lparr>ip_ASN := as\<rparr>, err))))"

lemma append_countries_strings:
  "append_countries (map IString cs) acc = (acc @ cs, None)"
  by (induction cs arbitrary: acc) auto

lemma append_countries_ok:
  "append_countries xs acc = (cs, None) \<longleftrightarrow> (\<exists>ds. xs = map IString ds \<and> cs = acc @ ds)"
proof (induction xs acc rule: append_countries.induct)
  case (2 c xs acc)
  show ?case
  proof
    assume "append_countries (IString c # xs) acc = (cs, None)"
    then obtain ds where "xs = map IString ds" "cs = (acc @ [c]) @ ds"
      using 2 by auto
    then have "IString c # xs = map IString (c # ds) \<and> cs = acc @ (c # ds)" by simp
    then show "\<exists>ds. IString c # xs = map IString ds \<and> cs = acc @ ds" by (rule exI)
  next
    assume "\<exists>ds. IString c # xs = map IString ds \<and> cs = acc @ ds"
    then show "append_countries (IString c # xs) acc = (cs, None)"
      by (auto simp: Cons_eq_map_conv append_countries_strings)
  qed
qed (auto simp: Cons_eq_map_conv)

lemma append_asns_floats:
  "append_asns u (map IFloat fs) acc = (acc @ map u fs, None)"
  by (induction fs arbitrary: acc) auto

lemma append_asns_ok:
  "append_asns u xs acc = (as, None) \<longleftrightarrow> (\<exists>fs. xs = map IFloat fs \<and> as = acc @ map u fs)"
proof (induction u xs acc rule: append_asns.induct)
  case (2 u f xs acc)
  show ?case
  proof
    assume "append_asns u (IFloat f # xs) acc = (as, None)"
    then obtain fs where "xs = map IFloat fs" "as = (acc @ [u f]) @ map u fs"
      using 2 by auto
    then have "IFloat f # xs = map IFloat (f # fs) \<and> as = acc @ map u (f # fs)" by simp
    then show "\<exists>fs. IFloat f # xs = map IFloat fs \<and> as = acc @ map u fs" by (rule exI)
  next
    assume "\<exists>fs. IFloat f # xs = map IFloat fs \<and> as = acc @ map u fs"
    then show "append_asns u (IFloat f # xs) acc = (as, None)"
      by (auto simp: Cons_eq_map_conv append_asns_floats)
  qed
qed (auto simp: Cons_eq_map_conv)

section \<open>Properties\<close>

text \<open>
  C34. Decoding an address record succeeds exactly when the country is absent, a string or a list of
  strings and the autonomous system number is absent, a number or a list of numbers; the receiver
  then holds the address, the weight, and the values read (one value replaces the old ones, a list
  is appended to them).
\<close>

theorem UnmarshalJSON_ok:
  "UnmarshalJSON (\<lambda>_. Inr raw) to_uint iprr data = (iprr', None) \<longleftrightarrow>
     (\<exists>cs as. (raw_Country raw = INil \<and> cs = ip_Country iprr \<or>
               (\<exists>c. raw_Country raw = IString c \<and> cs = [c]) \<or>
               (\<exists>ds. raw_Country raw = IArray (map IString ds) \<and> cs = ip_Country iprr @ ds)) \<and>
              (raw_ASN raw = INil \<and> as = ip_ASN iprr \<or>
               (\<exists>f. raw_ASN raw = IFloat f \<and> as = [to_uint f]) \<or>
               (\<exists>fs. raw_ASN raw = IArray (map IFloat fs) \<and> as = ip_ASN iprr @ map to_uint fs)) \<and>
              iprr' = \<lparr>ip_Weight = raw_Weight raw, ip_Ip = raw_Ip raw,
                       ip_Country = cs, ip_ASN = as\<rparr>)"
proof -
  have country: "parse_Country v old = (cs, None) \<longleftrightarrow>
      v = INil \<and> cs = old \<or> (\<exists>c. v = IString c \<and> cs = [c]) \<or>
      (\<exists>ds. v = IArray (map IString ds) \<and> cs = old @ ds)" for v :: "'a iface" and old cs
    by (cases v) (auto simp: append_countries_ok)
  have asn: "parse_ASN to_uint v old = (as, None) \<longleftrightarrow>
      v = INil \<and> as = old \<or> (\<exists>f. v = IFloat f \<and> as = [to_uint f]) \<or>
      (\<exists>fs. v = IArray (map IFloat fs) \<and> as = old @ map to_uint fs)" for v old as
    by (cases v) (auto simp: append_asns_ok)
  have "UnmarshalJSON (\<lambda>_. Inr raw) to_uint iprr data = (iprr', None) \<longleftrightarrow>
      (\<exists>cs as. parse_Country (raw_Country raw) (ip_Country iprr) = (cs, None) \<and>
         parse_ASN to_uint (raw_ASN raw) (ip_ASN iprr) = (as, None) \<and>
         iprr' = \<lparr>ip_Weight = raw_Weight raw, ip_Ip = raw_Ip raw, ip_Country = cs, ip_ASN = as\<rparr>)"
    by (auto simp: UnmarshalJSON_def Let_def split: prod.splits option.splits)
  then show ?thesis unfolding country asn .
qed

end
