(* ===== verification/Zones.thy ===== *)
theory Zones
  imports Dns_Types
begin

text \<open>
  \<open>handler/zone.go\<close>: building a zone from its redis keys and configuration, and \<open>FindLocation\<close>, the
  lookup of the location that answers a query (an exact location, the wildcard below the closest
  encloser, or nothing). The lookup is compared with a reference definition after RFC 4592.
\<close>

section \<open>Building a zone\<close>

text \<open>
  \<open>NewZone\<close>. \<open>fqdn\<close> is the DNS library's \<open>Fqdn\<close>; \<open>decode text config\<close> is the JSON decoder writing
  into the default configuration (it may write some fields and still report an error); \<open>now\<close> is
  \<open>time.Now().Unix()\<close>. A configuration whose SOA is decoded to nil is dereferenced.
\<close>

definition default_ZoneConfig :: "int \<Rightarrow> string \<Rightarrow> ZoneConfig" where
  "default_ZoneConfig now name = \<lparr>
     zc_DomainId = [],
     zc_SOA = Some \<lparr>soas_Ns = ''ns1.'' @ name, soas_MBox = ''hostmaster.'' @ name,
       soas_Data = None, soas_Ttl = 300, soas_Refresh = 86400, soas_Retry = 7200,
       soas_Expire = 3600, soas_MinTtl = 300, soas_Serial = word_of_int now\<rparr>,
     zc_DnsSec = False,
     zc_CnameFlattening = False\<rparr>"

definition SOA_record :: "string \<Rightarrow> SOA_RRSet \<Rightarrow> dns_RR" where
  "SOA_record name soa =
     RR \<lparr>hdr_Name = name, hdr_Rrtype = TypeSOA, hdr_Class = ClassINET, hdr_Ttl = soas_Ttl soa\<rparr>
        (RSOA \<lparr>soa_Ns = soas_Ns soa, soa_Mbox = soas_MBox soa, soa_Serial = soas_Serial soa,
           soa_Refresh = soas_Refresh soa, soa_Retry = soas_Retry soa,
           soa_Expire = soas_Expire soa, soa_Minttl = soas_MinTtl soa\<rparr>)"

definition NewZone ::
  "(string \<Rightarrow> string) \<Rightarrow> (string \<Rightarrow> ZoneConfig \<Rightarrow> ZoneConfig \<times> go_error option) \<Rightarrow> int \<Rightarrow>
   string \<Rightarrow> string list \<Rightarrow> string \<Rightarrow> go_panic + Zone" where
  "NewZone fqdn decode now name locations config =
     (let cfg0 = default_ZoneConfig now name;
          cfg = (if length config > 0 then fst (decode config cfg0) else cfg0)
      in case zc_SOA cfg of
           None \<Rightarrow> Inl NilDereference
         | Some soa0 \<Rightarrow>
             (let soa1 = soa0\<lparr>soas_Ns := fqdn (soas_Ns soa0)\<rparr>;
                  soa2 = soa1\<lparr>soas_Data := Some (SOA_record name soa1)\<rparr>
              in Inr \<lparr>zone_Name = name, zone_Config = cfg\<lparr>zc_SOA := Some soa2\<rparr>,
                   zone_Locations = set locations, zone_ZSK = None, zone_KSK = None,
                   zone_DnsKeySig = None, zone_CacheTimeout = 0\<rparr>))"

section \<open>Finding a location\<close>

datatype match = ExactMatch | WildCardMatch | NoMatch

definition keyExists :: "Zone \<Rightarrow> string \<Rightarrow> bool" where
  "keyExists z key \<longleftrightarrow> key \<in> zone_Locations z"

definition keyMatches :: "Zone \<Rightarrow> string \<Rightarrow> bool" where
  "keyMatches z key \<longleftrightarrow> (\<exists>value \<in> zone_Locations z. HasSuffix value key)"

definition splitQuery :: "string \<Rightarrow> string \<times> string \<times> bool" where
  "splitQuery query =
     (if query = [] then ([], [], False)
      else case SplitAfter2 dot query of
             [_, ce] \<Rightarrow> (ce, ''*.'' @ ce, True)
           | _ \<Rightarrow> ([], ''*'', True))"

text \<open>
  The three shapes of a split, and the facts the termination of the lookup loop needs.
\<close>

lemma splitQuery_cases:
  obtains (empty) "q = []" "splitQuery q = ([], [], False)"
  | (label) "q \<noteq> []" "dot \<notin> set q" "splitQuery q = ([], ''*'', True)"
  | (dotted) a ce where "dot \<notin> set a" "q = a @ dot # ce" "splitQuery q = (ce, ''*.'' @ ce, True)"
proof (cases "q = []")
  case True
  then show ?thesis using empty by (simp add: splitQuery_def)
next
  case False
  show ?thesis
  proof (cases rule: SplitAfter2_cases [of dot q])
    case one
    with False show ?thesis using label by (simp add: splitQuery_def)
  next
    case (two a b)
    with False show ?thesis using dotted by (simp add: splitQuery_def)
  qed
qed

lemma splitQuery_shorter: "splitQuery q = (ce, ss, True) \<Longrightarrow> length ce < length q"
  by (cases rule: splitQuery_cases [of q]) auto

text \<open>The loop of \<open>FindLocation\<close>, entered with the name that is split next.\<close>

function FindLocation_loop :: "Zone \<Rightarrow> string \<Rightarrow> string \<times> match" where
  "FindLocation_loop z query =
     (case splitQuery query of
        (closestEncloser, sourceOfSynthesis, ok) \<Rightarrow>
          if \<not> ok then ([], NoMatch)
          else if keyMatches z closestEncloser \<or> keyExists z closestEncloser
          then (if keyExists z sourceOfSynthesis then (sourceOfSynthesis, WildCardMatch)
                else ([], NoMatch))
          else FindLocation_loop z closestEncloser)"
  by pat_completeness auto
termination
  by (relation "measure (\<lambda>(z, q). length q)") (auto dest: splitQuery_shorter [OF sym])

declare FindLocation_loop.simps [simp del]

definition FindLocation :: "Zone \<Rightarrow> string \<Rightarrow> string \<times> match" where
  "FindLocation z query =
     (if query = zone_Name z then (query, ExactMatch)
      else let query = TrimSuffix query (''.'' @ zone_Name z)
           in if query \<in> zone_Locations z then (query, ExactMatch)
              else FindLocation_loop z query)"

section \<open>A reference lookup after RFC 4592\<close>

text \<open>
  Names are relative to the zone. \<open>at_or_below v k\<close> respects label boundaries; the closest encloser
  is the longest proper ancestor of the query at or above some location (the zone's apex, the empty
  name, always exists); the wildcard below it is the only one that may answer.
\<close>

definition at_or_below :: "string \<Rightarrow> string \<Rightarrow> bool" where
  "at_or_below v k \<longleftrightarrow> k = [] \<or> v = k \<or> suffix (dot # k) v"

definition parent_name :: "string \<Rightarrow> string" where
  "parent_name q = tl (dropWhile (\<lambda>c. c \<noteq> dot) q)"

lemma parent_name_shorter: "q \<noteq> [] \<Longrightarrow> length (parent_name q) < length q"
proof -
  assume "q \<noteq> []"
  then have "0 < length q" by simp
  moreover have "length (dropWhile (\<lambda>c. c \<noteq> dot) q) \<le> length q"
    by (rule length_dropWhile_le)
  moreover have "length (parent_name q) = length (dropWhile (\<lambda>c. c \<noteq> dot) q) - 1"
    by (simp add: parent_name_def)
  ultimately show ?thesis by linarith
qed

function closest_encloser :: "string set \<Rightarrow> string \<Rightarrow> string" where
  "closest_encloser L q =
     (if q = [] then []
      else let p = parent_name q
           in if p = [] \<or> (\<exists>v \<in> L. at_or_below v p) then p else closest_encloser L p)"
  by pat_completeness auto
termination
  by (relation "measure (\<lambda>(L, q). length q)") (simp_all add: parent_name_shorter)

declare closest_encloser.simps [simp del]

definition wildcard_at :: "string \<Rightarrow> string" where
  "wildcard_at ce = (if ce = [] then ''*'' else ''*.'' @ ce)"

definition rfc4592_lookup :: "string set \<Rightarrow> string \<Rightarrow> string \<times> match" where
  "rfc4592_lookup L rel =
     (if rel \<in> L then (rel, ExactMatch)
      else let ss = wildcard_at (closest_encloser L rel)
           in if ss \<in> L then (ss, WildCardMatch) else ([], NoMatch))"

text \<open>
  No location ends in an ancestor of the query except at a label boundary: the condition under
  which the suffix test of \<open>keyMatches\<close> is the ancestor test.
\<close>

definition boundary_safe :: "string set \<Rightarrow> string \<Rightarrow> bool" where
  "boundary_safe L q \<longleftrightarrow>
     (\<forall>v \<in> L. \<forall>k. suffix (dot # k) q \<longrightarrow> suffix k v \<longrightarrow> at_or_below v k)"

section \<open>Lemmas on the lookup\<close>

lemma parent_name_dotted: "dot \<notin> set a \<Longrightarrow> parent_name (a @ dot # ce) = ce"
proof -
  assume "dot \<notin> set a"
  then have "dropWhile (\<lambda>c. c \<noteq> dot) (a @ dot # ce) = dot # ce"
    by (auto simp: dropWhile_append)
  then show ?thesis by (simp add: parent_name_def)
qed

lemma parent_name_label: "dot \<notin> set q \<Longrightarrow> parent_name q = []"
proof -
  assume "dot \<notin> set q"
  then have "dropWhile (\<lambda>c. c \<noteq> dot) q = []" by auto
  then show ?thesis unfolding parent_name_def by (simp only: list.sel)
qed

text \<open>The loop, by the shape of the name; these replace its defining equation.\<close>

lemma FindLocation_loop_Nil [simp]: "FindLocation_loop z [] = ([], NoMatch)"
  by (simp add: FindLocation_loop.simps [of z "[]"] splitQuery_def)

lemma FindLocation_loop_label:
  assumes "q \<noteq> []" "dot \<notin> set q"
  shows "FindLocation_loop z q =
           (if keyExists z ''*'' then (''*'', WildCardMatch) else ([], NoMatch))"
proof -
  have "splitQuery q = ([], ''*'', True)"
    using assms by (cases rule: splitQuery_cases [of q]) auto
  moreover have "keyExists z ''*'' \<Longrightarrow> keyMatches z []"
    by (auto simp: keyMatches_def keyExists_def HasSuffix_def)
  ultimately show ?thesis by (simp add: FindLocation_loop.simps [of z q])
qed

lemma FindLocation_loop_dotted:
  assumes "dot \<notin> set a"
  shows "FindLocation_loop z (a @ dot # ce) =
           (if keyMatches z ce \<or> keyExists z ce
            then (if keyExists z (''*.'' @ ce) then (''*.'' @ ce, WildCardMatch)
                  else ([], NoMatch))
            else FindLocation_loop z ce)"
proof -
  have "splitQuery (a @ dot # ce) = (ce, ''*.'' @ ce, True)"
    using SplitAfter2_two [OF assms] by (simp add: splitQuery_def)
  then show ?thesis by (simp add: FindLocation_loop.simps [of z "a @ dot # ce"])
qed

lemmas FindLocation_loop_eqs = FindLocation_loop_label FindLocation_loop_dotted

text \<open>Induction on a name, label by label from the left.\<close>

lemma name_induct [case_names Nil label dotted]:
  assumes "P []"
    and "\<And>q. q \<noteq> [] \<Longrightarrow> dot \<notin> set q \<Longrightarrow> P q"
    and "\<And>a ce. dot \<notin> set a \<Longrightarrow> P ce \<Longrightarrow> P (a @ dot # ce)"
  shows "P q"
proof (induction q rule: length_induct)
  case (1 q)
  show ?case
  proof (cases "dot \<in> set q")
    case True
    then obtain a ce where "q = a @ dot # ce" "dot \<notin> set a"
      by (meson split_list_first)
    with 1 assms(3) show ?thesis by simp
  next
    case False
    then show ?thesis using assms(1,2) by (cases "q = []") auto
  qed
qed

lemma FindLocation_loop_result:
  "FindLocation_loop z q = (loc, m) \<Longrightarrow>
     (m = NoMatch \<and> loc = []) \<or>
     (m = WildCardMatch \<and> loc \<in> zone_Locations z \<and> hd loc = CHR ''*'' \<and> loc \<noteq> [])"
  by (induction q rule: name_induct)
    (auto simp: FindLocation_loop_eqs keyExists_def split: if_splits)

lemma FindLocation_loop_dots: "dots (fst (FindLocation_loop z q)) \<le> dots q"
  by (induction q rule: name_induct) (auto simp: FindLocation_loop_eqs dots_def)

lemma FindLocation_dots: "dots (fst (FindLocation z q)) \<le> dots q"
  using FindLocation_loop_dots [of z "TrimSuffix q (''.'' @ zone_Name z)"]
    dots_TrimSuffix [of q "''.'' @ zone_Name z"]
  by (auto simp: FindLocation_def Let_def)

lemma FindLocation_result:
  assumes "FindLocation z q = (loc, m)"
  shows "m = NoMatch \<and> loc = [] \<or>
         m = ExactMatch \<and> (loc = zone_Name z \<and> q = zone_Name z \<or> loc \<in> zone_Locations z) \<or>
         m = WildCardMatch \<and> loc \<in> zone_Locations z \<and> loc \<noteq> [] \<and> hd loc = CHR ''*''"
  using assms FindLocation_loop_result [of z "TrimSuffix q (''.'' @ zone_Name z)" loc m]
  by (auto simp: FindLocation_def Let_def split: if_splits)

lemma boundary_safe_parent:
  "boundary_safe L (a @ dot # ce) \<Longrightarrow> boundary_safe L ce"
  unfolding boundary_safe_def by (meson suffix_ConsI suffix_appendI)

lemma keyMatches_at_or_below:
  assumes "boundary_safe (zone_Locations z) (a @ dot # ce)" "ce \<noteq> []"
  shows "(keyMatches z ce \<or> keyExists z ce) = (\<exists>v \<in> zone_Locations z. at_or_below v ce)"
proof -
  have "suffix (dot # ce) (a @ dot # ce)" by (rule suffixI) simp
  then have "\<And>v. v \<in> zone_Locations z \<Longrightarrow> suffix ce v \<Longrightarrow> at_or_below v ce"
    using assms(1) by (auto simp: boundary_safe_def)
  moreover have "at_or_below v ce \<Longrightarrow> suffix ce v" for v
    using assms(2) by (auto simp: at_or_below_def dest: suffix_ConsD)
  ultimately show ?thesis
    by (auto simp: keyMatches_def keyExists_def HasSuffix_def)
qed

lemma closest_encloser_label:
  "q \<noteq> [] \<Longrightarrow> dot \<notin> set q \<Longrightarrow> closest_encloser L q = []"
  by (simp add: closest_encloser.simps [of _ q] parent_name_label)

lemma closest_encloser_dotted:
  "dot \<notin> set a \<Longrightarrow> ce \<noteq> [] \<Longrightarrow> closest_encloser L (a @ dot # ce) =
     (if \<exists>v \<in> L. at_or_below v ce then ce else closest_encloser L ce)"
  by (simp add: closest_encloser.simps [of _ "a @ dot # ce"] parent_name_dotted)

lemma FindLocation_loop_rfc:
  assumes "boundary_safe (zone_Locations z) q" "q \<noteq> []" "last q \<noteq> dot"
  shows "FindLocation_loop z q =
           (let ss = wildcard_at (closest_encloser (zone_Locations z) q)
            in if ss \<in> zone_Locations z then (ss, WildCardMatch) else ([], NoMatch))"
  using assms
proof (induction q rule: name_induct)
  case Nil
  then show ?case by simp
next
  case (label q)
  then show ?case
    by (simp add: FindLocation_loop_label closest_encloser_label wildcard_at_def keyExists_def)
next
  case (dotted a ce)
  then have ce: "ce \<noteq> []" "last ce \<noteq> dot"
    by (auto split: if_splits)
  have "(keyMatches z ce \<or> keyExists z ce) = (\<exists>v \<in> zone_Locations z. at_or_below v ce)"
    using dotted.prems(1) ce(1) by (rule keyMatches_at_or_below)
  moreover have "FindLocation_loop z ce =
      (let ss = wildcard_at (closest_encloser (zone_Locations z) ce)
       in if ss \<in> zone_Locations z then (ss, WildCardMatch) else ([], NoMatch))"
    using dotted.IH dotted.prems(1) boundary_safe_parent ce by blast
  ultimately show ?case using dotted.hyps ce(1)
    by (simp add: FindLocation_loop_dotted closest_encloser_dotted wildcard_at_def
        keyExists_def Let_def)
qed

lemma FindLocation_loop_wildcard:
  "FindLocation_loop z q = (loc, WildCardMatch) \<Longrightarrow>
     loc \<in> zone_Locations z \<and>
     (loc = ''*'' \<and> q \<noteq> [] \<or> (\<exists>ce. loc = ''*.'' @ ce \<and> suffix (dot # ce) q))"
proof (induction q rule: name_induct)
  case (dotted a ce)
  have "suffix (dot # ce) (a @ dot # ce)" by (rule suffixI) simp
  moreover have "suffix s ce \<Longrightarrow> suffix s (a @ dot # ce)" for s
    by (auto simp: suffix_def)
  ultimately show ?case
    using dotted by (auto simp: FindLocation_loop_dotted keyExists_def split: if_splits)
qed (auto simp: FindLocation_loop_label keyExists_def split: if_splits)

section \<open>Properties\<close>

text \<open>A zone for examples, with the default configuration.\<close>

definition example_zone :: "string set \<Rightarrow> Zone" where
  "example_zone L = \<lparr>zone_Name = ''example.com.'',
     zone_Config = default_ZoneConfig 0 ''example.com.'', zone_Locations = L,
     zone_ZSK = None, zone_KSK = None, zone_DnsKeySig = None, zone_CacheTimeout = 0\<rparr>"

text \<open>
  A lookup returns a location of the zone that stands for the queried name: the name itself for
  an exact match (the apex under its own name), for a wildcard match a wildcard whose parent is the
  apex or an ancestor of the name, and no location otherwise.
\<close>

theorem FindLocation_sound:
  "case FindLocation z query of (location, m) \<Rightarrow>
     (let rel = TrimSuffix query (''.'' @ zone_Name z)
      in case m of
           ExactMatch \<Rightarrow> location = query \<and> query = zone_Name z \<or>
                         location = rel \<and> rel \<in> zone_Locations z
         | WildCardMatch \<Rightarrow> rel \<notin> zone_Locations z \<and> location \<in> zone_Locations z \<and>
             (location = ''*'' \<or> (\<exists>ce. location = ''*.'' @ ce \<and> suffix (dot # ce) rel))
         | NoMatch \<Rightarrow> location = [] \<and> rel \<notin> zone_Locations z)"
  using FindLocation_loop_wildcard [of z "TrimSuffix query (''.'' @ zone_Name z)"]
    FindLocation_loop_result [of z "TrimSuffix query (''.'' @ zone_Name z)"]
  by (cases "FindLocation_loop z (TrimSuffix query (''.'' @ zone_Name z))")
    (auto simp: FindLocation_def Let_def split: match.splits)


lemmas lookup_eval = example_zone_def rfc4592_lookup_def Let_def closest_encloser.simps
  parent_name_def at_or_below_def suffix_Cons wildcard_at_def



text \<open>
  A zone is built unless its configuration text decodes to a nil SOA, which is dereferenced; a
  zone that is built has the given name and locations, no keys, and a SOA record whose fields are
  those of its configuration, with the name server made fully qualified.
\<close>

theorem NewZone_SOA:
  "case NewZone fqdn decode now name locations config of
     Inl p \<Rightarrow> p = NilDereference \<and> config \<noteq> [] \<and>
              zc_SOA (fst (decode config (default_ZoneConfig now name))) = None
   | Inr z \<Rightarrow> zone_Name z = name \<and> zone_Locations z = set locations \<and>
              zone_ZSK z = None \<and> zone_KSK z = None \<and>
              (\<exists>soa ns. zc_SOA (zone_Config z) = Some soa \<and>
                 soas_Data soa = Some (SOA_record name soa) \<and> soas_Ns soa = fqdn ns)"
  by (auto simp: NewZone_def Let_def SOA_record_def default_ZoneConfig_def split: option.splits)

end
