(* ===== verification/Runes.thy ===== *)
theory Runes
  imports Redins_Prelude
begin

text \<open>
  Go's conversions between strings and slices of code points, which \<open>reverseZone\<close> of
  \<open>handler/handler.go\<close> uses to reverse a name. A byte that is not part of a valid UTF-8 sequence
  decodes to U+FFFD on its own.
\<close>

section \<open>Decoding and encoding\<close>

definition cont :: "nat \<Rightarrow> bool" where
  "cont b \<longleftrightarrow> 128 \<le> b \<and> b \<le> 191"

text \<open>The code point at the head of a byte sequence and the number of bytes it takes.\<close>

fun decode_rune :: "nat list \<Rightarrow> nat \<times> nat" where
  "decode_rune [] = (65533, 1)"
| "decode_rune (a # bs) =
     (if a < 128 then (a, 1)
      else if 194 \<le> a \<and> a \<le> 223
      then (case bs of
              b # _ \<Rightarrow> if cont b then ((a - 192) * 64 + (b - 128), 2) else (65533, 1)
            | _ \<Rightarrow> (65533, 1))
      else if 224 \<le> a \<and> a \<le> 239
      then (case bs of
              b # c # _ \<Rightarrow>
                if cont b \<and> cont c \<and> (a = 224 \<longrightarrow> 160 \<le> b) \<and> (a = 237 \<longrightarrow> b \<le> 159)
                then ((a - 224) * 4096 + (b - 128) * 64 + (c - 128), 3) else (65533, 1)
            | _ \<Rightarrow> (65533, 1))
      else if 240 \<le> a \<and> a \<le> 244
      then (case bs of
              b # c # d # _ \<Rightarrow>
                if cont b \<and> cont c \<and> cont d \<and> (a = 240 \<longrightarrow> 144 \<le> b) \<and> (a = 244 \<longrightarrow> b \<le> 143)
                then ((a - 240) * 262144 + (b - 128) * 4096 + (c - 128) * 64 + (d - 128), 4)
                else (65533, 1)
            | _ \<Rightarrow> (65533, 1))
      else (65533, 1))"

lemma decode_rune_width: "0 < snd (decode_rune bs)"
  by (cases bs) (auto split: list.splits)

function to_runes :: "nat list \<Rightarrow> nat list" where
  "to_runes bs =
     (if bs = [] then []
      else case decode_rune bs of (r, n) \<Rightarrow> r # to_runes (drop n bs))"
  by pat_completeness auto
termination
proof (relation "measure length")
  fix bs r n
  assume "bs \<noteq> []" "(r, n) = decode_rune bs"
  moreover from this have "0 < n" using decode_rune_width [of bs] by (metis snd_conv)
  ultimately show "(drop n bs, bs) \<in> measure length" by simp
qed simp

declare to_runes.simps [simp del]

definition encode_rune :: "nat \<Rightarrow> nat list" where
  "encode_rune r =
     (if r < 128 then [r]
      else if r < 2048 then [192 + r div 64, 128 + r mod 64]
      else if r < 65536 then [224 + r div 4096, 128 + r div 64 mod 64, 128 + r mod 64]
      else [240 + r div 262144, 128 + r div 4096 mod 64, 128 + r div 64 mod 64, 128 + r mod 64])"

definition runes_of :: "string \<Rightarrow> nat list" where
  "runes_of s = to_runes (map of_char s)"

definition string_of :: "nat list \<Rightarrow> string" where
  "string_of rs = map char_of (concat (map encode_rune rs))"

text \<open>\<open>reverseZone\<close>: the loop that swaps the two ends inwards reverses the slice.\<close>

definition reverseZone :: "string \<Rightarrow> string" where
  "reverseZone zone = string_of (rev (runes_of (''.'' @ zone)))"

section \<open>Names in ASCII\<close>

definition ascii :: "string \<Rightarrow> bool" where
  "ascii s \<longleftrightarrow> (\<forall>c \<in> set s. (of_char c :: nat) < 128)"

lemma to_runes_ascii: "\<forall>b \<in> set bs. b < 128 \<Longrightarrow> to_runes bs = bs"
proof (induction bs)
  case Nil
  show ?case by (simp add: to_runes.simps)
next
  case (Cons b bs)
  then show ?case by (subst to_runes.simps) simp
qed

lemma encode_rune_ascii: "\<forall>b \<in> set bs. b < 128 \<Longrightarrow> concat (map encode_rune bs) = bs"
  by (induction bs) (auto simp: encode_rune_def)

lemma reverseZone_ascii:
  assumes "ascii zone"
  shows "reverseZone zone = rev (''.'' @ zone)"
proof -
  let ?bs = "map of_char (''.'' @ zone) :: nat list"
  have bs: "\<forall>b \<in> set ?bs. b < 128" using assms by (auto simp: ascii_def)
  then have "reverseZone zone = map char_of (rev ?bs)"
    by (simp add: reverseZone_def runes_of_def string_of_def to_runes_ascii encode_rune_ascii
        del: map_append)
  also have "\<dots> = rev (map (\<lambda>c. char_of (of_char c :: nat)) (''.'' @ zone))"
    by (simp only: rev_map map_map comp_def)
  also have "\<dots> = rev (''.'' @ zone)" by (simp only: char_of_char list.map_ident)
  finally show ?thesis .
qed

lemma ascii_append [simp]: "ascii (s @ t) \<longleftrightarrow> ascii s \<and> ascii t"
  by (auto simp: ascii_def)

end
