(* ===== verification/Ordering.thy ===== *)
theory Ordering
  imports Dns_Types
begin

text \<open>
  \<open>OrderIps\<close> of \<open>handler/handler.go\<close>: the addresses a mask leaves white, in the order the record
  set asks for. The clock's nanoseconds, the source of randomness, are a parameter.
\<close>

section \<open>Definitions\<close>

datatype ip_mask = IpMaskWhite | IpMaskGrey | IpMaskBlack

definition whites :: "ip_mask list \<Rightarrow> nat list" where
  "whites marks = [i \<leftarrow> [0..<length marks]. marks ! i = IpMaskWhite]"

text \<open>The loop of the weighted order over the white positions: the first where the sum runs out.\<close>

fun pick_weighted :: "(nat \<Rightarrow> int) \<Rightarrow> int \<Rightarrow> nat list \<Rightarrow> nat option" where
  "pick_weighted weight s [] = None"
| "pick_weighted weight s (i # is) =
     (let s = s - weight i in if s < 0 then Some i else pick_weighted weight s is)"

text \<open>The loop of the round-robin order.\<close>

fun pick_rr :: "int \<Rightarrow> nat list \<Rightarrow> nat option" where
  "pick_rr r [] = None"
| "pick_rr r (i # is) = (if r = 0 then Some i else pick_rr (r - 1) is)"

definition pick_first :: "nat list \<Rightarrow> nat option" where
  "pick_first is = (case is of [] \<Rightarrow> None | i # _ \<Rightarrow> Some i)"

definition weight_at :: "IP_RRSet \<Rightarrow> nat \<Rightarrow> int" where
  "weight_at rrset i = ip_Weight (ips_Data rrset ! i)"

definition ip_at :: "IP_RRSet \<Rightarrow> nat \<Rightarrow> net_IP" where
  "ip_at rrset i = ip_Ip (ips_Data rrset ! i)"

definition start_index :: "int \<Rightarrow> IP_RRSet \<Rightarrow> ip_mask list \<Rightarrow> nat option" where
  "start_index ns rrset marks =
     (let sum = sum_list (map (weight_at rrset) (whites marks));
          count = int (length (whites marks));
          order = fc_Order (ips_FilterConfig rrset)
      in if order = ''weighted'' \<and> sum > 0
         then pick_weighted (weight_at rrset) (ns mod sum) (whites marks)
         else if order = ''rr'' \<or> (order = ''weighted'' \<and> sum = 0)
         then pick_rr (ns mod count) (whites marks)
         else pick_first (whites marks))"

text \<open>
  \<open>OrderIps\<close>. The first loop reads the weight of every white position, so a mask that is white
  beyond the data panics before anything else happens.
\<close>

definition OrderIps :: "int \<Rightarrow> IP_RRSet \<Rightarrow> ip_mask list \<Rightarrow> go_panic + net_IP list" where
  "OrderIps ns rrset marks =
     (if \<exists>i \<in> set (whites marks). length (ips_Data rrset) \<le> i then Inl IndexOutOfRange
      else if whites marks = [] then Inr []
      else case start_index ns rrset marks of
             None \<Rightarrow> Inr []
           | Some index \<Rightarrow>
               if fc_Count (ips_FilterConfig rrset) = ''single'' then Inr [ip_at rrset index]
               else Inr (map (ip_at rrset) [i \<leftarrow> whites marks. index \<le> i]
                       @ map (ip_at rrset) [i \<leftarrow> whites marks. i < index]))"

section \<open>Lemmas\<close>

lemma set_whites: "set (whites marks) = {i. i < length marks \<and> marks ! i = IpMaskWhite}"
  by (auto simp: whites_def)

lemma sorted_whites: "sorted (whites marks)"
  by (simp add: whites_def sorted_wrt_filter)

lemma distinct_whites: "distinct (whites marks)"
  by (simp add: whites_def)

lemma pick_weighted_total:
  "0 \<le> s \<Longrightarrow> s < sum_list (map w is) \<Longrightarrow> \<exists>i. pick_weighted w s is = Some i \<and> i \<in> set is"
proof (induction w s "is" rule: pick_weighted.induct)
  case (2 w s i "is")
  show ?case
  proof (cases "s - w i < 0")
    case True
    then show ?thesis by simp
  next
    case False
    with 2 show ?thesis by (auto simp: Let_def)
  qed
qed simp

lemma pick_rr_nth:
  "0 \<le> r \<Longrightarrow> r < int (length is) \<Longrightarrow> pick_rr r is = Some (is ! nat r)"
proof (induction r "is" rule: pick_rr.induct)
  case (2 r i "is")
  show ?case
  proof (cases "r = 0")
    case True
    then show ?thesis by simp
  next
    case False
    with 2 have "pick_rr (r - 1) is = Some (is ! nat (r - 1))" by simp
    moreover have "nat r = Suc (nat (r - 1))" using False 2(2) by simp
    ultimately show ?thesis using False by simp
  qed
qed simp

lemma start_index_total:
  assumes "whites marks \<noteq> []"
  shows "\<exists>i. start_index ns rrset marks = Some i \<and> i \<in> set (whites marks)"
proof -
  let ?sum = "sum_list (map (weight_at rrset) (whites marks))"
  let ?count = "int (length (whites marks))"
  have "?count > 0" using assms by simp
  then have "pick_rr (ns mod ?count) (whites marks) = Some (whites marks ! nat (ns mod ?count))"
    and "nat (ns mod ?count) < length (whites marks)"
    by (auto simp: pick_rr_nth nat_less_iff)
  then have rr: "\<exists>i. pick_rr (ns mod ?count) (whites marks) = Some i \<and> i \<in> set (whites marks)"
    by simp
  have weighted: "?sum > 0 \<Longrightarrow>
      \<exists>i. pick_weighted (weight_at rrset) (ns mod ?sum) (whites marks) = Some i
        \<and> i \<in> set (whites marks)"
    by (rule pick_weighted_total) simp_all
  have first: "\<exists>i. pick_first (whites marks) = Some i \<and> i \<in> set (whites marks)"
    using assms by (cases "whites marks") (auto simp: pick_first_def)
  show ?thesis using rr weighted first by (simp add: start_index_def Let_def)
qed

text \<open>The order of a full answer is the list of white addresses, rotated to the chosen start.\<close>

lemma rotation_of_filter:
  assumes "sorted is" "distinct is" "i \<in> set is"
  shows "\<exists>k < length is. is ! k = i \<and>
           [j \<leftarrow> is. i \<le> j] @ [j \<leftarrow> is. j < i] = rotate k (is :: nat list)"
proof -
  from assms(3) obtain xs ys where eq: "is = xs @ i # ys"
    by (meson split_list)
  have "sorted_wrt (<) is" using assms(1,2) by (simp add: strict_sorted_iff)
  then have "\<forall>j \<in> set xs. j < i" "\<forall>j \<in> set ys. i < j"
    by (auto simp: eq sorted_wrt_append)
  then have "[j \<leftarrow> is. i \<le> j] = i # ys" "[j \<leftarrow> is. j < i] = xs"
    by (auto simp: eq filter_empty_conv filter_id_conv not_le not_less order_less_imp_le)
  moreover have "rotate (length xs) is = (i # ys) @ xs"
    unfolding eq by (rule rotate_append)
  ultimately show ?thesis by (intro exI [of _ "length xs"]) (simp add: eq)
qed

text \<open>The residues that start the weighted order at a given position: as many as its weight.\<close>

lemma pick_weighted_shift:
  "pick_weighted w s (i # is) = (if s < w i then Some i else pick_weighted w (s - w i) is)"
  by (simp add: Let_def)

lemma pick_weighted_share:
  assumes "distinct is" "\<forall>i \<in> set is. 0 \<le> w i" "j \<in> set is"
  shows "card {s. 0 \<le> s \<and> s < sum_list (map w is) \<and> pick_weighted w s is = Some j} = nat (w j)"
  using assms
proof (induction "is")
  case (Cons i "is")
  let ?S = "sum_list (map w is)"
  have nonneg: "0 \<le> ?S" "0 \<le> w i"
    using Cons.prems(2) by (auto intro!: sum_list_nonneg)
  have in_set: "pick_weighted w s xs = Some k \<Longrightarrow> k \<in> set xs" for s xs k
    by (induction w s xs rule: pick_weighted.induct) (auto simp: Let_def split: if_splits)
  show ?case
  proof (cases "j = i")
    case True
    with Cons.prems(1) in_set
    have "{s. 0 \<le> s \<and> s < sum_list (map w (i # is)) \<and> pick_weighted w s (i # is) = Some j}
        = {0..<w i}"
      using nonneg by (auto simp: Let_def split: if_splits)
    with True show ?thesis by simp
  next
    case False
    with Cons.prems have j: "j \<in> set is" by simp
    let ?B = "{s. 0 \<le> s \<and> s < ?S \<and> pick_weighted w s is = Some j}"
    have "{s. 0 \<le> s \<and> s < sum_list (map w (i # is)) \<and> pick_weighted w s (i # is) = Some j}
        = (\<lambda>s. s + w i) ` ?B"
    proof (rule set_eqI)
      fix s
      show "s \<in> {s. 0 \<le> s \<and> s < sum_list (map w (i # is)) \<and>
                 pick_weighted w s (i # is) = Some j} \<longleftrightarrow> s \<in> (\<lambda>s. s + w i) ` ?B"
        using False nonneg
        by (auto simp: Let_def split: if_splits intro!: image_eqI [where x = "s - w i"])
    qed
    moreover have "card ((\<lambda>s. s + w i) ` ?B) = card ?B"
      by (intro card_image) (simp add: inj_on_def)
    ultimately show ?thesis using Cons.IH Cons.prems j by simp
  qed
qed simp

section \<open>Properties\<close>


text \<open>A record set for examples: two weighted addresses and one without weight.\<close>

definition example_rrset :: "string \<Rightarrow> IP_RRSet" where
  "example_rrset order = zero_IP_RRSet\<lparr>
     ips_FilterConfig := \<lparr>fc_Count = ''multi'', fc_Order = order, fc_GeoFilter = ''none''\<rparr>,
     ips_Data := [zero_IP_RR\<lparr>ip_Weight := 4, ip_Ip := Some [1, 1, 1, 1]\<rparr>,
                  zero_IP_RR\<lparr>ip_Weight := 1, ip_Ip := Some [2, 2, 2, 2]\<rparr>,
                  zero_IP_RR\<lparr>ip_Ip := Some [3, 3, 3, 3]\<rparr>]\<rparr>"


text \<open>
  C16. The weighted order is fair: of the residues of the clock modulo the sum of the weights, exactly as
  many start the answer at an address as its weight says; an address of weight zero is never first.
\<close>

theorem weighted_share:
  assumes "fc_Order (ips_FilterConfig rrset) = ''weighted''"
    and "\<forall>i \<in> set (whites marks). 0 \<le> weight_at rrset i"
    and "weight_sum = sum_list (map (weight_at rrset) (whites marks))" "0 < weight_sum"
    and "j \<in> set (whites marks)"
  shows "card {ns. 0 \<le> ns \<and> ns < weight_sum \<and> start_index ns rrset marks = Some j}
           = nat (weight_at rrset j)"
proof -
  have "start_index ns rrset marks = pick_weighted (weight_at rrset) ns (whites marks)"
    if "0 \<le> ns" "ns < weight_sum" for ns
    using assms(1,3,4) that by (simp add: start_index_def)
  then have "{ns. 0 \<le> ns \<and> ns < weight_sum \<and> start_index ns rrset marks = Some j} =
      {s. 0 \<le> s \<and> s < sum_list (map (weight_at rrset) (whites marks)) \<and>
          pick_weighted (weight_at rrset) s (whites marks) = Some j}"
    using assms(3) by auto
  with pick_weighted_share [OF distinct_whites assms(2,5)] show ?thesis by simp
qed

theorem weighted_share_witness:
  "card {ns. 0 \<le> ns \<and> ns < 5 \<and>
     start_index ns (example_rrset ''weighted'') [IpMaskWhite, IpMaskWhite, IpMaskWhite] = Some 0} = 4"
  using weighted_share [of "example_rrset ''weighted''" "[IpMaskWhite, IpMaskWhite, IpMaskWhite]" 5 0]
  by (simp add: example_rrset_def whites_def weight_at_def zero_IP_RR_def upt_rec)

text \<open>
  Round robin starts the answer at the white address whose number is the clock modulo their
  count, so every white address is reached.
\<close>

theorem rr_start:
  assumes "whites marks \<noteq> []" "fc_Order (ips_FilterConfig rrset) = ''rr''"
  shows "start_index ns rrset marks =
           Some (whites marks ! nat (ns mod int (length (whites marks))))"
  using assms by (simp add: start_index_def pick_rr_nth)

theorem rr_start_witness:
  "start_index 7 (example_rrset ''rr'') [IpMaskWhite, IpMaskBlack, IpMaskWhite] = Some 2"
  using rr_start [of "[IpMaskWhite, IpMaskBlack, IpMaskWhite]" "example_rrset ''rr''" 7]
  by (simp add: example_rrset_def whites_def upt_rec)

end
