(* ===== verification/Mask_Stage.thy ===== *)
theory Mask_Stage
  imports Ordering
begin

text \<open>
  The contract between \<open>DnsRequestHandler.Filter\<close> and the stages it runs on the mask of a record
  set (the health check and the geographic filters): a stage keeps the length of the mask and never
  gives a blacked-out address back. Stages compose.
\<close>

definition stage_ok :: "ip_mask list \<Rightarrow> ip_mask list \<Rightarrow> bool" where
  "stage_ok m m' \<longleftrightarrow>
     length m' = length m \<and> (\<forall>i < length m. m ! i = IpMaskBlack \<longrightarrow> m' ! i = IpMaskBlack)"

lemma stage_ok_refl [simp]: "stage_ok m m"
  by (simp add: stage_ok_def)

lemma stage_ok_trans: "stage_ok a b \<Longrightarrow> stage_ok b c \<Longrightarrow> stage_ok a c"
  by (simp add: stage_ok_def)

lemma stage_ok_update:
  "stage_ok m m' \<Longrightarrow> m ! i \<noteq> IpMaskBlack \<or> v = IpMaskBlack \<Longrightarrow> stage_ok m (m'[i := v])"
  by (cases "i < length m'") (auto simp: stage_ok_def nth_list_update)

lemma stage_ok_whites: "stage_ok m m' \<Longrightarrow> i \<in> set (whites m') \<Longrightarrow> m ! i \<noteq> IpMaskBlack"
  by (auto simp: stage_ok_def set_whites)

lemma stage_ok_map:
  "(\<And>i. i < length m \<Longrightarrow> m ! i = IpMaskBlack \<Longrightarrow> f i = IpMaskBlack) \<Longrightarrow>
     stage_ok m (map f [0..<length m])"
  by (simp add: stage_ok_def)

locale mask_stage =
  fixes stage :: "ip_mask list \<Rightarrow> ('w, ip_mask list) go"
  assumes stage_keeps: "wp AnyPanic (stage m) (\<lambda>m' _. stage_ok m m') w"
begin

lemma stage_length: "stage m w = Inr (m', w') \<Longrightarrow> length m' = length m"
  using wpD [OF stage_keeps] by (auto simp: stage_ok_def)

lemma stage_white_was_live:
  assumes "stage m w = Inr (m', w')" "i \<in> set (whites m')"
  shows "i < length m \<and> m ! i \<noteq> IpMaskBlack"
proof -
  have ok: "stage_ok m m'" using wpD [OF stage_keeps assms(1)] .
  then have "i < length m" using assms(2) by (simp add: stage_ok_def set_whites)
  with stage_ok_whites [OF ok assms(2)] show ?thesis by blast
qed

end

text \<open>Two stages in sequence are a stage.\<close>

locale two_stages = first: mask_stage first + second: mask_stage second
  for first second :: "ip_mask list \<Rightarrow> ('w, ip_mask list) go"
begin

sublocale both: mask_stage "\<lambda>m. Bind (first m) second"
proof
  fix m :: "ip_mask list" and w :: 'w
  have "wp AnyPanic (first m) (\<lambda>m'. wp AnyPanic (second m') (\<lambda>m'' _. stage_ok m m'')) w"
    by (rule wp_strengthen [OF first.stage_keeps])
      (auto intro: wp_strengthen [OF second.stage_keeps] stage_ok_trans)
  then show "wp AnyPanic (Bind (first m) second) (\<lambda>m' _. stage_ok m m') w"
    by (simp add: wp_rules)
qed

end

text \<open>A stage that only reads databases: no state, but it may panic.\<close>

locale pure_stage =
  fixes pstage :: "ip_mask list \<Rightarrow> go_panic + ip_mask list"
  assumes pstage_keeps: "pstage m = Inr m' \<Longrightarrow> stage_ok m m'"
begin

sublocale lifted: mask_stage "\<lambda>m. Lift (pstage m)"
  by unfold_locales (auto simp: wp_rules split: sum.splits dest: pstage_keeps)

end

end
