(* ===== verification/Net_Text.thy ===== *)
theory Net_Text
  imports Dns_Types
begin

text \<open>
  Textual forms of the Go standard library the sources put into keys and addresses:
  \<open>strconv.Itoa\<close> and \<open>net.IP.String\<close>.
\<close>

definition digit_char :: "nat \<Rightarrow> char" where
  "digit_char d = (if d < 16 then ''0123456789abcdef'' ! d else CHR ''?'')"

function nat_text :: "nat \<Rightarrow> nat \<Rightarrow> string" where
  "nat_text base n =
     (if n < base \<or> base < 2 then [digit_char n]
      else nat_text base (n div base) @ [digit_char (n mod base)])"
  by pat_completeness auto
termination
  by (relation "measure snd") auto

declare nat_text.simps [simp del]
lemmas nat_text_code [code] = nat_text.simps

definition Itoa :: "int \<Rightarrow> string" where
  "Itoa n = (if n < 0 then CHR ''-'' # nat_text 10 (nat (- n)) else nat_text 10 (nat n))"

fun join_with :: "string \<Rightarrow> string list \<Rightarrow> string" where
  "join_with sep [] = []"
| "join_with sep [x] = x"
| "join_with sep (x # y # ys) = x @ sep @ join_with sep (y # ys)"

definition ipv4_text :: "uint8 list \<Rightarrow> string" where
  "ipv4_text bs = join_with ''.'' (map (\<lambda>b. nat_text 10 (unat b)) bs)"

fun groups16 :: "uint8 list \<Rightarrow> nat list" where
  "groups16 (a # b # bs) = (256 * unat a + unat b) # groups16 bs"
| "groups16 _ = []"

text \<open>The leftmost of the longest runs of zero groups: its start and its length.\<close>

definition zero_run :: "nat list \<Rightarrow> nat \<times> nat" where
  "zero_run gs =
     foldl (\<lambda>(s, n) i. let k = length (takeWhile (\<lambda>g. g = 0) (drop i gs))
                        in if k > n then (i, k) else (s, n)) (0, 0) [0..<length gs]"

definition ipv6_text :: "uint8 list \<Rightarrow> string" where
  "ipv6_text bs =
     (let gs = groups16 bs; hs = map (nat_text 16) gs; (s, n) = zero_run gs
      in if n < 2 then join_with '':'' hs
         else join_with '':'' (take s hs) @ ''::'' @ join_with '':'' (drop (s + n) hs))"

definition v4_in_v6 :: "uint8 list \<Rightarrow> bool" where
  "v4_in_v6 bs \<longleftrightarrow> length bs = 16 \<and> take 12 bs = replicate 10 0 @ [255, 255]"

definition IP_String :: "net_IP \<Rightarrow> string" where
  "IP_String ip =
     (case ip of
        None \<Rightarrow> ''<nil>''
      | Some bs \<Rightarrow>
          if bs = [] then ''<nil>''
          else if length bs = 4 then ipv4_text bs
          else if v4_in_v6 bs then ipv4_text (drop 12 bs)
          else if length bs = 16 then ipv6_text bs
          else CHR ''?'' # concat (map (\<lambda>b.
                 [digit_char (unat b div 16), digit_char (unat b mod 16)]) bs))"

lemma IP_String_nil [simp]: "IP_String None = ''<nil>''"
  by (simp add: IP_String_def)

lemma IP_String_v4: "IP_String (Some [10, 0, 255, 7]) = ''10.0.255.7''"
  by (simp add: IP_String_def ipv4_text_def nat_text.simps digit_char_def)

lemma zero_run_example: "zero_run [8193, 3512, 0, 0, 0, 0, 0, 1] = (2, 5)"
  by (simp add: zero_run_def upt_rec)

lemma IP_String_v6:
  "IP_String (Some [32, 1, 13, 184, 0, 0, 0, 0, 0, 0, 0, 0, 0, 0, 0, 1]) = ''2001:db8::1''"
  by (simp add: IP_String_def v4_in_v6_def ipv6_text_def zero_run_example [simplified] nat_text.simps
      digit_char_def)

end
