(* ===== verification/Config_Types.thy ===== *)
theory Config_Types
  imports Redins_Prelude
begin

text \<open>
  The configuration structures of the redis client and of the logger that the configuration of the
  server embeds: \<open>redins.go\<close> fills them in field by field and \<open>Verify\<close> reads them.
\<close>

record RedisConnectionConfig =
  rcc_MaxIdleConnections :: int
  rcc_MaxActiveConnections :: int
  rcc_ConnectTimeout :: int
  rcc_ReadTimeout :: int
  rcc_IdleKeepAlive :: int
  rcc_MaxKeepAlive :: int
  rcc_WaitForConnection :: bool

record RedisConfig =
  rdc_Address :: string
  rdc_Net :: string
  rdc_DB :: int
  rdc_Password :: string
  rdc_Prefix :: string
  rdc_Suffix :: string
  rdc_Connection :: RedisConnectionConfig

record SentryConfig =
  sentry_Enable :: bool
  sentry_DSN :: string

record SyslogConfig =
  syslog_Enable :: bool
  syslog_Protocol :: string
  syslog_Address :: string

record KafkaConfig =
  kafka_Enable :: bool
  kafka_Topic :: string
  kafka_Brokers :: "string list"
  kafka_Format :: string
  kafka_Compression :: string
  kafka_Timeout :: int
  kafka_BufferSize :: int

record LogConfig =
  log_Enable :: bool
  log_Target :: string
  log_Level :: string
  log_Path :: string
  log_Format :: string
  log_TimeFormat :: string
  log_Sentry :: SentryConfig
  log_Syslog :: SyslogConfig
  log_Kafka :: KafkaConfig

end
