(* ===== verification/Healthcheck.thy ===== *)
theory Healthcheck
  imports Mask_Stage Net_Text Config_Types
begin

text \<open>
  \<open>handler/healthcheck.go\<close>: the status of every checked address, its storage in redis, the worker
  that checks one address, the two background loops (\<open>Start\<close>, which queues due checks, and
  \<open>Transfer\<close>, which copies the health-check configuration of the zones into the status database)
  and \<open>FilterHealthcheck\<close>, which masks the addresses that are down. Redis, the in-memory cache, JSON,
  HTTP, ICMP, the clock and the logger are the fields of \<open>hc_lib\<close>, over an arbitrary world.
\<close>

section \<open>State and library\<close>

record HealthCheckItem =
  hi_Protocol :: string
  hi_Uri :: string
  hi_Port :: int
  hi_Status :: int
  hi_LastCheck :: int
  hi_Timeout :: int
  hi_UpCount :: int
  hi_DownCount :: int
  hi_Enable :: bool
  hi_DomainId :: string
  hi_Host :: string
  hi_Ip :: string
  hi_Error :: "go_error option"

definition zero_HealthCheckItem :: HealthCheckItem where
  "zero_HealthCheckItem = \<lparr>hi_Protocol = [], hi_Uri = [], hi_Port = 0, hi_Status = 0,
     hi_LastCheck = 0, hi_Timeout = 0, hi_UpCount = 0, hi_DownCount = 0, hi_Enable = False,
     hi_DomainId = [], hi_Host = [], hi_Ip = [], hi_Error = None\<rparr>"

text \<open>Durations are in nanoseconds.\<close>

record HealthcheckConfig =
  hconf_Enable :: bool
  hconf_MaxRequests :: int
  hconf_MaxPendingRequests :: int
  hconf_UpdateInterval :: int
  hconf_CheckInterval :: int
  hconf_RedisStatusServer :: RedisConfig
  hconf_Log :: LogConfig

record Healthcheck =
  hc_Enable :: bool
  hc_maxRequests :: int
  hc_maxPendingRequests :: int
  hc_updateInterval :: int
  hc_checkInterval :: int

text \<open>The dynamic types of the values that are logged.\<close>

datatype log_value = LStr string | LInt int | LInt64 int | LIp net_IP | LUint uint

type_synonym log_data = "(string \<times> log_value) list"

text \<open>The kinds of message \<open>icmp.ParseMessage\<close> tells apart for \<open>pingCheck\<close>.\<close>

datatype icmp_type = EchoReply | OtherIcmp

record 'w hc_lib =
  hl_Now :: "'w \<Rightarrow> int \<times> 'w"
  hl_cache_Get :: "string \<Rightarrow> 'w \<Rightarrow> HealthCheckItem option \<times> 'w"
  hl_cache_Set :: "string \<Rightarrow> HealthCheckItem \<Rightarrow> int \<Rightarrow> 'w \<Rightarrow> 'w"
  hl_status_Get :: "string \<Rightarrow> 'w \<Rightarrow> (go_error + string) \<times> 'w"
  hl_status_Set :: "string \<Rightarrow> string \<Rightarrow> 'w \<Rightarrow> 'w"
  hl_status_Expire :: "string \<Rightarrow> int \<Rightarrow> 'w \<Rightarrow> 'w"
  hl_status_GetKeys :: "string \<Rightarrow> 'w \<Rightarrow> (string list \<times> go_error option) \<times> 'w"
  hl_config_Get :: "string \<Rightarrow> 'w \<Rightarrow> (string \<times> go_error option) \<times> 'w"
  hl_config_SMembers :: "string \<Rightarrow> 'w \<Rightarrow> (string list \<times> go_error option) \<times> 'w"
  hl_config_GetHKeys :: "string \<Rightarrow> 'w \<Rightarrow> (string list \<times> go_error option) \<times> 'w"
  hl_config_HGet :: "string \<Rightarrow> string \<Rightarrow> 'w \<Rightarrow> (string \<times> go_error option) \<times> 'w"
  hl_decode_item :: "string \<Rightarrow> HealthCheckItem \<Rightarrow> HealthCheckItem"
  hl_encode_item :: "HealthCheckItem \<Rightarrow> go_error + string"
  hl_decode_record :: "string \<Rightarrow> Record \<Rightarrow> Record \<times> go_error option"
  hl_decode_config :: "string \<Rightarrow> ZoneConfig \<Rightarrow> ZoneConfig \<times> go_error option"
  hl_NewRequest :: "string \<Rightarrow> go_error option"
  hl_http_Do :: "string \<Rightarrow> string \<Rightarrow> string \<Rightarrow> int \<Rightarrow> 'w \<Rightarrow> (go_error + int) \<times> 'w"
  hl_icmp_Listen :: "'w \<Rightarrow> go_error option \<times> 'w"
  hl_ParseIP :: "string \<Rightarrow> net_IP"
  hl_icmp_Marshal :: "uint32 \<Rightarrow> go_error + string"
  hl_icmp_WriteTo :: "string \<Rightarrow> net_IP \<Rightarrow> int \<Rightarrow> 'w \<Rightarrow> go_error option \<times> 'w"
  hl_icmp_ReadFrom :: "'w \<Rightarrow> (go_error + string) \<times> 'w"
  hl_icmp_Parse :: "string \<Rightarrow> go_error + icmp_type"
  hl_Log :: "log_data \<Rightarrow> 'w \<Rightarrow> 'w"
  hl_Queue :: "HealthCheckItem \<Rightarrow> 'w \<Rightarrow> 'w"
  hl_quit :: "'w \<Rightarrow> bool \<times> 'w"
  hl_close_quit :: "'w \<Rightarrow> 'w"
  hl_Run :: "'w \<Rightarrow> 'w"
  hl_Stop :: "'w \<Rightarrow> 'w"

abbreviation Effect :: "('w \<Rightarrow> 'w) \<Rightarrow> ('w, unit) go" where
  "Effect \<equiv> Modify"

definition NewHealthcheck :: "HealthcheckConfig \<Rightarrow> Healthcheck" where
  "NewHealthcheck config = \<lparr>
     hc_Enable = hconf_Enable config,
     hc_maxRequests = hconf_MaxRequests config,
     hc_maxPendingRequests = hconf_MaxPendingRequests config,
     hc_updateInterval = hconf_UpdateInterval config * second,
     hc_checkInterval = hconf_CheckInterval config * second\<rparr>"

section \<open>The status of an address\<close>

definition statusDown :: "HealthCheckItem \<Rightarrow> HealthCheckItem" where
  "statusDown item =
     (if hi_Status item \<le> 0
      then (let s = hi_Status item - 1
            in item\<lparr>hi_Status := (if s < hi_DownCount item then hi_DownCount item else s)\<rparr>)
      else item\<lparr>hi_Status := -1\<rparr>)"

definition statusUp :: "HealthCheckItem \<Rightarrow> HealthCheckItem" where
  "statusUp item =
     (if hi_Status item \<ge> 0
      then (let s = hi_Status item + 1
            in item\<lparr>hi_Status := (if s > hi_UpCount item then hi_UpCount item else s)\<rparr>)
      else item\<lparr>hi_Status := 1\<rparr>)"

section \<open>Loading and storing\<close>

definition loadItem :: "'w hc_lib \<Rightarrow> string \<Rightarrow> ('w, HealthCheckItem option) go" where
  "loadItem lib key =
     (case SplitAfter2 (CHR '':'') key of
        [host, ip] \<Rightarrow>
          (let item = zero_HealthCheckItem\<lparr>hi_Host := TrimSuffix host '':'', hi_Ip := ip\<rparr>
           in Bind (Extern (hl_status_Get lib (''redins:healthcheck:'' @ key))) (\<lambda>r.
              case r of
                Inl err \<Rightarrow> Return None
              | Inr itemStr \<Rightarrow>
                  (let item = hl_decode_item lib itemStr item
                   in Return (Some (if hi_DownCount item > 0
                                    then item\<lparr>hi_DownCount := - hi_DownCount item\<rparr>
                                    else item)))))
      | _ \<Rightarrow> Return None)"

definition storeItem :: "'w hc_lib \<Rightarrow> HealthCheckItem \<Rightarrow> ('w, unit) go" where
  "storeItem lib item =
     (let key = hi_Host item @ '':'' @ hi_Ip item
      in case hl_encode_item lib item of
           Inl err \<Rightarrow> Return ()
         | Inr itemStr \<Rightarrow>
             Effect (hl_status_Set lib (''redins:healthcheck:'' @ key) itemStr))"

definition getStatus ::
  "'w hc_lib \<Rightarrow> Healthcheck \<Rightarrow> string \<Rightarrow> net_IP \<Rightarrow> ('w, int) go" where
  "getStatus lib h host ip =
     (if \<not> hc_Enable h then Return 0
      else let key = host @ '':'' @ IP_String ip
           in Bind (Extern (hl_cache_Get lib key)) (\<lambda>val.
              case val of
                Some item \<Rightarrow> Return (hi_Status item)
              | None \<Rightarrow>
                  Bind (loadItem lib key) (\<lambda>loaded.
                  let item = (case loaded of None \<Rightarrow> zero_HealthCheckItem | Some i \<Rightarrow> i)
                  in Seq (Effect (hl_cache_Set lib key item (hc_updateInterval h)))
                         (Return (hi_Status item)))))"

section \<open>Filtering a mask\<close>

definition data_at :: "IP_RRSet \<Rightarrow> nat \<Rightarrow> go_panic + IP_RR" where
  "data_at rrset i =
     (if i < length (ips_Data rrset) then Inr (ips_Data rrset ! i) else Inl IndexOutOfRange)"

definition status_at ::
  "'w hc_lib \<Rightarrow> Healthcheck \<Rightarrow> string \<Rightarrow> IP_RRSet \<Rightarrow> nat \<Rightarrow> ('w, int) go" where
  "status_at lib h qname rrset i =
     Bind (Lift (data_at rrset i)) (\<lambda>d. getStatus lib h qname (ip_Ip d))"

definition hc_limit :: "IP_RRSet \<Rightarrow> int \<Rightarrow> int" where
  "hc_limit rrset m =
     (if m < hcc_UpCount (ips_HealthCheckConfig rrset) - 1 \<and>
         m > hcc_DownCount (ips_HealthCheckConfig rrset)
      then hcc_DownCount (ips_HealthCheckConfig rrset) + 1 else m)"

definition hc_best ::
  "'w hc_lib \<Rightarrow> Healthcheck \<Rightarrow> string \<Rightarrow> IP_RRSet \<Rightarrow> ip_mask list \<Rightarrow> ('w, int) go" where
  "hc_best lib h qname rrset marks =
     ForEach [0..<length marks] (\<lambda>i m.
       if marks ! i = IpMaskWhite
       then Bind (status_at lib h qname rrset i) (\<lambda>status.
            Return (if status > m then status else m))
       else Return m) (hcc_DownCount (ips_HealthCheckConfig rrset))"

definition hc_mark ::
  "'w hc_lib \<Rightarrow> Healthcheck \<Rightarrow> string \<Rightarrow> IP_RRSet \<Rightarrow> int \<Rightarrow> ip_mask list \<Rightarrow>
     ('w, ip_mask list) go" where
  "hc_mark lib h qname rrset limit marks =
     ForEach [0..<length marks] (\<lambda>i m.
       if marks ! i = IpMaskWhite
       then Bind (status_at lib h qname rrset i) (\<lambda>status.
            Return (if status < limit then m[i := IpMaskBlack] else m))
       else Return (m[i := IpMaskBlack])) marks"

definition FilterHealthcheck ::
  "'w hc_lib \<Rightarrow> Healthcheck \<Rightarrow> string \<Rightarrow> IP_RRSet \<Rightarrow> ip_mask list \<Rightarrow> ('w, ip_mask list) go" where
  "FilterHealthcheck lib h qname rrset marks =
     (if \<not> hc_Enable h then Return marks
      else Bind (hc_best lib h qname rrset marks) (\<lambda>m.
           hc_mark lib h qname rrset (hc_limit rrset m) marks))"

section \<open>Checking one address\<close>

definition httpCheck ::
  "'w hc_lib \<Rightarrow> string \<Rightarrow> string \<Rightarrow> int \<Rightarrow> ('w, go_error option) go" where
  "httpCheck lib url host timeout =
     (case hl_NewRequest lib url of
        Some err \<Rightarrow> Return (Some err)
      | None \<Rightarrow>
          Bind (Extern (hl_http_Do lib url
                  (rev (dropWhile (\<lambda>c. c = dot) (rev host))) host timeout)) (\<lambda>r.
          case r of
            Inl err \<Rightarrow> Return (Some err)
          | Inr statusCode \<Rightarrow>
              if statusCode = 200 \<or> statusCode = 302 \<or> statusCode = 301 then Return None
              else Return (Some ''invalid http status code'')))"

definition BigEndian_Uint32 :: "net_IP \<Rightarrow> go_panic + uint32" where
  "BigEndian_Uint32 ip =
     (case ip of
        Some (a # b # c # d # _) \<Rightarrow>
          Inr (word_of_nat (((unat a * 256 + unat b) * 256 + unat c) * 256 + unat d))
      | _ \<Rightarrow> Inl IndexOutOfRange)"

definition pingCheck :: "'w hc_lib \<Rightarrow> string \<Rightarrow> int \<Rightarrow> ('w, go_error option) go" where
  "pingCheck lib ip timeout =
     Bind (Extern (hl_icmp_Listen lib)) (\<lambda>err.
     case err of Some e \<Rightarrow> Return (Some e) | None \<Rightarrow>
     Bind (Lift (BigEndian_Uint32 (hl_ParseIP lib ip))) (\<lambda>id.
     case hl_icmp_Marshal lib id of Inl e \<Rightarrow> Return (Some e) | Inr wb \<Rightarrow>
     Bind (Extern (hl_icmp_WriteTo lib wb (hl_ParseIP lib ip) timeout)) (\<lambda>err.
     case err of Some e \<Rightarrow> Return (Some e) | None \<Rightarrow>
     Bind (Extern (hl_icmp_ReadFrom lib)) (\<lambda>r.
     case r of Inl e \<Rightarrow> Return (Some e) | Inr rb \<Rightarrow>
     (case hl_icmp_Parse lib rb of
        Inl e \<Rightarrow> Return (Some e)
      | Inr EchoReply \<Rightarrow> Return None
      | Inr OtherIcmp \<Rightarrow> Return (Some ''want echo reply''))))))"

definition logHealthcheck :: "'w hc_lib \<Rightarrow> HealthCheckItem \<Rightarrow> ('w, unit) go" where
  "logHealthcheck lib item =
     Effect (hl_Log lib
       [(''ip'', LStr (hi_Ip item)), (''port'', LInt (hi_Port item)),
        (''host'', LStr (hi_Host item)), (''domain_uuid'', LStr (hi_DomainId item)),
        (''uri'', LStr (hi_Uri item)), (''status'', LInt (hi_Status item)),
        (''log_type'', LStr ''healthcheck''),
        (''error'', LStr (case hi_Error item of None \<Rightarrow> [] | Some e \<Rightarrow> e))])"

text \<open>The job of a worker; the item is the one the job points to.\<close>

definition check_item :: "'w hc_lib \<Rightarrow> HealthCheckItem \<Rightarrow> ('w, go_error option) go" where
  "check_item lib item =
     (if hi_Protocol item = ''http'' \<or> hi_Protocol item = ''https''
      then httpCheck lib (hi_Protocol item @ ''://'' @ hi_Ip item @ hi_Uri item) (hi_Host item)
             (hi_Timeout item * millisecond)
      else if hi_Protocol item = ''ping'' \<or> hi_Protocol item = ''icmp''
      then pingCheck lib (hi_Ip item) (hi_Timeout item * millisecond)
      else Return (Some (''invalid protocol : '' @ hi_Protocol item @ '' used for ''
             @ hi_Ip item @ '':'' @ Itoa (hi_Port item))))"

definition HandleHealthCheck :: "'w hc_lib \<Rightarrow> HealthCheckItem \<Rightarrow> ('w, HealthCheckItem) go" where
  "HandleHealthCheck lib item =
     Bind (check_item lib item) (\<lambda>err.
     let item = item\<lparr>hi_Error := err\<rparr>;
         item = (if err = None then statusUp item else statusDown item)
     in Bind (Extern (hl_Now lib)) (\<lambda>now.
        let item = item\<lparr>hi_LastCheck := now\<rparr>
        in Seq (storeItem lib item) (Seq (logHealthcheck lib item) (Return item))))"

section \<open>The background loops\<close>

definition getDomainId :: "'w hc_lib \<Rightarrow> string \<Rightarrow> ('w, string) go" where
  "getDomainId lib zone =
     Bind (Extern (hl_config_Get lib (''redins:zones:'' @ zone @ '':config''))) (\<lambda>(val, err).
     let cfg = \<lparr>zc_DomainId = [], zc_SOA = None, zc_DnsSec = False, zc_CnameFlattening = False\<rparr>
     in Return (zc_DomainId (if length val > 0 then fst (hl_decode_config lib val cfg) else cfg)))"

text \<open>
  One round of \<open>Start\<close>: the keys are read, then either the quit channel or the ticker fires; the
  result says whether the loop ended.
\<close>

definition Start_round :: "'w hc_lib \<Rightarrow> Healthcheck \<Rightarrow> ('w, bool) go" where
  "Start_round lib h =
     Bind (Extern (hl_status_GetKeys lib ''redins:healthcheck:*'')) (\<lambda>(itemKeys, err).
     Bind (Extern (hl_quit lib)) (\<lambda>quit.
     if quit then Return True
     else Seq (ForEach itemKeys (\<lambda>k _.
            Bind (loadItem lib (TrimPrefix k ''redins:healthcheck:'')) (\<lambda>loaded.
            case loaded of
              None \<Rightarrow> Return ()
            | Some item \<Rightarrow>
                Bind (Extern (hl_Now lib)) (\<lambda>now.
                if now - hi_LastCheck item > hc_checkInterval h then Effect (hl_Queue lib item)
                else Return ()))) ())
          (Return False)))"

definition itemsEqual :: "HealthCheckItem option \<Rightarrow> HealthCheckItem option \<Rightarrow> bool" where
  "itemsEqual item1 item2 =
     (case (item1, item2) of
        (Some a, Some b) \<Rightarrow>
          \<not> (hi_Ip a \<noteq> hi_Ip b \<or> hi_Uri a \<noteq> hi_Uri b \<or> hi_Port a \<noteq> hi_Port b \<or>
             hi_Protocol a \<noteq> hi_Protocol b \<or> hi_Enable a \<noteq> hi_Enable b \<or>
             hi_UpCount a \<noteq> hi_UpCount b \<or> hi_DownCount a \<noteq> hi_DownCount b \<or>
             hi_Timeout a \<noteq> hi_Timeout b)
      | _ \<Rightarrow> False)"

definition transfer_default :: Record where
  "transfer_default =
     (let a = zero_IP_RRSet\<lparr>ips_HealthCheckConfig :=
            \<lparr>hcc_Protocol = ''http'', hcc_Uri = ''/'', hcc_Port = 80, hcc_Timeout = 1000,
             hcc_UpCount = 3, hcc_DownCount = -3, hcc_Enable = False\<rparr>\<rparr>
      in zero_Record\<lparr>rr_A := a, rr_AAAA := a\<rparr>)"

definition transfer_item ::
  "string \<Rightarrow> string \<Rightarrow> IpHealthCheckConfig \<Rightarrow> net_IP \<Rightarrow> HealthCheckItem" where
  "transfer_item domainId host hcc ip = zero_HealthCheckItem\<lparr>
     hi_Ip := IP_String ip, hi_Port := hcc_Port hcc, hi_Host := host,
     hi_Enable := hcc_Enable hcc, hi_DownCount := hcc_DownCount hcc,
     hi_UpCount := hcc_UpCount hcc, hi_Timeout := hcc_Timeout hcc, hi_Uri := hcc_Uri hcc,
     hi_Protocol := hcc_Protocol hcc, hi_DomainId := domainId\<rparr>"

definition transfer_rrset ::
  "'w hc_lib \<Rightarrow> Healthcheck \<Rightarrow> string \<Rightarrow> string \<Rightarrow> IP_RRSet \<Rightarrow> ('w, unit) go" where
  "transfer_rrset lib h domainId host rrset =
     (if \<not> hcc_Enable (ips_HealthCheckConfig rrset) then Return ()
      else ForEach (ips_Data rrset) (\<lambda>d _.
        let key = host @ '':'' @ IP_String (ip_Ip d);
            newItem = transfer_item domainId host (ips_HealthCheckConfig rrset) (ip_Ip d)
        in Bind (loadItem lib key) (\<lambda>oldItem.
           Seq (if \<not> itemsEqual oldItem (Some newItem) then storeItem lib newItem else Return ())
               (Effect (hl_status_Expire lib (''redins:healthcheck:'' @ key)
                  (hc_updateInterval h))))) ())"

definition transfer_record ::
  "'w hc_lib \<Rightarrow> Healthcheck \<Rightarrow> string \<Rightarrow> string \<Rightarrow> string \<Rightarrow> ('w, unit) go" where
  "transfer_record lib h domain domainId subdomain =
     Bind (Extern (hl_config_HGet lib (''redins:zones:'' @ domain) subdomain)) (\<lambda>(recordStr, err).
     case hl_decode_record lib recordStr transfer_default of
       (record, Some err) \<Rightarrow> Return ()
     | (record, None) \<Rightarrow>
         (let host = (if subdomain = ''@'' then domain else subdomain @ ''.'' @ domain)
          in Seq (transfer_rrset lib h domainId host (rr_A record))
                 (transfer_rrset lib h domainId host (rr_AAAA record))))"

text \<open>
  The inner loops of one round of \<open>Transfer\<close>; \<open>True\<close> when the quit channel ended the function. The
  channel is looked at only before a location is processed.
\<close>

primrec transfer_locations ::
  "'w hc_lib \<Rightarrow> Healthcheck \<Rightarrow> string \<Rightarrow> string \<Rightarrow> string list \<Rightarrow> ('w, bool) go" where
  "transfer_locations lib h domain domainId [] = Return False"
| "transfer_locations lib h domain domainId (subdomain # rest) =
     Bind (Extern (hl_quit lib)) (\<lambda>quit.
     if quit then Return True
     else Seq (transfer_record lib h domain domainId subdomain)
              (transfer_locations lib h domain domainId rest))"

primrec transfer_domains :: "'w hc_lib \<Rightarrow> Healthcheck \<Rightarrow> string list \<Rightarrow> ('w, bool) go" where
  "transfer_domains lib h [] = Return False"
| "transfer_domains lib h (domain # rest) =
     Bind (getDomainId lib domain) (\<lambda>domainId.
     Bind (Extern (hl_config_GetHKeys lib (''redins:zones:'' @ domain))) (\<lambda>(subdomains, err).
     Bind (transfer_locations lib h domain domainId subdomains) (\<lambda>quit.
     if quit then Return True else transfer_domains lib h rest)))"

text \<open>\<open>Transfer\<close>, its endless loop cut after \<open>n\<close> rounds: \<open>True\<close> when it returned within them.\<close>

primrec Transfer :: "nat \<Rightarrow> 'w hc_lib \<Rightarrow> Healthcheck \<Rightarrow> ('w, bool) go" where
  "Transfer 0 lib h = Return False"
| "Transfer (Suc n) lib h =
     Bind (Extern (hl_config_SMembers lib ''redins:zones'')) (\<lambda>(domains, err).
     Bind (transfer_domains lib h domains) (\<lambda>quit.
     if quit then Return True else Transfer n lib h))"

text \<open>
  \<open>Start\<close> in the same way; a disabled health check returns at once. A ticker with an interval that is
  not positive panics. \<open>Transfer\<close> runs beside it.
\<close>

primrec Start_loop :: "nat \<Rightarrow> 'w hc_lib \<Rightarrow> Healthcheck \<Rightarrow> ('w, bool) go" where
  "Start_loop 0 lib h = Return False"
| "Start_loop (Suc n) lib h =
     Bind (Start_round lib h) (\<lambda>quit. if quit then Return True else Start_loop n lib h)"

definition Start :: "nat \<Rightarrow> 'w hc_lib \<Rightarrow> Healthcheck \<Rightarrow> ('w, bool) go" where
  "Start n lib h =
     (if \<not> hc_Enable h then Return True
      else Seq (Effect (hl_Run lib))
        (if hc_checkInterval h \<le> 0 then Panic NonPositiveInterval else Start_loop n lib h))"

section \<open>Lemmas on the status\<close>

text \<open>The well-formedness of an item: the counts have their signs and bound the status.\<close>

definition status_ok :: "HealthCheckItem \<Rightarrow> bool" where
  "status_ok item \<longleftrightarrow>
     hi_DownCount item \<le> -1 \<and> 1 \<le> hi_UpCount item \<and>
     hi_DownCount item \<le> hi_Status item \<and> hi_Status item \<le> hi_UpCount item"

lemma statusUp_frame [simp]:
  "hi_UpCount (statusUp item) = hi_UpCount item"
  "hi_DownCount (statusUp item) = hi_DownCount item"
  "hi_Host (statusUp item) = hi_Host item" "hi_Ip (statusUp item) = hi_Ip item"
  by (simp_all add: statusUp_def Let_def)

lemma statusDown_frame [simp]:
  "hi_UpCount (statusDown item) = hi_UpCount item"
  "hi_DownCount (statusDown item) = hi_DownCount item"
  "hi_Host (statusDown item) = hi_Host item" "hi_Ip (statusDown item) = hi_Ip item"
  by (simp_all add: statusDown_def Let_def)

lemma statusUp_ok: "status_ok item \<Longrightarrow> status_ok (statusUp item)"
  by (auto simp: status_ok_def statusUp_def Let_def)

lemma statusDown_ok: "status_ok item \<Longrightarrow> status_ok (statusDown item)"
  by (auto simp: status_ok_def statusDown_def Let_def)

lemma statusUp_status:
  "status_ok item \<Longrightarrow> hi_Status (statusUp item) = min (hi_UpCount item) (max 0 (hi_Status item) + 1)"
  by (auto simp: status_ok_def statusUp_def Let_def)

lemma statusDown_status:
  "status_ok item \<Longrightarrow>
     hi_Status (statusDown item) = max (hi_DownCount item) (min 0 (hi_Status item) - 1)"
  by (auto simp: status_ok_def statusDown_def Let_def)

lemma statusUp_power_frame [simp]:
  "hi_UpCount ((statusUp ^^ n) item) = hi_UpCount item"
  by (induction n) auto

lemma statusDown_power_frame [simp]:
  "hi_DownCount ((statusDown ^^ n) item) = hi_DownCount item"
  by (induction n) auto

lemma statusUp_power:
  "status_ok item \<Longrightarrow> 0 < n \<Longrightarrow>
     status_ok ((statusUp ^^ n) item) \<and>
     hi_Status ((statusUp ^^ n) item) = min (hi_UpCount item) (max 0 (hi_Status item) + int n)"
proof (induction n)
  case (Suc n)
  show ?case
  proof (cases "n = 0")
    case True
    with Suc.prems show ?thesis by (simp add: statusUp_ok statusUp_status)
  next
    case False
    with Suc show ?thesis by (auto simp: statusUp_ok statusUp_status status_ok_def [of item])
  qed
qed simp

lemma statusDown_power:
  "status_ok item \<Longrightarrow> 0 < n \<Longrightarrow>
     status_ok ((statusDown ^^ n) item) \<and>
     hi_Status ((statusDown ^^ n) item) = max (hi_DownCount item) (min 0 (hi_Status item) - int n)"
proof (induction n)
  case (Suc n)
  show ?case
  proof (cases "n = 0")
    case True
    with Suc.prems show ?thesis by (simp add: statusDown_ok statusDown_status)
  next
    case False
    with Suc show ?thesis by (auto simp: statusDown_ok statusDown_status status_ok_def [of item])
  qed
qed simp

section \<open>Lemmas on the filter\<close>

text \<open>Loading and reading a status never panics.\<close>

lemma wp_loadItem: "wp NoPanic (loadItem lib key) (\<lambda>_ _. True) w"
  by (auto simp: loadItem_def wp_rules Let_def split: list.splits sum.splits)

lemma wp_getStatus: "wp NoPanic (getStatus lib h host ip) (\<lambda>_ _. True) w"
  by (auto simp: getStatus_def wp_rules Let_def split: option.splits
      intro!: wp_strengthen [OF wp_loadItem])

lemma wp_status_at:
  "i < length (ips_Data rrset) \<Longrightarrow> wp NoPanic (status_at lib h qname rrset i) (\<lambda>_ _. True) w"
  by (simp add: status_at_def wp_rules data_at_def wp_getStatus)

lemma wp_hc_best:
  "length marks \<le> length (ips_Data rrset) \<Longrightarrow>
     wp NoPanic (hc_best lib h qname rrset marks) (\<lambda>_ _. True) w"
  unfolding hc_best_def
  by (rule wp_ForEach) (auto simp: wp_rules intro!: wp_strengthen [OF wp_status_at])

lemma wp_hc_mark:
  "wp AnyPanic (hc_mark lib h qname rrset limit marks) (\<lambda>m _. stage_ok marks m) w"
  unfolding hc_mark_def
  by (rule wp_ForEach)
    (auto simp: wp_rules intro!: stage_ok_update
      wp_strengthen [OF wp_triv [of "status_at lib h qname rrset i" for i]])

interpretation health_stage: mask_stage "FilterHealthcheck lib h qname rrset"
  for lib h qname rrset
  by unfold_locales
    (auto simp: FilterHealthcheck_def wp_rules
      intro!: wp_strengthen [OF wp_triv [of "hc_best lib h qname rrset m" for m]]
        wp_strengthen [OF wp_hc_mark])

text \<open>
  The statuses the library reports for the addresses of a record set, when they stay the same
  during the call.
\<close>

definition stable_status ::
  "'w hc_lib \<Rightarrow> Healthcheck \<Rightarrow> string \<Rightarrow> IP_RRSet \<Rightarrow> (nat \<Rightarrow> int) \<Rightarrow> bool" where
  "stable_status lib h qname rrset st \<longleftrightarrow>
     (\<forall>i < length (ips_Data rrset). \<forall>w. \<exists>w'.
        getStatus lib h qname (ip_Ip (ips_Data rrset ! i)) w = Inr (st i, w'))"

lemma wp_status_at_stable:
  assumes "stable_status lib h qname rrset st" "i < length (ips_Data rrset)"
  shows "wp NoPanic (status_at lib h qname rrset i) (\<lambda>v _. v = st i) w"
proof -
  obtain w' where "getStatus lib h qname (ip_Ip (ips_Data rrset ! i)) w = Inr (st i, w')"
    using assms by (auto simp: stable_status_def)
  then have "wp NoPanic (getStatus lib h qname (ip_Ip (ips_Data rrset ! i))) (\<lambda>v _. v = st i) w"
    by (simp add: wp_def)
  then show ?thesis using assms(2) by (simp add: status_at_def wp_rules data_at_def)
qed

text \<open>The least status that passes, by the configured counts and the best status seen.\<close>

definition pass_limit :: "IP_RRSet \<Rightarrow> (nat \<Rightarrow> int) \<Rightarrow> ip_mask list \<Rightarrow> int" where
  "pass_limit rrset st marks =
     hc_limit rrset
       (Max (insert (hcc_DownCount (ips_HealthCheckConfig rrset)) (st ` set (whites marks))))"

lemma hc_best_stable:
  assumes "stable_status lib h qname rrset st" "length marks \<le> length (ips_Data rrset)"
  shows "wp NoPanic (hc_best lib h qname rrset marks)
           (\<lambda>m _. m = Max (insert (hcc_DownCount (ips_HealthCheckConfig rrset))
                       (st ` set (whites marks)))) w"
proof -
  have "wp NoPanic (hc_best lib h qname rrset marks)
     (\<lambda>m _. m = fold (\<lambda>i m. if marks ! i = IpMaskWhite then max (st i) m else m)
        [0..<length marks] (hcc_DownCount (ips_HealthCheckConfig rrset))) w"
    unfolding hc_best_def
    by (rule wp_ForEach_fold)
      (use assms in \<open>auto simp: wp_rules intro!: wp_strengthen [OF wp_status_at_stable [OF assms(1)]]\<close>)
  then show ?thesis by (simp add: fold_max_upt set_whites)
qed

lemma hc_mark_stable:
  assumes "stable_status lib h qname rrset st" "length marks \<le> length (ips_Data rrset)"
  shows "wp NoPanic (hc_mark lib h qname rrset limit marks)
           (\<lambda>m _. m = map (\<lambda>i. if marks ! i = IpMaskWhite \<and> limit \<le> st i then IpMaskWhite
                              else IpMaskBlack) [0..<length marks]) w"
proof -
  let ?P = "\<lambda>i. \<not> (marks ! i = IpMaskWhite \<and> limit \<le> st i)"
  have "wp NoPanic (hc_mark lib h qname rrset limit marks)
     (\<lambda>m _. m = fold (\<lambda>i m. if ?P i then m[i := IpMaskBlack] else m) [0..<length marks] marks) w"
    unfolding hc_mark_def
    by (rule wp_ForEach_fold)
      (use assms in \<open>auto simp: wp_rules intro!: wp_strengthen [OF wp_status_at_stable [OF assms(1)]]\<close>)
  moreover have "fold (\<lambda>i m. if ?P i then m[i := IpMaskBlack] else m) [0..<length marks] marks =
      map (\<lambda>i. if marks ! i = IpMaskWhite \<and> limit \<le> st i then IpMaskWhite else IpMaskBlack)
        [0..<length marks]"
    by (subst fold_update_upt) auto
  ultimately show ?thesis by simp
qed

lemma FilterHealthcheck_stable:
  assumes "hc_Enable h" "stable_status lib h qname rrset st"
    "length marks \<le> length (ips_Data rrset)"
  shows "wp NoPanic (FilterHealthcheck lib h qname rrset marks)
           (\<lambda>m _. m = map (\<lambda>i. if marks ! i = IpMaskWhite \<and> pass_limit rrset st marks \<le> st i
                              then IpMaskWhite else IpMaskBlack) [0..<length marks]) w"
  using assms(1)
  by (auto simp: FilterHealthcheck_def wp_rules pass_limit_def
      intro!: wp_strengthen [OF hc_best_stable [OF assms(2,3)]] hc_mark_stable [OF assms(2,3)])

lemma pass_limit_best:
  assumes "i \<in> set (whites marks)" "hcc_DownCount (ips_HealthCheckConfig rrset) \<le> st i"
  shows "\<exists>j \<in> set (whites marks). pass_limit rrset st marks \<le> st j"
proof -
  let ?S = "insert (hcc_DownCount (ips_HealthCheckConfig rrset)) (st ` set (whites marks))"
  have fin: "finite ?S" by simp
  have "hc_limit rrset (Max ?S) \<le> Max ?S"
    by (auto simp: hc_limit_def)
  moreover have "\<exists>j \<in> set (whites marks). Max ?S \<le> st j"
  proof (cases "Max ?S = hcc_DownCount (ips_HealthCheckConfig rrset)")
    case True
    then show ?thesis using assms by auto
  next
    case False
    then obtain j where "j \<in> set (whites marks)" "Max ?S = st j"
      using Max_in [OF fin] by blast
    then show ?thesis by (intro bexI [of _ j]) simp_all
  qed
  ultimately show ?thesis unfolding pass_limit_def by (meson order_trans)
qed

section \<open>Properties\<close>

text \<open>
  C22. The status of an address stays between its down count and its up count, and n checks in a row
  with the same result move it the same way: from any status, one failure makes a healthy address
  unhealthy and enough of them bring it to its down count, and the other way round for successes.
\<close>

theorem status_hysteresis:
  assumes "status_ok item" "0 < n"
  shows "status_ok ((statusUp ^^ n) item) \<and> status_ok ((statusDown ^^ n) item) \<and>
         hi_Status ((statusUp ^^ n) item) = min (hi_UpCount item) (max 0 (hi_Status item) + int n) \<and>
         hi_Status ((statusDown ^^ n) item) = max (hi_DownCount item) (min 0 (hi_Status item) - int n)"
  using statusUp_power [OF assms] statusDown_power [OF assms] by blast

text \<open>
  An item, and a library for examples: the world is the status database, every check succeeds, the
  cache always has a healthy item, and there are no zones.
\<close>

definition example_item :: "int \<Rightarrow> HealthCheckItem" where
  "example_item st = zero_HealthCheckItem\<lparr>hi_Host := ''w.example.com.'', hi_Ip := ''1.2.3.4'',
     hi_Status := st, hi_UpCount := 3, hi_DownCount := -3\<rparr>"

definition example_hc_lib :: "(string \<rightharpoonup> string) hc_lib" where
  "example_hc_lib = \<lparr>hl_Now = Pair 7, hl_cache_Get = (\<lambda>_. Pair (Some (example_item 3))),
     hl_cache_Set = (\<lambda>_ _ _ w. w),
     hl_status_Get = (\<lambda>k w. (case w k of None \<Rightarrow> Inl ''nil'' | Some v \<Rightarrow> Inr v, w)),
     hl_status_Set = (\<lambda>k v w. w(k \<mapsto> v)), hl_status_Expire = (\<lambda>_ _ w. w),
     hl_status_GetKeys = (\<lambda>_. Pair ([], None)), hl_config_Get = (\<lambda>_. Pair ([], None)),
     hl_config_SMembers = (\<lambda>_. Pair ([], None)), hl_config_GetHKeys = (\<lambda>_. Pair ([], None)),
     hl_config_HGet = (\<lambda>_ _. Pair ([], None)),
     hl_decode_item = (\<lambda>_ item. item\<lparr>hi_Status := 1, hi_UpCount := 3, hi_DownCount := -3\<rparr>),
     hl_encode_item = (\<lambda>_. Inr ''item''), hl_decode_record = (\<lambda>_ r. (r, None)),
     hl_decode_config = (\<lambda>_ c. (c, None)), hl_NewRequest = (\<lambda>_. None),
     hl_http_Do = (\<lambda>_ _ _ _. Pair (Inr 200)), hl_icmp_Listen = Pair None,
     hl_ParseIP = (\<lambda>_. None), hl_icmp_Marshal = (\<lambda>_. Inr []),
     hl_icmp_WriteTo = (\<lambda>_ _ _. Pair None), hl_icmp_ReadFrom = Pair (Inr []),
     hl_icmp_Parse = (\<lambda>_. Inr EchoReply), hl_Log = (\<lambda>_ w. w), hl_Queue = (\<lambda>_ w. w),
     hl_quit = Pair True, hl_close_quit = (\<lambda>w. w), hl_Run = (\<lambda>w. w), hl_Stop = (\<lambda>w. w)\<rparr>"

definition example_hc :: Healthcheck where
  "example_hc = \<lparr>hc_Enable = True, hc_maxRequests = 10, hc_maxPendingRequests = 100,
     hc_updateInterval = 600 * second, hc_checkInterval = 600 * second\<rparr>"

theorem status_hysteresis_witness:
  "hi_Status ((statusDown ^^ 3) (example_item 3)) = -3 \<and>
   hi_Status ((statusUp ^^ 2) (example_item (-3))) = 2"
  using status_hysteresis [of "example_item 3" 3] status_hysteresis [of "example_item (-3)" 2]
  by (simp add: example_item_def status_ok_def)

text \<open>
  C23. One check keeps the status within its counts: it rises by the rule of the counts when the check
  succeeded and falls when it failed, with the error kept in the item. Only a ping can panic, on an
  address that does not parse.
\<close>

theorem HandleHealthCheck_step:
  assumes "status_ok item"
  shows "wp (\<lambda>p. p = IndexOutOfRange \<and> hi_Protocol item \<in> {''ping'', ''icmp''})
           (HandleHealthCheck lib item)
           (\<lambda>new _. status_ok new \<and> hi_Host new = hi_Host item \<and> hi_Ip new = hi_Ip item \<and>
              hi_Status new = (if hi_Error new = None
                 then min (hi_UpCount item) (max 0 (hi_Status item) + 1)
                 else max (hi_DownCount item) (min 0 (hi_Status item) - 1))) w"
proof -
  have up: "status_ok (statusUp (item\<lparr>hi_Error := e\<rparr>))" "hi_Error (statusUp (item\<lparr>hi_Error := e\<rparr>)) = e"
    "hi_Status (statusUp (item\<lparr>hi_Error := e\<rparr>)) = min (hi_UpCount item) (max 0 (hi_Status item) + 1)"
    and down: "status_ok (statusDown (item\<lparr>hi_Error := e\<rparr>))"
    "hi_Error (statusDown (item\<lparr>hi_Error := e\<rparr>)) = e"
    "hi_Status (statusDown (item\<lparr>hi_Error := e\<rparr>)) = max (hi_DownCount item) (min 0 (hi_Status item) - 1)"
    for e
    using assms by (auto simp: status_ok_def statusUp_def statusDown_def Let_def)
  have stamp: "status_ok (i\<lparr>hi_LastCheck := t\<rparr>) = status_ok i" for i t
    by (simp add: status_ok_def)
  have store: "wp E (storeItem lib i) (\<lambda>_ _. True) w" for E i w
    by (auto simp: storeItem_def Let_def wp_rules split: sum.splits)
  have http: "wp E (httpCheck lib url host t) (\<lambda>_ _. True) w" for E url host t w
    by (auto simp: httpCheck_def wp_rules split: option.splits sum.splits)
  have ping: "wp (\<lambda>p. p = IndexOutOfRange) (pingCheck lib ip t) (\<lambda>_ _. True) w" for ip t w
    by (auto simp: pingCheck_def BigEndian_Uint32_def wp_rules
        split: option.splits sum.splits list.splits icmp_type.splits)
  have "wp (\<lambda>p. p = IndexOutOfRange \<and> hi_Protocol item \<in> {''ping'', ''icmp''})
      (check_item lib item) (\<lambda>_ _. True) w"
    by (auto simp: check_item_def wp_rules http intro: wp_mono [OF ping])
  then show ?thesis
    unfolding HandleHealthCheck_def Let_def
    by (auto simp: wp_rules logHealthcheck_def up down stamp elim!: wp_strengthen
        intro!: wp_strengthen [OF store])
qed

theorem HandleHealthCheck_step_witness:
  "wp NoPanic (HandleHealthCheck example_hc_lib (example_item 1\<lparr>hi_Protocol := ''http''\<rparr>))
     (\<lambda>new _. status_ok new) Map.empty"
proof -
  have "status_ok (example_item 1\<lparr>hi_Protocol := ''http''\<rparr>)"
    by (simp add: status_ok_def example_item_def)
  from HandleHealthCheck_step [OF this, of example_hc_lib Map.empty]
  show ?thesis by (rule wp_mono) (auto simp: example_item_def)
qed





text \<open>
  The transfer loop looks at the quit channel only before it processes a location: when the
  database lists no zones it never returns, however many rounds it runs, even after the channel was
  closed.
\<close>

theorem Transfer_ignores_quit:
  assumes "\<And>w. fst (fst (hl_config_SMembers lib ''redins:zones'' w)) = []"
  shows "\<exists>w'. Transfer n lib h w = Inr (False, w')"
proof -
  have "wp NoPanic (Transfer n lib h) (\<lambda>r _. \<not> r) w" for w
  proof (induction n arbitrary: w)
    case (Suc n)
    then show ?case by (simp add: wp_rules split_beta assms)
  qed (simp add: wp_rules)
  then show ?thesis using wp_NoPanicD by fastforce
qed

theorem Transfer_ignores_quit_witness:
  "hl_quit example_hc_lib Map.empty = (True, Map.empty) \<and>
   (\<exists>w'. Transfer 1000 example_hc_lib example_hc Map.empty = Inr (False, w'))"
  using Transfer_ignores_quit [of example_hc_lib 1000 example_hc Map.empty]
  by (simp add: example_hc_lib_def del: Transfer.simps)

end
