(* ===== verification/Upstream.thy ===== *)
theory Upstream
  imports Net_Text
begin

text \<open>
  \<open>handler/upstream.go\<close>: asking the configured upstream servers in turn, with a cache of their
  answers. The state is the list of connections, which a query changes, and the world; the cache,
  the DNS client and the clock are the fields of \<open>up_lib\<close>.
\<close>

section \<open>Definitions\<close>

record UpstreamConfig =
  uc_Ip :: string
  uc_Port :: int
  uc_Protocol :: string
  uc_Timeout :: int

record UpstreamConnection =
  conn_Net :: string
  conn_Timeout :: int
  conn_Str :: string

record dns_Reply =
  reply_Rcode :: int
  reply_Answer :: "dns_RR list"

text \<open>A cache hit gives the records and the time they expire.\<close>

record 'w up_lib =
  up_cache_Get :: "string \<Rightarrow> 'w \<Rightarrow> (dns_RR list \<times> int) option \<times> 'w"
  up_cache_Set :: "string \<Rightarrow> dns_RR list \<Rightarrow> int \<Rightarrow> 'w \<Rightarrow> 'w"
  up_Exchange :: "UpstreamConnection \<Rightarrow> string \<Rightarrow> uint16 \<Rightarrow> 'w \<Rightarrow> (go_error + dns_Reply) \<times> 'w"
  up_Now :: "'w \<Rightarrow> int \<times> 'w"

type_synonym 'w up_state = "UpstreamConnection list \<times> 'w"

definition NewUpstream :: "UpstreamConfig list \<Rightarrow> UpstreamConnection list" where
  "NewUpstream config =
     map (\<lambda>c. \<lparr>conn_Net = uc_Protocol c, conn_Timeout = uc_Timeout c * millisecond,
               conn_Str = uc_Ip c @ '':'' @ Itoa (uc_Port c)\<rparr>) config"

definition on_world :: "('w, 'a) go \<Rightarrow> ('w up_state, 'a) go" where
  "on_world = Zoom snd (\<lambda>w s. (fst s, w))"

definition set_ttl :: "uint32 \<Rightarrow> dns_RR \<Rightarrow> dns_RR" where
  "set_ttl ttl r = RR ((rr_Hdr r)\<lparr>hdr_Ttl := ttl\<rparr>) (rr_Data r)"

definition min_ttl :: "dns_RR list \<Rightarrow> uint32" where
  "min_ttl rs = foldl (\<lambda>m r. if rr_ttl r < m then rr_ttl r else m) (rr_ttl (hd rs)) rs"

text \<open>
  The loop over the connections. The assignment \<open>u.connections[0], c = c, u.connections[0]\<close> stores
  the connection that answered in the first slot; the variable \<open>c\<close> is the loop's own.
\<close>

primrec query_loop ::
  "'w up_lib \<Rightarrow> string \<Rightarrow> string \<Rightarrow> uint16 \<Rightarrow> UpstreamConnection list \<Rightarrow>
     ('w up_state, go_error + dns_Reply) go" where
  "query_loop lib key location qtype [] = Return (Inl ''failed to retrieve data from upstream'')"
| "query_loop lib key location qtype (c # cs) =
     Bind (on_world (Extern (up_Exchange lib c location qtype))) (\<lambda>res.
     case res of
       Inl err \<Rightarrow> query_loop lib key location qtype cs
     | Inr r \<Rightarrow>
         if reply_Rcode r \<noteq> RcodeSuccess then Return (Inr r)
         else if length (reply_Answer r) = 0 then Return (Inr r)
         else Seq (on_world (Modify (up_cache_Set lib key (reply_Answer r)
                      (uint (min_ttl (reply_Answer r)) * second))))
             (Seq (Modify (\<lambda>(conns, w). (conns[0 := c], w)))
                  (Return (Inr r))))"

definition Query :: "'w up_lib \<Rightarrow> string \<Rightarrow> uint16 \<Rightarrow> ('w up_state, dns_RR list \<times> int) go" where
  "Query lib location qtype =
     (let key = location @ '':'' @ Itoa (uint qtype)
      in Bind (on_world (Extern (up_cache_Get lib key))) (\<lambda>found.
         case found of
           Some (records, expiry) \<Rightarrow>
             Bind (ForEach records (\<lambda>r done.
               Bind (on_world (Extern (up_Now lib))) (\<lambda>now.
               Return (done @ [set_ttl (word_of_int (go_div (expiry - now) second)) r]))) [])
             (\<lambda>records. Return (records, RcodeSuccess))
         | None \<Rightarrow>
             Bind (Bind (Gets fst) (query_loop lib key location qtype)) (\<lambda>answer.
             case answer of
               Inl err \<Rightarrow> Return ([], RcodeServerFailure)
             | Inr msg \<Rightarrow> Return (reply_Answer msg, reply_Rcode msg))))"

section \<open>Lemmas\<close>

lemma wp_on_world [wp_rules]:
  "wp E (on_world m) Q s = wp E m (\<lambda>a w. Q a (fst s, w)) (snd s)"
  by (simp add: on_world_def wp_rules)

lemma min_ttl_le: "r \<in> set rs \<Longrightarrow> min_ttl rs \<le> rr_ttl r"
proof -
  have "(m :: uint32) \<le> m0 \<and> (\<forall>r \<in> set rs. m \<le> rr_ttl r)"
    if "m = foldl (\<lambda>m r. if rr_ttl r < m then rr_ttl r else m) m0 rs" for m m0
    using that
  proof (induction rs arbitrary: m0)
    case (Cons r rs)
    then have "m \<le> (if rr_ttl r < m0 then rr_ttl r else m0) \<and> (\<forall>r \<in> set rs. m \<le> rr_ttl r)"
      by simp
    then show ?case by (auto split: if_splits)
  qed simp
  then show "r \<in> set rs \<Longrightarrow> min_ttl rs \<le> rr_ttl r" by (simp add: min_ttl_def)
qed

text \<open>A query never panics and keeps every connection but possibly the first.\<close>

lemma query_loop_frame:
  "set cs \<subseteq> set conns0 \<Longrightarrow>
     wp NoPanic (query_loop lib key location qtype cs)
       (\<lambda>_ s. fst s = conns \<or> (\<exists>c \<in> set conns0. fst s = conns[0 := c])) (conns, w)"
proof (induction cs arbitrary: w)
  case Nil
  then show ?case by (simp add: wp_rules)
next
  case (Cons c cs)
  then show ?case by (auto simp: wp_rules split: sum.splits)
qed

lemma Query_frame:
  "wp NoPanic (Query lib location qtype)
     (\<lambda>_ s. fst s = conns \<or> (\<exists>c \<in> set conns. fst s = conns[0 := c])) (conns, w)"
  by (auto simp: Query_def Let_def wp_rules split: option.splits sum.splits
      intro!: wp_strengthen [OF query_loop_frame [of conns conns]]
        wp_strengthen [OF wp_ForEach [where I = "\<lambda>_ s. fst s = conns"]])

lemma query_loop_failover:
  assumes "\<forall>d \<in> set pre. \<forall>w. \<exists>e. fst (up_Exchange lib d q t w) = Inl e"
    and "\<forall>w. fst (up_Exchange lib c q t w) = Inr r"
    and "reply_Rcode r = RcodeSuccess" "reply_Answer r \<noteq> []"
  shows "wp NoPanic (query_loop lib key q t (pre @ c # post))
           (\<lambda>x s. x = Inr r \<and> fst s = conns[0 := c]) (conns, w)"
  using assms(1)
proof (induction pre arbitrary: w)
  case Nil
  then show ?case using assms(2-4) by (simp add: wp_rules)
next
  case (Cons d pre)
  obtain e w' where "up_Exchange lib d q t w = (Inl e, w')"
    using Cons.prems by (metis list.set_intros(1) prod.collapse)
  then show ?case using Cons by (simp add: wp_rules)
qed

section \<open>Properties\<close>

text \<open>
  C29. Upstream servers are asked in order until one answers: when the first ones fail and the next
  returns records, the query returns them. The server that answered is written over the first entry
  of the list and stays at its own place, so the former first server is not asked again.
\<close>

theorem Query_failover:
  assumes "\<forall>d \<in> set (p # pre). \<forall>w. \<exists>e. fst (up_Exchange lib d q t w) = Inl e"
    and "\<forall>w. fst (up_Exchange lib c q t w) = Inr r"
    and "reply_Rcode r = RcodeSuccess" "reply_Answer r \<noteq> []"
    and "fst (up_cache_Get lib (q @ '':'' @ Itoa (uint t)) w) = None"
  shows "\<exists>w'. Query lib q t (p # pre @ c # post, w) =
           Inr ((reply_Answer r, RcodeSuccess), (c # pre @ c # post, w'))"
proof -
  have loop: "wp NoPanic (query_loop lib (q @ '':'' @ Itoa (uint t)) q t (p # pre @ c # post))
      (\<lambda>x s. x = Inr r \<and> fst s = c # pre @ c # post) (p # pre @ c # post, w')" for w'
    using query_loop_failover [OF assms(1-4), where conns = "p # pre @ c # post" and post = post]
    by (simp del: query_loop.simps)
  have "wp NoPanic (Query lib q t) (\<lambda>x s. x = (reply_Answer r, RcodeSuccess) \<and>
      fst s = c # pre @ c # post) (p # pre @ c # post, w)"
    by (simp add: Query_def Let_def wp_rules assms(5) del: query_loop.simps append_Cons append_Nil,
        rule wp_strengthen [OF loop]) (auto simp: wp_rules assms(3))
  then show ?thesis by (auto dest!: wp_NoPanicD)
qed

text \<open>Two servers of which the second answers, and an empty cache, for examples.\<close>

definition example_conn :: "string \<Rightarrow> UpstreamConnection" where
  "example_conn a = \<lparr>conn_Net = ''udp'', conn_Timeout = 400 * millisecond, conn_Str = a\<rparr>"

definition example_rr :: "uint32 \<Rightarrow> dns_RR" where
  "example_rr ttl = RR \<lparr>hdr_Name = ''x.'', hdr_Rrtype = TypeA, hdr_Class = ClassINET, hdr_Ttl = ttl\<rparr>
     (RA (Some [1, 2, 3, 4]))"

definition example_up_lib :: "'w up_lib" where
  "example_up_lib = \<lparr>up_cache_Get = (\<lambda>_. Pair None), up_cache_Set = (\<lambda>_ _ _ w. w),
     up_Exchange = (\<lambda>c q t w. (if conn_Str c = ''a'' then Inl ''timeout''
        else Inr \<lparr>reply_Rcode = RcodeSuccess, reply_Answer = [example_rr 300]\<rparr>, w)),
     up_Now = Pair 0\<rparr>"

theorem Query_failover_witness:
  "\<exists>w'. Query example_up_lib ''x.'' TypeA ([example_conn ''a'', example_conn ''b''], 0 :: nat) =
     Inr (([example_rr 300], RcodeSuccess), ([example_conn ''b'', example_conn ''b''], w'))"
  using Query_failover [of "example_conn ''a''" "[]" example_up_lib "''x.''" TypeA
      "example_conn ''b''" "\<lparr>reply_Rcode = RcodeSuccess, reply_Answer = [example_rr 300]\<rparr>" "0 :: nat" "[]"]
  by (simp add: example_up_lib_def example_conn_def)

text \<open>
  The time an upstream answer is cached for is the smallest time to live among its records, so
  no record is served from the cache longer than its own.
\<close>

theorem min_ttl_minimum:
  assumes "rs \<noteq> []"
  shows "list_all (\<lambda>r. min_ttl rs \<le> rr_ttl r) rs \<and> list_ex (\<lambda>r. min_ttl rs = rr_ttl r) rs"
proof -
  have "foldl (\<lambda>m r. if rr_ttl r < m then rr_ttl r else m) m xs \<in> insert m (rr_ttl ` set xs)"
    for m xs
    by (induction xs arbitrary: m) (auto split: if_splits)
  then have "min_ttl rs \<in> insert (rr_ttl (hd rs)) (rr_ttl ` set rs)" by (simp add: min_ttl_def)
  then show ?thesis using assms min_ttl_le [of _ rs] by (auto simp: list_all_iff list_ex_iff)
qed

theorem min_ttl_minimum_witness:
  "list_all (\<lambda>r. min_ttl [example_rr 300, example_rr 60] \<le> rr_ttl r) [example_rr 300, example_rr 60]"
  using min_ttl_minimum [of "[example_rr 300, example_rr 60]"] by blast

end
