(* ===== verification/Dnssec.thy ===== *)
theory Dnssec
  imports Dns_Types
begin

text \<open>
  \<open>handler/dnssec.go\<close>: grouping the records of a section into record sets, signing each set with the
  zone's key, and the synthesized NSEC record. The cryptography, the key tag and the order in which
  Go walks a map are the fields of \<open>sec_lib\<close>.
\<close>

section \<open>Definitions\<close>

type_synonym rrset_key = "string \<times> uint16"
type_synonym rr_sets = "(rrset_key \<times> dns_RR list) list"

record 'w sec_lib =
  sec_map_order :: "rr_sets \<Rightarrow> 'w \<Rightarrow> rr_sets \<times> 'w"
  sec_Sign :: "dns_RR \<Rightarrow> PrivateKey \<Rightarrow> dns_RR list \<Rightarrow> 'w \<Rightarrow> (go_error + dns_RR) \<times> 'w"
  sec_KeyTag :: "dns_RR \<Rightarrow> uint16"

definition NSecTypes :: "uint16 list" where
  "NSecTypes = [TypeRRSIG, TypeNSEC]"

text \<open>The map of record sets, as an association list in the order of first insertion.\<close>

fun add_to_sets :: "rrset_key \<Rightarrow> dns_RR \<Rightarrow> rr_sets \<Rightarrow> rr_sets" where
  "add_to_sets k r [] = [(k, [r])]"
| "add_to_sets k r ((k', rs) # sets) =
     (if k = k' then (k', rs @ [r]) # sets else (k', rs) # add_to_sets k r sets)"

definition rrset_of :: "dns_RR \<Rightarrow> rrset_key" where
  "rrset_of r = (rr_name r, rr_type r)"

definition skipped :: "dns_RR \<Rightarrow> bool" where
  "skipped r \<longleftrightarrow> rr_type r = TypeRRSIG \<or> rr_type r = TypeOPT"

definition splitSets :: "dns_RR list \<Rightarrow> rr_sets" where
  "splitSets rrs =
     foldl (\<lambda>m r. if skipped r then m else add_to_sets (rrset_of r) r m) [] rrs"

definition key_data :: "ZoneKey \<Rightarrow> go_panic + DNSKEY_Data" where
  "key_data key = (case rr_Data (zk_DnsKey key) of RDNSKEY d \<Rightarrow> Inr d | _ \<Rightarrow> Inl TypeAssertion)"

datatype key_kind = RsaAlgorithm | EcdsaAlgorithm | UnsupportedAlgorithm

definition algorithm_kind :: "uint8 \<Rightarrow> key_kind" where
  "algorithm_kind a =
     (if a \<in> {1, 5, 7, 8, 10} then RsaAlgorithm
      else if a \<in> {13, 14} then EcdsaAlgorithm
      else UnsupportedAlgorithm)"

definition sign_template ::
  "'w sec_lib \<Rightarrow> string \<Rightarrow> ZoneKey \<Rightarrow> DNSKEY_Data \<Rightarrow> uint32 \<Rightarrow> dns_RR" where
  "sign_template lib name key d ttl =
     RR \<lparr>hdr_Name = name, hdr_Rrtype = TypeRRSIG, hdr_Class = ClassINET, hdr_Ttl = ttl\<rparr>
        (RRRSIG \<lparr>sig_TypeCovered = 0, sig_Algorithm = key_Algorithm d, sig_Labels = 0,
           sig_OrigTtl = 0, sig_Expiration = zk_KeyExpiration key,
           sig_Inception = zk_KeyInception key, sig_KeyTag = sec_KeyTag lib (zk_DnsKey key),
           sig_SignerName = rr_name (zk_DnsKey key), sig_Signature = []\<rparr>)"

definition sign ::
  "'w sec_lib \<Rightarrow> dns_RR list \<Rightarrow> string \<Rightarrow> ZoneKey \<Rightarrow> uint32 \<Rightarrow> ('w, go_error + dns_RR) go" where
  "sign lib rrs name key ttl =
     Bind (Lift (key_data key)) (\<lambda>d.
     let rrsig = sign_template lib name key d ttl
     in case (algorithm_kind (key_Algorithm d), zk_PrivateKey key) of
          (RsaAlgorithm, RsaKey k) \<Rightarrow> Extern (sec_Sign lib rrsig (RsaKey k) rrs)
        | (RsaAlgorithm, _) \<Rightarrow> Panic TypeAssertion
        | (EcdsaAlgorithm, EcdsaKey k) \<Rightarrow> Extern (sec_Sign lib rrsig (EcdsaKey k) rrs)
        | (EcdsaAlgorithm, _) \<Rightarrow> Panic TypeAssertion
        | (UnsupportedAlgorithm, _) \<Rightarrow>
            Return (Inl ''invalid or not supported algorithm''))"

text \<open>
  \<open>Sign\<close>. A missing zone key is dereferenced by \<open>sign\<close>; a missing signature of the key set ends up
  as a nil record of the message, which is dereferenced when the message is packed.
\<close>

definition sign_set ::
  "'w sec_lib \<Rightarrow> string \<Rightarrow> Zone \<Rightarrow> dns_RR list \<Rightarrow> ('w, dns_RR list) go" where
  "sign_set lib qname z rrs =
     (case rrs of
        [] \<Rightarrow> Panic IndexOutOfRange
      | r # _ \<Rightarrow>
          if skipped r then Return []
          else if rr_type r = TypeDNSKEY
          then (case zone_DnsKeySig z of None \<Rightarrow> Panic NilDereference | Some sig \<Rightarrow> Return [sig])
          else (case zone_ZSK z of
                  None \<Rightarrow> Panic NilDereference
                | Some zsk \<Rightarrow>
                    Bind (sign lib rrs qname zsk (rr_ttl r)) (\<lambda>res.
                    case res of Inl err \<Rightarrow> Return [] | Inr rrsig \<Rightarrow> Return [rrsig])))"

definition Sign ::
  "'w sec_lib \<Rightarrow> dns_RR list \<Rightarrow> string \<Rightarrow> Zone \<Rightarrow> ('w, dns_RR list) go" where
  "Sign lib rrs qname z =
     Bind (Extern (sec_map_order lib (splitSets rrs))) (\<lambda>sets.
     ForEach sets (\<lambda>(_, rrset) res.
       Bind (sign_set lib qname z rrset) (\<lambda>sigs. Return (res @ rrset @ sigs))) [])"

definition NSec :: "string \<Rightarrow> Zone \<Rightarrow> go_panic + dns_RR" where
  "NSec name zone =
     (case zc_SOA (zone_Config zone) of
        None \<Rightarrow> Inl NilDereference
      | Some soa \<Rightarrow>
          Inr (RR \<lparr>hdr_Name = name, hdr_Rrtype = TypeNSEC, hdr_Class = ClassINET,
                   hdr_Ttl = soas_MinTtl soa\<rparr>
                 (RNSEC (CHR 0x5C # ''000.'' @ name) NSecTypes)))"

section \<open>Lemmas on the record sets\<close>

text \<open>
  What a map of record sets always satisfies: its keys are distinct, its sets are not empty, and
  every record is filed under its own name and type.
\<close>

definition sets_ok :: "rr_sets \<Rightarrow> bool" where
  "sets_ok sets \<longleftrightarrow> distinct (map fst sets) \<and>
     (\<forall>(k, rs) \<in> set sets. rs \<noteq> [] \<and> (\<forall>r \<in> set rs. rrset_of r = k \<and> \<not> skipped r))"

lemma keys_add_to_sets: "set (map fst (add_to_sets k r m)) = insert k (set (map fst m))"
  by (induction k r m rule: add_to_sets.induct) auto

lemma add_to_sets_ok:
  "sets_ok m \<Longrightarrow> \<not> skipped r \<Longrightarrow> sets_ok (add_to_sets (rrset_of r) r m)"
proof (induction "rrset_of r" r m rule: add_to_sets.induct)
  case (1 r)
  then show ?case by (simp add: sets_ok_def)
next
  case (2 r k' rs sets)
  then have "sets_ok sets" by (auto simp: sets_ok_def)
  then show ?case using 2 keys_add_to_sets [of "rrset_of r" r sets]
    by (auto simp: sets_ok_def)
qed

lemma add_to_sets_mset:
  "mset (concat (map snd (add_to_sets k r m))) = add_mset r (mset (concat (map snd m)))"
  by (induction k r m rule: add_to_sets.induct) auto

lemma splitSets_foldl:
  "sets_ok m \<Longrightarrow>
     sets_ok (foldl (\<lambda>m r. if skipped r then m else add_to_sets (rrset_of r) r m) m rrs) \<and>
     mset (concat (map snd
       (foldl (\<lambda>m r. if skipped r then m else add_to_sets (rrset_of r) r m) m rrs))) =
     mset (concat (map snd m)) + mset (filter (\<lambda>r. \<not> skipped r) rrs)"
proof (induction rrs arbitrary: m)
  case (Cons r rrs)
  have "sets_ok (if skipped r then m else add_to_sets (rrset_of r) r m)"
    using Cons.prems add_to_sets_ok by auto
  with Cons.IH show ?case by (auto simp: add_to_sets_mset)
qed simp

lemma splitSets_ok: "sets_ok (splitSets rrs)"
  using splitSets_foldl [of "[]" rrs] by (simp add: splitSets_def sets_ok_def)

lemma splitSets_mset:
  "mset (concat (map snd (splitSets rrs))) = mset (filter (\<lambda>r. \<not> skipped r) rrs)"
  using splitSets_foldl [of "[]" rrs] by (simp add: splitSets_def sets_ok_def)

section \<open>Properties\<close>

text \<open>
  Grouping the records of a section partitions it: distinct keys, no empty set, every record in
  the set of its name and type, and all records but signatures and the OPT record in some set, as
  often as they occur.
\<close>

theorem splitSets_partition:
  "distinct (map fst (splitSets rrs)) \<and>
   list_all (\<lambda>(k, rs). rs \<noteq> [] \<and> list_all (\<lambda>r. (rr_name r, rr_type r) = k) rs) (splitSets rrs) \<and>
   mset (concat (map snd (splitSets rrs))) =
     mset [r \<leftarrow> rrs. rr_type r \<noteq> TypeRRSIG \<and> rr_type r \<noteq> TypeOPT]"
  using splitSets_ok [of rrs] splitSets_mset [of rrs]
  by (auto simp: sets_ok_def list_all_iff rrset_of_def skipped_def)

lemma yields_sign_set:
  assumes "\<And>t k rs w r. fst (sec_Sign lib t k rs w) = Inr r \<Longrightarrow> rr_type r = TypeRRSIG"
    and "\<And>sig. zone_DnsKeySig z = Some sig \<Longrightarrow> rr_type sig = TypeRRSIG"
  shows "yields (list_all skipped) (sign_set lib qname z rs)"
proof -
  have signs: "yields (\<lambda>res. \<forall>r. res = Inr r \<longrightarrow> skipped r) (sign lib rs name key ttl)"
    for rs name key ttl
    unfolding sign_def Let_def
    by (auto intro!: yields_intros split: key_kind.splits PrivateKey.splits)
      (auto simp: yields_def wp_rules skipped_def dest!: assms(1))
  have sig: "skipped sig" if "zone_DnsKeySig z = Some sig" for sig
    using assms(2) [OF that] by (simp add: skipped_def)
  show ?thesis
    unfolding sign_set_def
    by (auto intro!: yields_intros yields_Bind_with [OF signs] sig
        split: list.splits option.splits sum.splits)
qed

text \<open>What is left of a section when signatures and the OPT record are dropped.\<close>

abbreviation live :: "dns_RR list \<Rightarrow> dns_RR list" where
  "live rrs \<equiv> filter (\<lambda>r. \<not> skipped r) rrs"

lemma yields_Sign:
  assumes "\<And>m w. mset (fst (sec_map_order lib m w)) = mset m"
    and "\<And>t k rs w r. fst (sec_Sign lib t k rs w) = Inr r \<Longrightarrow> rr_type r = TypeRRSIG"
    and "\<And>sig. zone_DnsKeySig z = Some sig \<Longrightarrow> rr_type sig = TypeRRSIG"
  shows "yields (\<lambda>res. mset (live res) = mset (live rrs)) (Sign lib rrs qname z)"
proof -
  have loop: "yields (\<lambda>res. mset (live res) = mset (live acc) + mset (live (concat (map snd sets))))
      (ForEach sets (\<lambda>(_, rrset) res.
         Bind (sign_set lib qname z rrset) (\<lambda>sigs. Return (res @ rrset @ sigs))) acc)"
    for sets :: rr_sets and acc
  proof (induction sets arbitrary: acc)
    case (Cons s sets)
    obtain k rs where s: "s = (k, rs)" by fastforce
    have "yields (\<lambda>res. mset (live res) = mset (live acc) + mset (live rs))
        (Bind (sign_set lib qname z rs) (\<lambda>sigs. Return (acc @ rs @ sigs)))"
      by (rule yields_Bind_with [OF yields_sign_set [OF assms(2,3)]])
        (auto intro!: yields_Return simp: filter_empty_conv list_all_iff)
    then show ?case unfolding s ForEach.simps prod.case
      by (rule yields_Bind_with) (rule yields_mono [OF Cons.IH], simp)
  qed (auto intro: yields_Return)
  have "mset (live (concat (map snd sets))) = mset (live rrs)"
    if "mset sets = mset (splitSets rrs)" for sets
  proof -
    have "mset (concat (map snd sets)) = mset (concat (map snd (splitSets rrs)))"
      using that by (metis mset_concat mset_map sum_mset_sum_list)
    then show ?thesis by (simp add: splitSets_mset multiset_eq_iff)
  qed
  then show ?thesis
    unfolding Sign_def yields_def wp_Bind wp_Extern
    using assms(1) by (intro allI wp_strengthen [OF yieldsD [OF loop]]) auto
qed

text \<open>
  C10. Signing a section keeps its records: whatever order the sets are visited in, the signed section
  holds every record of the section (signatures and the OPT record apart) exactly as often as before,
  and all it adds are signatures.
\<close>

theorem Sign_keeps_records:
  assumes "\<And>m w. mset (fst (sec_map_order lib m w)) = mset m"
    and "\<And>t k rs w r. fst (sec_Sign lib t k rs w) = Inr r \<Longrightarrow> rr_type r = TypeRRSIG"
    and "\<And>sig. zone_DnsKeySig z = Some sig \<Longrightarrow> rr_type sig = TypeRRSIG"
  shows "wp AnyPanic (Sign lib rrs qname z)
           (\<lambda>res _. mset (filter (\<lambda>r. \<not> skipped r) res) = mset (filter (\<lambda>r. \<not> skipped r) rrs)) w"
  by (rule yieldsD [OF yields_Sign [OF assms]])

text \<open>A signer for examples: it completes the template with a one-letter signature.\<close>

definition example_sec_lib :: "'w sec_lib" where
  "example_sec_lib = \<lparr>sec_map_order = (\<lambda>m w. (m, w)),
     sec_Sign = (\<lambda>t _ _ w. (if rr_type t = TypeRRSIG then Inr t else Inl ''not a signature'', w)),
     sec_KeyTag = (\<lambda>_. 1)\<rparr>"

definition unsigned_zone :: Zone where
  "unsigned_zone = \<lparr>zone_Name = ''example.com.'', zone_Config = \<lparr>zc_DomainId = [], zc_SOA = None,
     zc_DnsSec = True, zc_CnameFlattening = False\<rparr>, zone_Locations = {},
     zone_ZSK = Some \<lparr>zk_DnsKey = RR \<lparr>hdr_Name = ''example.com.'', hdr_Rrtype = TypeDNSKEY,
        hdr_Class = ClassINET, hdr_Ttl = 3600\<rparr> (RDNSKEY \<lparr>key_Flags = 256, key_Protocol = 3,
        key_Algorithm = 13, key_PublicKey = ''k''\<rparr>), zk_PrivateKey = EcdsaKey 0,
        zk_KeyInception = 0, zk_KeyExpiration = 1\<rparr>,
     zone_KSK = None, zone_DnsKeySig = None, zone_CacheTimeout = 0\<rparr>"

definition example_A :: "string \<Rightarrow> dns_RR" where
  "example_A name = RR \<lparr>hdr_Name = name, hdr_Rrtype = TypeA, hdr_Class = ClassINET, hdr_Ttl = 300\<rparr>
     (RA (Some [1, 2, 3, 4]))"

theorem Sign_keeps_records_witness:
  "wp AnyPanic (Sign example_sec_lib [example_A ''x.''] ''x.'' unsigned_zone)
     (\<lambda>res _. size (mset (filter (\<lambda>r. \<not> skipped r) res)) = 1) (0 :: nat)"
proof -
  let ?lib = "example_sec_lib :: nat sec_lib" and ?rrs = "[example_A ''x.'']"
  have "mset (fst (sec_map_order ?lib m w)) = mset m" for m w by (simp add: example_sec_lib_def)
  moreover have "fst (sec_Sign ?lib t k rs w) = Inr r \<Longrightarrow> rr_type r = TypeRRSIG" for t k rs w r
    by (simp add: example_sec_lib_def split: if_splits)
  moreover have "zone_DnsKeySig unsigned_zone = Some sig \<Longrightarrow> rr_type sig = TypeRRSIG" for sig
    by (simp add: unsigned_zone_def)
  ultimately have "wp AnyPanic (Sign ?lib ?rrs ''x.'' unsigned_zone)
      (\<lambda>res _. mset (filter (\<lambda>r. \<not> skipped r) res) = mset (filter (\<lambda>r. \<not> skipped r) ?rrs)) (0 :: nat)"
    by (rule Sign_keeps_records)
  then show ?thesis
    by (rule wp_strengthen) (simp add: example_A_def skipped_def type_codes)
qed

end
