(* ===== verification/Request.thy ===== *)
theory Request
  imports Healthcheck
begin

text \<open>
  \<open>handler/request.go\<close>: the context of one request and the reply built from it. What the request
  library derives from the incoming message (type, DO bit, address of the client, EDNS options) are
  fields of the context; setting the reply code, adding the OPT record, scrubbing and writing the
  message are the fields of \<open>rq_lib\<close>.
\<close>

section \<open>Definitions\<close>

datatype edns_option = EDNS0_SUBNET net_IP string | OtherOption

record dns_Msg =
  msg_Rcode :: int
  msg_Authoritative :: bool
  msg_RecursionAvailable :: bool
  msg_Compress :: bool
  msg_Question :: "(string \<times> uint16) list"
  msg_Answer :: "dns_RR list"
  msg_Ns :: "dns_RR list"
  msg_Extra :: "dns_RR list"
  msg_Edns0 :: "edns_option list option"

definition new_Msg :: dns_Msg where
  "new_Msg = \<lparr>msg_Rcode = 0, msg_Authoritative = False, msg_RecursionAvailable = False,
     msg_Compress = False, msg_Question = [], msg_Answer = [], msg_Ns = [], msg_Extra = [],
     msg_Edns0 = None\<rparr>"

record RequestContext =
  rc_Req :: "dns_Msg option"
  rc_QType :: uint16
  rc_Type :: string
  rc_Do :: bool
  rc_IP :: string
  rc_StartTime :: int
  rc_LogData :: "string \<rightharpoonup> log_value"
  rc_Auth :: bool
  rc_Answer :: "dns_RR list"
  rc_Authority :: "dns_RR list"
  rc_Additional :: "dns_RR list"
  rc_SourceIp :: net_IP
  rc_SourceSubnet :: string
  rc_name :: string

text \<open>A writer of replies: \<open>net_sent\<close> lists the messages handed to \<open>WriteMsg\<close>, oldest first.\<close>

record 'w net =
  net_sent :: "dns_Msg list"
  net_world :: 'w

record 'w rq_lib =
  rq_ParseIP :: "string \<Rightarrow> net_IP"
  rq_SetRcode :: "dns_Msg \<Rightarrow> dns_Msg option \<Rightarrow> int \<Rightarrow> dns_Msg"
  rq_SizeAndDo :: "dns_Msg option \<Rightarrow> dns_Msg \<Rightarrow> dns_Msg"
  rq_Scrub :: "dns_Msg option \<Rightarrow> dns_Msg \<Rightarrow> dns_Msg"
  rq_WriteMsg :: "dns_Msg \<Rightarrow> 'w \<Rightarrow> go_error option \<times> 'w"
  rq_Close :: "'w \<Rightarrow> 'w"

text \<open>The loop over the options stops at the first client subnet.\<close>

fun find_subnet :: "edns_option list \<Rightarrow> (net_IP \<times> string) option" where
  "find_subnet [] = None"
| "find_subnet (EDNS0_SUBNET addr txt # os) = Some (addr, txt)"
| "find_subnet (OtherOption # os) = find_subnet os"

definition edns_subnet :: "dns_Msg option \<Rightarrow> (net_IP \<times> string) option" where
  "edns_subnet req =
     (case req of None \<Rightarrow> None
      | Some m \<Rightarrow> (case msg_Edns0 m of None \<Rightarrow> None | Some os \<Rightarrow> find_subnet os))"

definition sourceIp :: "'w rq_lib \<Rightarrow> RequestContext \<Rightarrow> net_IP" where
  "sourceIp lib context =
     (case edns_subnet (rc_Req context) of
        Some (addr, _) \<Rightarrow> addr
      | None \<Rightarrow> rq_ParseIP lib (rc_IP context))"

definition sourceSubnet :: "RequestContext \<Rightarrow> string" where
  "sourceSubnet context =
     (case edns_subnet (rc_Req context) of Some (_, txt) \<Rightarrow> txt | None \<Rightarrow> [])"

definition RawName :: "RequestContext \<Rightarrow> string \<times> RequestContext" where
  "RawName context =
     (if rc_name context \<noteq> [] then (rc_name context, context)
      else let n = (case rc_Req context of
                      None \<Rightarrow> ''.''
                    | Some m \<Rightarrow> (case msg_Question m of [] \<Rightarrow> ''.'' | q # _ \<Rightarrow> ToLower (fst q)))
           in (n, context\<lparr>rc_name := n\<rparr>))"

abbreviation raw_name :: "RequestContext \<Rightarrow> string" where
  "raw_name context \<equiv> fst (RawName context)"

text \<open>
  \<open>NewRequestContext\<close>; \<open>qtype\<close>, \<open>typ\<close>, \<open>dnssec_ok\<close> and \<open>client\<close> are what the request library reports for the
  message and the writer, \<open>now\<close> the clock.
\<close>

definition NewRequestContext ::
  "'w rq_lib \<Rightarrow> int \<Rightarrow> uint16 \<Rightarrow> string \<Rightarrow> bool \<Rightarrow> string \<Rightarrow> dns_Msg \<Rightarrow> RequestContext" where
  "NewRequestContext lib now qtype typ dnssec_ok client r =
     (let c0 = \<lparr>rc_Req = Some r, rc_QType = qtype, rc_Type = typ, rc_Do = dnssec_ok, rc_IP = client,
            rc_StartTime = now, rc_LogData = Map.empty, rc_Auth = True, rc_Answer = [],
            rc_Authority = [], rc_Additional = [], rc_SourceIp = None, rc_SourceSubnet = [],
            rc_name = []\<rparr>;
          c1 = c0\<lparr>rc_SourceIp := sourceIp lib c0\<rparr>;
          c2 = c1\<lparr>rc_SourceSubnet := sourceSubnet c1\<rparr>;
          (n, c3) = RawName c2
      in c3\<lparr>rc_LogData :=
           [''source_ip'' \<mapsto> LIp (rc_SourceIp c3), ''record'' \<mapsto> LStr n,
            ''type'' \<mapsto> LStr (rc_Type c3), ''client_subnet'' \<mapsto> LStr (rc_SourceSubnet c3),
            ''domain_uuid'' \<mapsto> LStr []]\<rparr>)"

definition reply_Msg :: "'w rq_lib \<Rightarrow> RequestContext \<Rightarrow> int \<Rightarrow> dns_Msg" where
  "reply_Msg lib context rcode =
     (let m = new_Msg\<lparr>msg_Authoritative := rc_Auth context, msg_RecursionAvailable := False,
            msg_Compress := True\<rparr>;
          m = rq_SetRcode lib m (rc_Req context) rcode;
          m = m\<lparr>msg_Answer := msg_Answer m @ rc_Answer context,
                msg_Ns := msg_Ns m @ rc_Authority context,
                msg_Extra := msg_Extra m @ rc_Additional context\<rparr>;
          m = rq_SizeAndDo lib (rc_Req context) m
      in rq_Scrub lib (rc_Req context) m)"

definition Response :: "'w rq_lib \<Rightarrow> RequestContext \<Rightarrow> int \<Rightarrow> ('w net, unit) go" where
  "Response lib context rcode =
     (let m = reply_Msg lib context rcode
      in Seq (Modify (\<lambda>s. s\<lparr>net_sent := net_sent s @ [m]\<rparr>))
         (Bind (Zoom net_world (\<lambda>w s. s\<lparr>net_world := w\<rparr>) (Extern (rq_WriteMsg lib m))) (\<lambda>err.
          if err \<noteq> None then Zoom net_world (\<lambda>w s. s\<lparr>net_world := w\<rparr>) (Modify (rq_Close lib))
          else Return ())))"

section \<open>Lemmas\<close>

text \<open>The name is computed once: reading it again gives the same, from the context it left.\<close>

lemma RawName_cached: "RawName context = (n, c) \<Longrightarrow> raw_name c = n"
  by (auto simp: RawName_def Let_def split: if_splits)

lemma raw_name_cong [simp]:
  "raw_name (c\<lparr>rc_Answer := a\<rparr>) = raw_name c"
  "raw_name (c\<lparr>rc_Authority := a\<rparr>) = raw_name c"
  "raw_name (c\<lparr>rc_Additional := a\<rparr>) = raw_name c"
  "raw_name (c\<lparr>rc_LogData := l\<rparr>) = raw_name c"
  by (simp_all add: RawName_def Let_def)

lemma Response_sends:
  "wp NoPanic (Response lib context rcode)
     (\<lambda>_ s'. net_sent s' = net_sent s @ [reply_Msg lib context rcode]) s"
  by (simp add: Response_def Let_def wp_rules)

section \<open>Properties\<close>

text \<open>All client-subnet options of a message, in order.\<close>

definition client_subnets :: "dns_Msg \<Rightarrow> (net_IP \<times> string) list" where
  "client_subnets r =
     [(addr, text). EDNS0_SUBNET addr text \<leftarrow> (case msg_Edns0 r of None \<Rightarrow> [] | Some os \<Rightarrow> os)]"

lemma edns_subnet_first:
  "edns_subnet (Some r) = (case client_subnets r of [] \<Rightarrow> None | x # _ \<Rightarrow> Some x)"
proof -
  have "find_subnet os = (case [(addr, text). EDNS0_SUBNET addr text \<leftarrow> os] of
      [] \<Rightarrow> None | x # _ \<Rightarrow> Some x)" for os
    by (induction os rule: find_subnet.induct) auto
  then show ?thesis by (simp add: edns_subnet_def client_subnets_def split: option.split)
qed

text \<open>
  C32. The address a request is attributed to is that of the first client-subnet option of the
  message, whatever other options precede it, and the address of the connection when there is none;
  the name looked up is the question's in lower case, and it is the name that is logged.
\<close>

theorem NewRequestContext_source:
  "let c = NewRequestContext lib now qtype typ dnssec_ok client r
   in rc_SourceIp c =
        (case client_subnets r of [] \<Rightarrow> rq_ParseIP lib client | (addr, _) # _ \<Rightarrow> addr) \<and>
      rc_SourceSubnet c = (case client_subnets r of [] \<Rightarrow> [] | (_, text) # _ \<Rightarrow> text) \<and>
      raw_name c = (case msg_Question r of [] \<Rightarrow> ''.'' | q # _ \<Rightarrow> ToLower (fst q)) \<and>
      rc_LogData c ''record'' = Some (LStr (raw_name c))"
  by (cases "client_subnets r"; cases "msg_Question r")
    (simp_all add: NewRequestContext_def Let_def sourceIp_def sourceSubnet_def edns_subnet_first
      RawName_def split: prod.splits)

end
