(* ===== verification/Geo_Ip.thy ===== *)
theory Geo_Ip
  imports Complex_Main Mask_Stage
begin

text \<open>
  \<open>handler/geoip.go\<close>: looking up the country, the autonomous system and the coordinates of an
  address, and the three filters that narrow the mask of a record set to the addresses near the
  client. The MaxMind reader is a parameter: a reader is a handle (\<open>None\<close> is the nil pointer), and
  the record \<open>geo_lib\<close> holds the results of its methods, which depend on an immutable file only.
\<close>

section \<open>State, library and lookups\<close>

type_synonym mm_reader = nat

record GeoIpConfig =
  gc_Enable :: bool
  gc_CountryDB :: string
  gc_ASNDB :: string

record GeoIp =
  geo_Enable :: bool
  geo_CountryDB :: "mm_reader option"
  geo_ASNDB :: "mm_reader option"

text \<open>
  \<open>mm_asn\<close> takes the possibly nil reader, because \<open>GetASN\<close> does not test it; what a method call on
  the nil reader does is the library's business. \<open>mm_decode\<close> gives the value left in the longitude
  variable, whose decoding error is dropped.
\<close>

record geo_lib =
  mm_Open :: "string \<Rightarrow> go_error + mm_reader"
  mm_country :: "mm_reader \<Rightarrow> net_IP \<Rightarrow> go_error + string"
  mm_latitude :: "mm_reader \<Rightarrow> net_IP \<Rightarrow> go_error + (real \<times> nat)"
  mm_decode :: "mm_reader \<Rightarrow> nat \<Rightarrow> real"
  mm_asn :: "mm_reader option \<Rightarrow> net_IP \<Rightarrow> go_panic + (go_error + uint)"

definition opened :: "go_error + mm_reader \<Rightarrow> mm_reader option" where
  "opened r = (case r of Inl _ \<Rightarrow> None | Inr db \<Rightarrow> Some db)"

definition NewGeoIp :: "geo_lib \<Rightarrow> GeoIpConfig \<Rightarrow> GeoIp" where
  "NewGeoIp lib config =
     (if gc_Enable config
      then \<lparr>geo_Enable = True, geo_CountryDB = opened (mm_Open lib (gc_CountryDB config)),
            geo_ASNDB = opened (mm_Open lib (gc_ASNDB config))\<rparr>
      else \<lparr>geo_Enable = False, geo_CountryDB = None, geo_ASNDB = None\<rparr>)"

definition GetCountry :: "geo_lib \<Rightarrow> GeoIp \<Rightarrow> net_IP \<Rightarrow> string \<times> go_error option" where
  "GetCountry lib g ip =
     (case geo_CountryDB g of
        None \<Rightarrow> ([], None)
      | Some db \<Rightarrow>
          if \<not> geo_Enable g then ([], None)
          else case mm_country lib db ip of
                 Inl err \<Rightarrow> ([], Some err)
               | Inr isoCode \<Rightarrow> (isoCode, None))"

definition GetASN :: "geo_lib \<Rightarrow> GeoIp \<Rightarrow> net_IP \<Rightarrow> go_panic + (uint \<times> go_error option)" where
  "GetASN lib g ip =
     (case mm_asn lib (geo_ASNDB g) ip of
        Inl p \<Rightarrow> Inl p
      | Inr (Inl err) \<Rightarrow> Inr (0, Some err)
      | Inr (Inr asn) \<Rightarrow> Inr (asn, None))"

definition GetCoordinates ::
  "geo_lib \<Rightarrow> GeoIp \<Rightarrow> net_IP \<Rightarrow> real \<times> real \<times> go_error option" where
  "GetCoordinates lib g ip =
     (case geo_CountryDB g of
        None \<Rightarrow> (0, 0, None)
      | Some db \<Rightarrow>
          if \<not> geo_Enable g then (0, 0, None)
          else case mm_latitude lib db ip of
                 Inl err \<Rightarrow> (0, 0, Some err)
               | Inr (lat, off) \<Rightarrow> (lat, mm_decode lib db off, None))"

section \<open>Distances\<close>

text \<open>
  64-bit floating-point numbers as reals without rounding, with the one special value the
  computation could meet, the result of a square root of a negative number.
\<close>

datatype float64 = NaN | Fin real

fun flt :: "float64 \<Rightarrow> float64 \<Rightarrow> bool" where
  "flt (Fin x) (Fin y) = (x < y)"
| "flt _ _ = False"

fun feq :: "float64 \<Rightarrow> float64 \<Rightarrow> bool" where
  "feq (Fin x) (Fin y) = (x = y)"
| "feq _ _ = False"

definition fsqrt :: "real \<Rightarrow> float64" where
  "fsqrt x = (if x < 0 then NaN else Fin (sqrt x))"

text \<open>\<open>math.Atan2\<close> on non-negative arguments, the only ones that reach it.\<close>

fun fatan2 :: "float64 \<Rightarrow> float64 \<Rightarrow> float64" where
  "fatan2 (Fin y) (Fin x) =
     Fin (if x = 0 then (if y = 0 then 0 else pi / 2) else arctan (y / x))"
| "fatan2 _ _ = NaN"

fun fscale :: "real \<Rightarrow> float64 \<Rightarrow> float64" where
  "fscale c (Fin x) = Fin (c * x)"
| "fscale c NaN = NaN"

definition haversine :: "real \<Rightarrow> real \<Rightarrow> real \<Rightarrow> real \<Rightarrow> real" where
  "haversine slat slong dlat dlong =
     (let deltaLat = (dlat - slat) * pi / 180;
          deltaLong = (dlong - slong) * pi / 180;
          slat = slat * pi / 180;
          dlat = dlat * pi / 180
      in sin (deltaLat / 2) * sin (deltaLat / 2) +
         cos slat * cos dlat * sin (deltaLong / 2) * sin (deltaLong / 2))"

definition getDistance :: "real \<Rightarrow> real \<Rightarrow> real \<Rightarrow> real \<Rightarrow> float64" where
  "getDistance slat slong dlat dlong =
     (let a = haversine slat slong dlat dlong
      in fscale 2 (fatan2 (fsqrt a) (fsqrt (1 - a))))"

section \<open>The filters\<close>

text \<open>
  \<open>GetSameCountry\<close>. The first loop keeps the white addresses of the source's country and greys the
  other white ones; when none was kept, the second gives the addresses without a country (or with
  the empty country) back. Each loop reads the data of the positions it does not skip.
\<close>

definition country_loop1 :: "string \<Rightarrow> IP_RR list \<Rightarrow> ip_mask list \<Rightarrow> ip_mask list" where
  "country_loop1 source ips marks =
     map (\<lambda>i. if marks ! i = IpMaskWhite
              then (if source \<in> set (ip_Country (ips ! i)) then IpMaskWhite else IpMaskGrey)
              else IpMaskBlack) [0..<length marks]"

definition country_loop2 :: "IP_RR list \<Rightarrow> ip_mask list \<Rightarrow> ip_mask list" where
  "country_loop2 ips marks =
     map (\<lambda>i. if marks ! i \<noteq> IpMaskBlack
              then (if ip_Country (ips ! i) = [] \<or> [] \<in> set (ip_Country (ips ! i))
                    then IpMaskWhite else IpMaskBlack)
              else IpMaskBlack) [0..<length marks]"

definition reads_beyond :: "(ip_mask \<Rightarrow> bool) \<Rightarrow> IP_RR list \<Rightarrow> ip_mask list \<Rightarrow> bool" where
  "reads_beyond P ips marks \<longleftrightarrow> (\<exists>i < length marks. P (marks ! i) \<and> length ips \<le> i)"

definition GetSameCountry ::
  "geo_lib \<Rightarrow> GeoIp \<Rightarrow> net_IP \<Rightarrow> IP_RR list \<Rightarrow> ip_mask list \<Rightarrow> go_panic + ip_mask list" where
  "GetSameCountry lib g sourceIp ips marks =
     (if \<not> geo_Enable g \<or> geo_CountryDB g = None then Inr marks
      else case GetCountry lib g sourceIp of
        (_, Some _) \<Rightarrow> Inr marks
      | (sourceCountry, None) \<Rightarrow>
          if sourceCountry \<noteq> [] \<and> reads_beyond (\<lambda>x. x = IpMaskWhite) ips marks
          then Inl IndexOutOfRange
          else
            (let marks1 = (if sourceCountry \<noteq> [] then country_loop1 sourceCountry ips marks
                           else marks);
                 passed = (if sourceCountry \<noteq> [] then length (whites marks1) else 0)
             in if passed > 0 then Inr marks1
                else if reads_beyond (\<lambda>x. x \<noteq> IpMaskBlack) ips marks1 then Inl IndexOutOfRange
                else Inr (country_loop2 ips marks1)))"

definition asn_loop1 :: "uint \<Rightarrow> IP_RR list \<Rightarrow> ip_mask list \<Rightarrow> ip_mask list" where
  "asn_loop1 source ips marks =
     map (\<lambda>i. if marks ! i = IpMaskWhite
              then (if source \<in> set (ip_ASN (ips ! i)) then IpMaskWhite else IpMaskGrey)
              else IpMaskBlack) [0..<length marks]"

definition asn_loop2 :: "IP_RR list \<Rightarrow> ip_mask list \<Rightarrow> ip_mask list" where
  "asn_loop2 ips marks =
     map (\<lambda>i. if marks ! i \<noteq> IpMaskBlack
              then (if ip_ASN (ips ! i) = [] \<or> 0 \<in> set (ip_ASN (ips ! i))
                    then IpMaskWhite else IpMaskBlack)
              else IpMaskBlack) [0..<length marks]"

definition GetSameASN ::
  "geo_lib \<Rightarrow> GeoIp \<Rightarrow> net_IP \<Rightarrow> IP_RR list \<Rightarrow> ip_mask list \<Rightarrow> go_panic + ip_mask list" where
  "GetSameASN lib g sourceIp ips marks =
     (if \<not> geo_Enable g \<or> geo_ASNDB g = None then Inr marks
      else case GetASN lib g sourceIp of
        Inl p \<Rightarrow> Inl p
      | Inr (_, Some _) \<Rightarrow> Inr marks
      | Inr (sourceASN, None) \<Rightarrow>
          if sourceASN \<noteq> 0 \<and> reads_beyond (\<lambda>x. x = IpMaskWhite) ips marks
          then Inl IndexOutOfRange
          else
            (let marks1 = (if sourceASN \<noteq> 0 then asn_loop1 sourceASN ips marks else marks);
                 passed = (if sourceASN \<noteq> 0 then length (whites marks1) else 0)
             in if passed > 0 then Inr marks1
                else if reads_beyond (\<lambda>x. x \<noteq> IpMaskBlack) ips marks1 then Inl IndexOutOfRange
                else Inr (asn_loop2 ips marks1)))"

text \<open>
  \<open>GetMinimumDistance\<close>. The distances are appended for the white positions only, but read back by
  the position in the mask.
\<close>

definition distances ::
  "geo_lib \<Rightarrow> GeoIp \<Rightarrow> real \<Rightarrow> real \<Rightarrow> IP_RR list \<Rightarrow> ip_mask list \<Rightarrow> float64 list" where
  "distances lib g slat slong ips marks =
     map (\<lambda>i. case GetCoordinates lib g (ip_Ip (ips ! i)) of
                (dlat, dlong, _) \<Rightarrow> getDistance slat slong dlat dlong) (whites marks)"

definition min_distance :: "float64 list \<Rightarrow> float64" where
  "min_distance dists = foldl (\<lambda>m d. if flt d m then d else m) (Fin 1000) dists"

definition distance_loop :: "float64 list \<Rightarrow> float64 \<Rightarrow> ip_mask list \<Rightarrow> ip_mask list" where
  "distance_loop dists minDistance marks =
     map (\<lambda>i. if marks ! i = IpMaskWhite
              then (if feq (dists ! i) minDistance then IpMaskWhite else IpMaskGrey)
              else IpMaskBlack) [0..<length marks]"

definition GetMinimumDistance ::
  "geo_lib \<Rightarrow> GeoIp \<Rightarrow> net_IP \<Rightarrow> IP_RR list \<Rightarrow> ip_mask list \<Rightarrow> go_panic + ip_mask list" where
  "GetMinimumDistance lib g sourceIp ips marks =
     (if \<not> geo_Enable g \<or> geo_CountryDB g = None then Inr marks
      else case GetCoordinates lib g sourceIp of
        (_, _, Some _) \<Rightarrow> Inr marks
      | (slat, slong, None) \<Rightarrow>
          if reads_beyond (\<lambda>x. x = IpMaskWhite) ips marks then Inl IndexOutOfRange
          else
            (let dists = distances lib g slat slong ips marks;
                 minDistance = min_distance dists
             in if \<exists>i \<in> set (whites marks). length dists \<le> i then Inl IndexOutOfRange
                else
                  (let marks1 = distance_loop dists minDistance marks
                   in if whites marks1 \<noteq> [] then Inr marks1
                      else Inr (map (\<lambda>x. if x = IpMaskGrey then IpMaskWhite else x) marks1))))"

section \<open>The filters are stages\<close>

lemma stage_ok_country_loop1: "stage_ok marks (country_loop1 c ips marks)"
  unfolding country_loop1_def by (rule stage_ok_map) simp

lemma stage_ok_country_loop2: "stage_ok marks (country_loop2 ips marks)"
  unfolding country_loop2_def by (rule stage_ok_map) simp

lemma stage_ok_asn_loop1: "stage_ok marks (asn_loop1 c ips marks)"
  unfolding asn_loop1_def by (rule stage_ok_map) simp

lemma stage_ok_asn_loop2: "stage_ok marks (asn_loop2 ips marks)"
  unfolding asn_loop2_def by (rule stage_ok_map) simp

lemma stage_ok_distance_loop: "stage_ok marks (distance_loop ds d marks)"
  unfolding distance_loop_def by (rule stage_ok_map) simp

lemma stage_ok_grey_to_white:
  "stage_ok marks marks1 \<Longrightarrow>
     stage_ok marks (map (\<lambda>x. if x = IpMaskGrey then IpMaskWhite else x) marks1)"
  by (simp add: stage_ok_def)

lemmas stage_ok_loops = stage_ok_country_loop1 stage_ok_country_loop2 stage_ok_asn_loop1
  stage_ok_asn_loop2 stage_ok_distance_loop
  stage_ok_trans [OF stage_ok_country_loop1 stage_ok_country_loop2]
  stage_ok_trans [OF stage_ok_asn_loop1 stage_ok_asn_loop2]
  stage_ok_grey_to_white [OF stage_ok_distance_loop]

interpretation same_country: pure_stage "GetSameCountry lib g sourceIp ips"
  for lib g sourceIp ips
  by unfold_locales
    (auto simp: GetSameCountry_def Let_def stage_ok_loops split: if_splits option.splits prod.splits)

interpretation same_asn: pure_stage "GetSameASN lib g sourceIp ips"
  for lib g sourceIp ips
  by unfold_locales
    (auto simp: GetSameASN_def Let_def stage_ok_loops
      split: if_splits option.splits prod.splits sum.splits)

interpretation min_dist: pure_stage "GetMinimumDistance lib g sourceIp ips"
  for lib g sourceIp ips
  by unfold_locales
    (auto simp: GetMinimumDistance_def Let_def stage_ok_loops
      split: if_splits option.splits prod.splits)

interpretation asn_country:
  two_stages "\<lambda>m. Lift (GetSameASN lib g sourceIp ips m)"
    "\<lambda>m. Lift (GetSameCountry lib g sourceIp ips m)"
  for lib g sourceIp ips
  by unfold_locales

section \<open>Lemmas on distances\<close>

text \<open>The haversine term is half the distance of the cosine of the central angle from one.\<close>

lemma haversine_dot:
  "haversine slat slong dlat dlong =
     (1 - (sin (slat * pi / 180) * sin (dlat * pi / 180) +
           cos (slat * pi / 180) * cos (dlat * pi / 180) * cos ((dlong - slong) * pi / 180))) / 2"
proof -
  let ?s = "slat * pi / 180" and ?d = "dlat * pi / 180" and ?l = "(dlong - slong) * pi / 180"
  have half: "sin (x / 2) * sin (x / 2) = (1 - cos x) / 2" for x :: real
    using cos_double_sin [of "x / 2"] by (simp add: power2_eq_square)
  have diff: "(dlat - slat) * pi / 180 = ?d - ?s"
    by (simp add: algebra_simps diff_divide_distrib)
  have "cos ((dlat - slat) * pi / 180) = cos ?s * cos ?d + sin ?s * sin ?d"
    unfolding diff cos_diff by (simp only: mult.commute)
  then have "haversine slat slong dlat dlong =
      (1 - (cos ?s * cos ?d + sin ?s * sin ?d)) / 2 + cos ?s * cos ?d * ((1 - cos ?l) / 2)"
    by (simp add: haversine_def Let_def half mult.assoc)
  then show ?thesis by (simp add: field_simps)
qed

lemma unit_dot_bound:
  "\<bar>sin s * sin d + cos s * cos d * c\<bar> \<le> 1" if "\<bar>c\<bar> \<le> 1" for s d c :: real
proof -
  have "\<bar>cos s * cos d * c\<bar> \<le> \<bar>cos s * cos d\<bar>"
    using that by (simp add: abs_mult mult_left_le)
  then have "\<bar>sin s * sin d + cos s * cos d * c\<bar> \<le> \<bar>sin s * sin d\<bar> + \<bar>cos s * cos d\<bar>" by linarith
  moreover have "2 * \<bar>sin s * sin d\<bar> \<le> (sin s)\<^sup>2 + (sin d)\<^sup>2" "2 * \<bar>cos s * cos d\<bar> \<le> (cos s)\<^sup>2 + (cos d)\<^sup>2"
    using sum_squares_bound [of "\<bar>sin s\<bar>" "\<bar>sin d\<bar>"] sum_squares_bound [of "\<bar>cos s\<bar>" "\<bar>cos d\<bar>"]
    by (simp_all add: abs_mult)
  moreover have "(sin s)\<^sup>2 + (sin d)\<^sup>2 + ((cos s)\<^sup>2 + (cos d)\<^sup>2) = 2"
    using sin_cos_squared_add [of s] sin_cos_squared_add [of d] by linarith
  ultimately show ?thesis by linarith
qed

lemma haversine_bounds: "0 \<le> haversine a b c d" "haversine a b c d \<le> 1"
  using unit_dot_bound [of "cos ((d - b) * pi / 180)" "a * pi / 180" "c * pi / 180"]
  unfolding haversine_dot by (auto simp: abs_le_iff)

text \<open>A white position beyond the number of whites is one that something not white precedes.\<close>

lemma white_beyond_count:
  "(\<exists>i \<in> set (whites marks). length (whites marks) \<le> i) \<longleftrightarrow>
     (\<exists>j < length marks. \<exists>i < j. marks ! i \<noteq> IpMaskWhite \<and> marks ! j = IpMaskWhite)"
proof -
  let ?W = "set (whites marks)"
  have card: "card ?W = length (whites marks)" by (simp add: distinct_card distinct_whites)
  show ?thesis
  proof
    assume "\<exists>i \<in> ?W. length (whites marks) \<le> i"
    then obtain w where w: "w \<in> ?W" "card ?W \<le> w" using card by auto
    have "\<not> {..w} \<subseteq> ?W"
    proof
      assume "{..w} \<subseteq> ?W"
      then have "card {..w} \<le> card ?W" by (intro card_mono) auto
      with w(2) show False by simp
    qed
    then obtain i where "i \<le> w" "i \<notin> ?W" by blast
    with w(1) have "i < w" "marks ! i \<noteq> IpMaskWhite" "w < length marks" "marks ! w = IpMaskWhite"
      by (auto simp: set_whites le_less)
    then show "\<exists>j < length marks. \<exists>i < j. marks ! i \<noteq> IpMaskWhite \<and> marks ! j = IpMaskWhite" by blast
  next
    assume "\<exists>j < length marks. \<exists>i < j. marks ! i \<noteq> IpMaskWhite \<and> marks ! j = IpMaskWhite"
    then obtain i j where ij: "j \<in> ?W" "i < j" "i \<notin> ?W" by (auto simp: set_whites)
    define w where "w = Max ?W"
    have "Max ?W \<in> ?W" using ij(1) by (intro Max_in) auto
    then have w: "w \<in> ?W" "\<forall>x \<in> ?W. x \<le> w" by (simp_all add: w_def)
    then have "?W \<subseteq> {..w} - {i}" using ij(3) by auto
    then have "card ?W \<le> card ({..w} - {i})" by (intro card_mono) auto
    also have "\<dots> = w" using w ij(1,2) by (auto simp: card_Diff_singleton)
    finally show "\<exists>i \<in> ?W. length (whites marks) \<le> i" using w(1) card by auto
  qed
qed

lemma whites_map: "set (whites (map f [0..<n])) = {i. i < n \<and> f i = IpMaskWhite}"
  by (auto simp: set_whites)

section \<open>Properties\<close>

text \<open>A database for examples: every address is in Germany, in one autonomous system.\<close>

definition example_geo_lib :: geo_lib where
  "example_geo_lib = \<lparr>mm_Open = (\<lambda>_. Inr 0), mm_country = (\<lambda>_ _. Inr ''DE''),
     mm_latitude = (\<lambda>_ _. Inr (50, 0)), mm_decode = (\<lambda>_ _. 8),
     mm_asn = (\<lambda>_ _. Inr (Inr 64500))\<rparr>"

definition example_geo :: GeoIp where
  "example_geo = \<lparr>geo_Enable = True, geo_CountryDB = Some 0, geo_ASNDB = Some 0\<rparr>"

definition in_country :: "string \<Rightarrow> IP_RR" where
  "in_country c = zero_IP_RR\<lparr>ip_Country := [c]\<rparr>"

text \<open>
  The distance of two points is always a number between 0 and the half circle: the square roots
  get arguments between 0 and 1 whatever the coordinates are.
\<close>

theorem getDistance_range:
  "\<exists>d. getDistance slat slong dlat dlong = Fin d \<and> 0 \<le> d \<and> d \<le> pi"
proof -
  let ?a = "haversine slat slong dlat dlong"
  have a: "0 \<le> ?a" "?a \<le> 1" by (rule haversine_bounds)+
  have "0 \<le> arctan (sqrt ?a / sqrt (1 - ?a))" "arctan (sqrt ?a / sqrt (1 - ?a)) \<le> pi / 2"
    using a arctan_ubound [of "sqrt ?a / sqrt (1 - ?a)"] by (auto simp: zero_le_arctan_iff)
  with a show ?thesis by (auto simp: getDistance_def Let_def fsqrt_def)
qed

text \<open>
  C30. The country filter keeps, of the white addresses, those that list the country of the client;
  when there is none (or the country is unknown), those that are not blacked out and list no country
  or the empty one. It never panics on a mask as long as the data.
\<close>

theorem GetSameCountry_result:
  assumes "geo_Enable g" "geo_CountryDB g = Some db" "mm_country lib db src = Inr country"
    and "length marks = length ips"
  shows "\<exists>m. GetSameCountry lib g src ips marks = Inr m \<and>
           set (whites m) =
             (let near = {i \<in> set (whites marks). country \<noteq> [] \<and> country \<in> set (ip_Country (ips ! i))};
                  rest = {i. i < length marks \<and>
                     (if country \<noteq> [] then marks ! i = IpMaskWhite else marks ! i \<noteq> IpMaskBlack) \<and>
                     (ip_Country (ips ! i) = [] \<or> [] \<in> set (ip_Country (ips ! i)))}
              in if near \<noteq> {} then near else rest)"
proof -
  let ?near = "{i \<in> set (whites marks). country \<in> set (ip_Country (ips ! i))}"
  let ?m1 = "country_loop1 country ips marks"
  have inside: "\<not> reads_beyond P ips m" if "length m = length marks" for P m
    using assms(4) that by (auto simp: reads_beyond_def)
  have near: "set (whites ?m1) = ?near"
    by (auto simp: country_loop1_def whites_map set_whites split: if_splits)
  have len: "length ?m1 = length marks" by (simp add: country_loop1_def)
  have live: "i < length marks \<Longrightarrow> ?m1 ! i \<noteq> IpMaskBlack \<longleftrightarrow> marks ! i = IpMaskWhite" for i
    by (auto simp: country_loop1_def)
  have rest: "set (whites (country_loop2 ips m)) = {i. i < length m \<and> m ! i \<noteq> IpMaskBlack \<and>
      (ip_Country (ips ! i) = [] \<or> [] \<in> set (ip_Country (ips ! i)))}" for m
    by (auto simp: country_loop2_def whites_map split: if_splits)
  show ?thesis
    using assms(1-3) near inside len live
    by (auto simp: GetSameCountry_def GetCountry_def Let_def rest simp flip: length_greater_0_conv set_empty)
qed

theorem GetSameCountry_result_witness:
  "\<exists>m. GetSameCountry example_geo_lib example_geo None [in_country ''US'', in_country ''DE'']
         [IpMaskWhite, IpMaskWhite] = Inr m \<and> set (whites m) = {1}"
proof -
  let ?ips = "[in_country ''US'', in_country ''DE'']" and ?ms = "[IpMaskWhite, IpMaskWhite]"
  have "{i \<in> set (whites ?ms). ''DE'' \<noteq> [] \<and> ''DE'' \<in> set (ip_Country (?ips ! i))} = {1}"
    by (auto simp: set_whites in_country_def less_Suc_eq)
  moreover have "geo_Enable example_geo" "geo_CountryDB example_geo = Some 0"
    "mm_country example_geo_lib 0 None = Inr ''DE''" "length ?ms = length ?ips"
    by (simp_all add: example_geo_def example_geo_lib_def)
  note GetSameCountry_result [OF this]
  ultimately show ?thesis by (simp add: Let_def)
qed

text \<open>
  C31. The distance filter reads the distances, which it collected for the white addresses only, at
  the positions of the mask: it panics exactly when an address that is not white precedes a white
  one, as after a health check that took an address out.
\<close>

theorem GetMinimumDistance_panics:
  assumes "geo_Enable g" "geo_CountryDB g = Some db" "mm_latitude lib db src = Inr here"
    and "length marks = length ips"
  shows "GetMinimumDistance lib g src ips marks = Inl IndexOutOfRange \<longleftrightarrow>
           (\<exists>j < length marks. \<exists>i < j. marks ! i \<noteq> IpMaskWhite \<and> marks ! j = IpMaskWhite)"
proof -
  have "\<not> reads_beyond P ips marks" for P using assms(4) by (auto simp: reads_beyond_def)
  then show ?thesis
    using assms(1-3) unfolding white_beyond_count [symmetric]
    by (cases here) (auto simp: GetMinimumDistance_def GetCoordinates_def Let_def distances_def)
qed

theorem GetMinimumDistance_panics_witness:
  "GetMinimumDistance example_geo_lib example_geo None [in_country ''US'', in_country ''DE'']
     [IpMaskBlack, IpMaskWhite] = Inl IndexOutOfRange"
proof -
  have "\<exists>j < Suc (Suc 0). \<exists>i < j. [IpMaskBlack, IpMaskWhite] ! i \<noteq> IpMaskWhite \<and>
      [IpMaskBlack, IpMaskWhite] ! j = IpMaskWhite"
    by (intro exI [of _ 1] conjI exI [of _ 0]) simp_all
  then show ?thesis
    using GetMinimumDistance_panics [of example_geo 0 example_geo_lib None "(50, 0)"
        "[IpMaskBlack, IpMaskWhite]" "[in_country ''US'', in_country ''DE'']"]
    by (simp add: example_geo_def example_geo_lib_def)
qed

end
