(* ===== verification/Zone_Store.thy ===== *)
theory Zone_Store
  imports Zones Runes Healthcheck Upstream Dnssec Request Geo_Ip
begin

text \<open>
  The part of \<open>handler/handler.go\<close> that finds and loads data: the tree of zone names
  (\<open>LoadZones\<close>, \<open>FindZone\<close>), zones with their keys (\<open>LoadZone\<close>, \<open>LoadZoneKeys\<close>, \<open>loadKey\<close>) and the
  record of a location (\<open>LoadLocation\<close>, \<open>SetLocation\<close>). Also the state of the handler, over which
  these operations and those of the next theory run.
\<close>

section \<open>The state of the handler\<close>

text \<open>
  The library: the immutable radix tree, the caches (the record cache holds pointers), redis, JSON,
  the zone-file parser and the libraries of the other components. Requests are handled one at a
  time, so the single-flight groups run the function they are given.
\<close>

record ('t, 'w) h_lib =
  lib_radix_New :: 't
  lib_radix_Insert :: "'t \<Rightarrow> string \<Rightarrow> string \<Rightarrow> 't"
  lib_radix_LongestPrefix :: "'t \<Rightarrow> string \<Rightarrow> (string \<times> string) option"
  lib_Fqdn :: "string \<Rightarrow> string"
  lib_Now :: "'w \<Rightarrow> int \<times> 'w"
  lib_ZoneCache_Get :: "string \<Rightarrow> 'w \<Rightarrow> Zone option \<times> 'w"
  lib_ZoneCache_Set :: "string \<Rightarrow> Zone \<Rightarrow> 'w \<Rightarrow> 'w"
  lib_RecordCache_Get :: "string \<Rightarrow> 'w \<Rightarrow> nat option \<times> 'w"
  lib_RecordCache_Set :: "string \<Rightarrow> nat \<Rightarrow> 'w \<Rightarrow> 'w"
  lib_SMembers :: "string \<Rightarrow> 'w \<Rightarrow> (go_error + string list) \<times> 'w"
  lib_GetHKeys :: "string \<Rightarrow> 'w \<Rightarrow> (go_error + string list) \<times> 'w"
  lib_Get :: "string \<Rightarrow> 'w \<Rightarrow> (string \<times> go_error option) \<times> 'w"
  lib_HGet :: "string \<Rightarrow> string \<Rightarrow> 'w \<Rightarrow> (go_error + string) \<times> 'w"
  lib_HSet :: "string \<Rightarrow> string \<Rightarrow> string \<Rightarrow> 'w \<Rightarrow> go_error option \<times> 'w"
  lib_decode_config :: "string \<Rightarrow> ZoneConfig \<Rightarrow> ZoneConfig \<times> go_error option"
  lib_decode_record :: "string \<Rightarrow> Record \<Rightarrow> go_error + Record"
  lib_encode_record :: "Record \<Rightarrow> go_error + string"
  lib_NewRR :: "string \<Rightarrow> go_error + dns_RR option"
  lib_NewPrivateKey :: "dns_RR \<Rightarrow> string \<Rightarrow> go_error + PrivateKey"
  lib_hc :: "'w hc_lib"
  lib_up :: "'w up_lib"
  lib_sec :: "'w sec_lib"
  lib_rq :: "'w rq_lib"
  lib_geo :: geo_lib

record DnsRequestHandlerConfig =
  cfg_Upstream :: "UpstreamConfig list"
  cfg_GeoIp :: GeoIpConfig
  cfg_HealthCheck :: HealthcheckConfig
  cfg_MaxTtl :: int
  cfg_CacheTimeout :: int
  cfg_ZoneReload :: int
  cfg_LogSourceLocation :: bool
  cfg_Redis :: RedisConfig
  cfg_Log :: LogConfig

text \<open>What does not change while the handler runs.\<close>

record ('t, 'w) DnsRequestHandler =
  h_Config :: DnsRequestHandlerConfig
  h_geoip :: GeoIp
  h_healthcheck :: Healthcheck
  h_lib :: "('t, 'w) h_lib"

text \<open>
  What changes: the zone tree, the heap of records with its next free address (the record cache and
  the request loop share records through pointers), the upstream connections, the log queue (a
  channel that \<open>ShutDown\<close> closes), the messages sent, and the world.
\<close>

record ('t, 'w) hstate =
  hs_Zones :: 't
  hs_LastZoneUpdate :: int
  hs_heap :: "nat \<Rightarrow> Record"
  hs_next :: nat
  hs_connections :: "UpstreamConnection list"
  hs_logQueue :: "(string \<rightharpoonup> log_value) list"
  hs_logClosed :: bool
  hs_sent :: "dns_Msg list"
  hs_world :: 'w

type_synonym ('t, 'w, 'a) handler_go = "(('t, 'w) hstate, 'a) go"

definition World :: "('w, 'a) go \<Rightarrow> ('t, 'w, 'a) handler_go" where
  "World = Zoom hs_world (\<lambda>w s. s\<lparr>hs_world := w\<rparr>)"

definition Deref :: "nat \<Rightarrow> ('t, 'w, Record) handler_go" where
  "Deref p = Gets (\<lambda>s. hs_heap s p)"

definition Assign :: "nat \<Rightarrow> Record \<Rightarrow> ('t, 'w, unit) handler_go" where
  "Assign p r = Modify (\<lambda>s. s\<lparr>hs_heap := (hs_heap s)(p := r)\<rparr>)"

definition Alloc :: "Record \<Rightarrow> ('t, 'w, nat) handler_go" where
  "Alloc r = Bind (Gets hs_next) (\<lambda>p.
     Seq (Modify (\<lambda>s. s\<lparr>hs_heap := (hs_heap s)(p := r), hs_next := Suc p\<rparr>)) (Return p))"

definition Now :: "('t, 'w) DnsRequestHandler \<Rightarrow> ('t, 'w, int) handler_go" where
  "Now h = World (Extern (lib_Now (h_lib h)))"

definition unix :: "int \<Rightarrow> int" where
  "unix now = now div second"

section \<open>The tree of zone names\<close>

definition LoadZones :: "('t, 'w) DnsRequestHandler \<Rightarrow> ('t, 'w, unit) handler_go" where
  "LoadZones h =
     Bind (Now h) (\<lambda>now.
     Seq (Modify (\<lambda>s. s\<lparr>hs_LastZoneUpdate := now\<rparr>))
     (Bind (World (Extern (lib_SMembers (h_lib h) ''redins:zones''))) (\<lambda>r.
      case r of
        Inl err \<Rightarrow> Return ()
      | Inr zones \<Rightarrow>
          Modify (\<lambda>s. s\<lparr>hs_Zones :=
            foldl (\<lambda>t zone. lib_radix_Insert (h_lib h) t (reverseZone zone) zone)
              (lib_radix_New (h_lib h)) zones\<rparr>))))"

definition find_zone :: "('t, 'w) h_lib \<Rightarrow> 't \<Rightarrow> string \<Rightarrow> string" where
  "find_zone lib zones qname =
     (case lib_radix_LongestPrefix lib zones (reverseZone qname) of
        Some (_, zname) \<Rightarrow> zname
      | None \<Rightarrow> [])"

definition FindZone :: "('t, 'w) DnsRequestHandler \<Rightarrow> string \<Rightarrow> ('t, 'w, string) handler_go" where
  "FindZone h qname = Gets (\<lambda>s. find_zone (h_lib h) (hs_Zones s) qname)"

section \<open>Zones and their keys\<close>

text \<open>\<open>strings.Replace(s, "\n" written with a backslash, newline, -1)\<close>.\<close>

fun unescape_newlines :: "string \<Rightarrow> string" where
  "unescape_newlines (c # d # s) =
     (if c = CHR 0x5C \<and> d = CHR ''n'' then CHR 0x0A # unescape_newlines s
      else c # unescape_newlines (d # s))"
| "unescape_newlines s = s"

definition loadKey ::
  "('t, 'w) DnsRequestHandler \<Rightarrow> string \<Rightarrow> string \<Rightarrow> ('t, 'w, ZoneKey option) handler_go" where
  "loadKey h pub priv =
     Bind (World (Extern (lib_Get (h_lib h) pub))) (\<lambda>(pubStr, _).
     if pubStr = [] then Return None else
     Bind (World (Extern (lib_Get (h_lib h) priv))) (\<lambda>(privStr, _).
     if privStr = [] then Return None else
     case lib_NewRR (h_lib h) pubStr of
       Inl err \<Rightarrow> Return None
     | Inr None \<Rightarrow> Panic TypeAssertion
     | Inr (Some rr) \<Rightarrow>
         (case rr_Data rr of
            RDNSKEY _ \<Rightarrow>
              (case lib_NewPrivateKey (h_lib h) rr (unescape_newlines privStr) of
                 Inl err \<Rightarrow> Return None
               | Inr pk \<Rightarrow>
                   Bind (Now h) (\<lambda>now.
                   Return (Some \<lparr>zk_DnsKey = rr, zk_PrivateKey = pk,
                     zk_KeyInception = word_of_int (unix (now - 3 * 60 * minute)),
                     zk_KeyExpiration = word_of_int (unix (now + 8 * 24 * 60 * minute))\<rparr>)))
          | _ \<Rightarrow> Panic TypeAssertion)))"

definition set_flags :: "uint16 \<Rightarrow> ZoneKey \<Rightarrow> ZoneKey" where
  "set_flags flags key =
     (case rr_Data (zk_DnsKey key) of
        RDNSKEY d \<Rightarrow> key\<lparr>zk_DnsKey := RR (rr_Hdr (zk_DnsKey key)) (RDNSKEY (d\<lparr>key_Flags := flags\<rparr>))\<rparr>
      | _ \<Rightarrow> key)"

definition set_key_ttl :: "uint32 \<Rightarrow> ZoneKey \<Rightarrow> ZoneKey" where
  "set_key_ttl ttl key = key\<lparr>zk_DnsKey := set_ttl ttl (zk_DnsKey key)\<rparr>"

definition no_dnssec :: "Zone \<Rightarrow> Zone" where
  "no_dnssec z = z\<lparr>zone_Config := (zone_Config z)\<lparr>zc_DnsSec := False\<rparr>\<rparr>"

definition LoadZoneKeys :: "('t, 'w) DnsRequestHandler \<Rightarrow> Zone \<Rightarrow> ('t, 'w, Zone) handler_go" where
  "LoadZoneKeys h z =
     (if \<not> zc_DnsSec (zone_Config z) then Return z
      else let prefix = ''redins:zones:'' @ zone_Name z in
        Bind (loadKey h (prefix @ '':zsk:pub'') (prefix @ '':zsk:priv'')) (\<lambda>zsk.
        case zsk of None \<Rightarrow> Return (no_dnssec (z\<lparr>zone_ZSK := None\<rparr>)) | Some zsk0 \<Rightarrow>
        Bind (loadKey h (prefix @ '':ksk:pub'') (prefix @ '':ksk:priv'')) (\<lambda>ksk.
        case ksk of
          None \<Rightarrow> Return (no_dnssec (z\<lparr>zone_ZSK := Some zsk0, zone_KSK := None\<rparr>))
        | Some ksk0 \<Rightarrow>
            (let ksk1 = set_flags 257 ksk0;
                 zsk1 = set_flags 256 zsk0;
                 ttl = rr_ttl (zk_DnsKey ksk1);
                 zsk2 = (if rr_ttl (zk_DnsKey zsk1) \<noteq> ttl then set_key_ttl ttl zsk1 else zsk1);
                 z1 = z\<lparr>zone_ZSK := Some zsk2, zone_KSK := Some ksk1\<rparr>
             in Bind (World (sign (lib_sec (h_lib h)) [zk_DnsKey zsk2, zk_DnsKey ksk1]
                        (zone_Name z) ksk1 ttl)) (\<lambda>res.
                case res of
                  Inl err \<Rightarrow> Return (no_dnssec z1)
                | Inr rrsig \<Rightarrow> Return (z1\<lparr>zone_DnsKeySig := Some rrsig\<rparr>))))))"

text \<open>The function a zone is loaded with when the cache has no current one.\<close>

definition fetch_zone ::
  "('t, 'w) DnsRequestHandler \<Rightarrow> string \<Rightarrow> ('t, 'w, Zone option) handler_go" where
  "fetch_zone h zone =
     Bind (World (Extern (lib_GetHKeys (h_lib h) (''redins:zones:'' @ zone)))) (\<lambda>r.
     case r of
       Inl err \<Rightarrow> Return None
     | Inr locations \<Rightarrow>
         Bind (World (Extern (lib_Get (h_lib h) (''redins:zones:'' @ zone @ '':config''))))
           (\<lambda>(config, err).
         Bind (Now h) (\<lambda>now1.
         Bind (Lift (NewZone (lib_Fqdn (h_lib h)) (lib_decode_config (h_lib h)) (unix now1)
                 zone locations config)) (\<lambda>z0.
         Bind (LoadZoneKeys h z0) (\<lambda>z1.
         Bind (Now h) (\<lambda>now2.
         let z = z1\<lparr>zone_CacheTimeout := unix now2 + cfg_CacheTimeout (h_Config h)\<rparr>
         in Seq (World (Modify (lib_ZoneCache_Set (h_lib h) zone z))) (Return (Some z))))))))"

definition LoadZone ::
  "('t, 'w) DnsRequestHandler \<Rightarrow> string \<Rightarrow> ('t, 'w, Zone option) handler_go" where
  "LoadZone h zone =
     Bind (World (Extern (lib_ZoneCache_Get (h_lib h) zone))) (\<lambda>cached.
     let load = Bind (fetch_zone h zone) (\<lambda>answer.
           case answer of Some z \<Rightarrow> Return (Some z) | None \<Rightarrow> Return cached)
     in case cached of
          None \<Rightarrow> load
        | Some z \<Rightarrow>
            Bind (Now h) (\<lambda>now.
            if unix now \<le> zone_CacheTimeout z then Return (Some z) else load))"

section \<open>Locations\<close>

definition default_IP_RRSet :: IP_RRSet where
  "default_IP_RRSet = zero_IP_RRSet\<lparr>ips_FilterConfig :=
     \<lparr>fc_Count = ''multi'', fc_Order = ''none'', fc_GeoFilter = ''none''\<rparr>\<rparr>"

definition new_Record :: "string \<Rightarrow> Zone \<Rightarrow> Record" where
  "new_Record name z = zero_Record\<lparr>rr_A := default_IP_RRSet, rr_AAAA := default_IP_RRSet,
     rec_Zone := Some z, rec_Name := name\<rparr>"

definition fetch_location ::
  "('t, 'w) DnsRequestHandler \<Rightarrow> string \<Rightarrow> Zone \<Rightarrow> string \<Rightarrow> ('t, 'w, nat option) handler_go" where
  "fetch_location h location z key =
     (let (name, label) = (if location = zone_Name z then (zone_Name z, ''@'')
                           else (location @ ''.'' @ zone_Name z, location));
          r0 = new_Record name z
      in if label \<notin> zone_Locations z
         then (if label = ''@''
               then Bind (Alloc r0) (\<lambda>p.
                    Seq (World (Modify (lib_RecordCache_Set (h_lib h) key p))) (Return (Some p)))
               else Return None)
         else
           Bind (World (Extern (lib_HGet (h_lib h) (''redins:zones:'' @ zone_Name z) label))) (\<lambda>v.
           case v of
             Inl err \<Rightarrow> Return None
           | Inr val \<Rightarrow>
               (case (if val \<noteq> [] then lib_decode_record (h_lib h) val r0 else Inr r0) of
                  Inl err \<Rightarrow> Return None
                | Inr r1 \<Rightarrow>
                    Bind (Now h) (\<lambda>now.
                    Bind (Alloc (r1\<lparr>rec_CacheTimeout := unix now + cfg_CacheTimeout (h_Config h)\<rparr>))
                      (\<lambda>p.
                    Seq (World (Modify (lib_RecordCache_Set (h_lib h) key p)))
                        (Return (Some p)))))))"

definition LoadLocation ::
  "('t, 'w) DnsRequestHandler \<Rightarrow> string \<Rightarrow> Zone \<Rightarrow> ('t, 'w, nat option) handler_go" where
  "LoadLocation h location z =
     (let key = location @ ''.'' @ zone_Name z in
      Bind (World (Extern (lib_RecordCache_Get (h_lib h) key))) (\<lambda>cached.
      let load = Bind (fetch_location h location z key) (\<lambda>answer.
            case answer of Some p \<Rightarrow> Return (Some p) | None \<Rightarrow> Return cached)
      in case cached of
           None \<Rightarrow> load
         | Some p \<Rightarrow>
             Bind (Deref p) (\<lambda>r.
             Bind (Now h) (\<lambda>now.
             if unix now \<le> rec_CacheTimeout r then Return (Some p) else load))))"

definition SetLocation ::
  "('t, 'w) DnsRequestHandler \<Rightarrow> string \<Rightarrow> Zone \<Rightarrow> Record \<Rightarrow> ('t, 'w, unit) handler_go" where
  "SetLocation h location z val =
     (case lib_encode_record (h_lib h) val of
        Inl err \<Rightarrow> Return ()
      | Inr jsonValue \<Rightarrow>
          (let label = (if location = zone_Name z then ''@'' else location)
           in Bind (World (Extern (lib_HSet (h_lib h) (zone_Name z) label jsonValue))) (\<lambda>err.
              Return ())))"

section \<open>Lemmas on the tree of zones\<close>

text \<open>
  What the radix tree documents: \<open>assoc t\<close> is the map it stores, \<open>Insert\<close> updates it, and
  \<open>LongestPrefix\<close> finds the entry with the longest key that is a prefix of the argument.
\<close>

definition radix_laws :: "('t, 'w) h_lib \<Rightarrow> ('t \<Rightarrow> string \<Rightarrow> string option) \<Rightarrow> bool" where
  "radix_laws lib assoc \<longleftrightarrow>
     assoc (lib_radix_New lib) = Map.empty \<and>
     (\<forall>t k v. assoc (lib_radix_Insert lib t k v) = (assoc t)(k \<mapsto> v)) \<and>
     (\<forall>t k. case lib_radix_LongestPrefix lib t k of
        None \<Rightarrow> (\<forall>p. prefix p k \<longrightarrow> assoc t p = None)
      | Some (p, v) \<Rightarrow> prefix p k \<and> assoc t p = Some v \<and>
          (\<forall>p'. prefix p' k \<longrightarrow> assoc t p' \<noteq> None \<longrightarrow> length p' \<le> length p))"

definition encloses :: "string \<Rightarrow> string \<Rightarrow> bool" where
  "encloses z q \<longleftrightarrow> q = z \<or> suffix (''.'' @ z) q"

definition zone_tree :: "('t, 'w) h_lib \<Rightarrow> string list \<Rightarrow> 't" where
  "zone_tree lib zones =
     foldl (\<lambda>t zone. lib_radix_Insert lib t (reverseZone zone) zone) (lib_radix_New lib) zones"

lemma reverseZone_prefix:
  "ascii z \<Longrightarrow> ascii q \<Longrightarrow> prefix (reverseZone z) (reverseZone q) \<longleftrightarrow> encloses z q"
  by (simp only: reverseZone_ascii suffix_to_prefix [symmetric])
    (auto simp: encloses_def suffix_Cons)

lemma reverseZone_length: "ascii z \<Longrightarrow> length (reverseZone z) = Suc (length z)"
  by (simp add: reverseZone_ascii)

lemma reverseZone_inject: "ascii z \<Longrightarrow> ascii q \<Longrightarrow> reverseZone z = reverseZone q \<longleftrightarrow> z = q"
  by (simp add: reverseZone_ascii)

lemma zone_tree_assoc:
  assumes "radix_laws lib assoc" "\<forall>z \<in> set zones. ascii z"
  shows "assoc (zone_tree lib zones) k = Some v \<longleftrightarrow> v \<in> set zones \<and> k = reverseZone v"
  using assms(2)
proof (induction zones rule: rev_induct)
  case Nil
  then show ?case using assms(1) by (simp add: zone_tree_def radix_laws_def)
next
  case (snoc z zs)
  have "assoc (zone_tree lib (zs @ [z])) = (assoc (zone_tree lib zs))(reverseZone z \<mapsto> z)"
    using assms(1) by (simp add: zone_tree_def radix_laws_def)
  moreover have "reverseZone z = reverseZone v \<longleftrightarrow> z = v" if "v \<in> set zs"
    using snoc.prems that reverseZone_inject by simp
  moreover have "assoc (zone_tree lib zs) k = Some v \<longleftrightarrow> v \<in> set zs \<and> k = reverseZone v"
    using snoc by simp
  ultimately show ?case by (cases "k = reverseZone z") auto
qed

lemma radix_LongestPrefix:
  assumes "radix_laws lib assoc"
  shows "case lib_radix_LongestPrefix lib t k of
        None \<Rightarrow> (\<forall>p. prefix p k \<longrightarrow> assoc t p = None)
      | Some (p, v) \<Rightarrow> prefix p k \<and> assoc t p = Some v \<and>
          (\<forall>p'. prefix p' k \<longrightarrow> assoc t p' \<noteq> None \<longrightarrow> length p' \<le> length p)"
  using assms unfolding radix_laws_def by blast

lemma find_zone_tree:
  assumes laws: "radix_laws lib assoc" and zs: "\<forall>z \<in> set zones. ascii z" and q: "ascii q"
  shows "if \<exists>z \<in> set zones. encloses z q
         then find_zone lib (zone_tree lib zones) q \<in> set zones \<and>
              encloses (find_zone lib (zone_tree lib zones) q) q \<and>
              (\<forall>z \<in> set zones. encloses z q \<longrightarrow>
                 length z \<le> length (find_zone lib (zone_tree lib zones) q))
         else find_zone lib (zone_tree lib zones) q = []"
proof -
  note assoc = zone_tree_assoc [OF laws zs]
  have known: "assoc (zone_tree lib zones) (reverseZone z) \<noteq> None" if "z \<in> set zones" for z
    using assoc [of "reverseZone z" z] that by simp
  have pre: "prefix (reverseZone z) (reverseZone q) \<longleftrightarrow> encloses z q" if "z \<in> set zones" for z
    using zs q that reverseZone_prefix by blast
  show ?thesis
  proof (cases "lib_radix_LongestPrefix lib (zone_tree lib zones) (reverseZone q)")
    case None
    then have "\<forall>p. prefix p (reverseZone q) \<longrightarrow> assoc (zone_tree lib zones) p = None"
      using radix_LongestPrefix [OF laws, where t = "zone_tree lib zones" and k = "reverseZone q"] by simp
    then have "\<not> (\<exists>z \<in> set zones. encloses z q)" using known pre by blast
    with None show ?thesis by (simp add: find_zone_def)
  next
    case (Some pv)
    obtain p v where pv: "pv = (p, v)" by fastforce
    have lp: "prefix p (reverseZone q)" "assoc (zone_tree lib zones) p = Some v"
      "\<forall>p'. prefix p' (reverseZone q) \<longrightarrow> assoc (zone_tree lib zones) p' \<noteq> None \<longrightarrow> length p' \<le> length p"
      using radix_LongestPrefix [OF laws, where t = "zone_tree lib zones" and k = "reverseZone q"] Some pv
      by simp_all
    then have v: "v \<in> set zones" "p = reverseZone v" using assoc by auto
    then have "encloses v q" using lp(1) pre by blast
    moreover have "length z \<le> length v" if "z \<in> set zones" "encloses z q" for z
      using lp(3) known pre that v zs by (metis Suc_le_mono reverseZone_length)
    ultimately show ?thesis using Some v(1) by (auto simp: find_zone_def pv)
  qed
qed

section \<open>A library for examples\<close>

text \<open>
  Trees are association lists, the world is the status database of the health check, the caches
  are always empty, and redis holds one zone with one location, whose address is 1.2.3.4.
\<close>

fun longest :: "(string \<times> string) list \<Rightarrow> string \<Rightarrow> (string \<times> string) option" where
  "longest [] k = None"
| "longest ((p, v) # t) k =
     (case longest t k of
        None \<Rightarrow> if prefix p k then Some (p, v) else None
      | Some (q, u) \<Rightarrow> if prefix p k \<and> length q \<le> length p then Some (p, v) else Some (q, u))"

definition example_rq_lib :: "'w rq_lib" where
  "example_rq_lib = \<lparr>rq_ParseIP = (\<lambda>_. Some [9, 9, 9, 9]),
     rq_SetRcode = (\<lambda>m _ res. m\<lparr>msg_Rcode := res\<rparr>), rq_SizeAndDo = (\<lambda>_ m. m),
     rq_Scrub = (\<lambda>_ m. m), rq_WriteMsg = (\<lambda>_. Pair None), rq_Close = (\<lambda>w. w)\<rparr>"

definition example_h_lib :: "((string \<times> string) list, string \<rightharpoonup> string) h_lib" where
  "example_h_lib = \<lparr>lib_radix_New = [], lib_radix_Insert = (\<lambda>t k v. (k, v) # t),
     lib_radix_LongestPrefix = longest, lib_Fqdn = (\<lambda>s. s), lib_Now = Pair (100 * second),
     lib_ZoneCache_Get = (\<lambda>_. Pair None), lib_ZoneCache_Set = (\<lambda>_ _ w. w),
     lib_RecordCache_Get = (\<lambda>_. Pair None), lib_RecordCache_Set = (\<lambda>_ _ w. w),
     lib_SMembers = (\<lambda>_. Pair (Inr [''com.'', ''example.com.''])),
     lib_GetHKeys = (\<lambda>_. Pair (Inr [''www''])), lib_Get = (\<lambda>_. Pair ([], None)),
     lib_HGet = (\<lambda>_ _. Pair (Inr ''json'')), lib_HSet = (\<lambda>_ _ _. Pair None),
     lib_decode_config = (\<lambda>_ c. (c, None)),
     lib_decode_record = (\<lambda>_ r. Inr (r\<lparr>rr_A := default_IP_RRSet\<lparr>ips_Ttl := 300,
        ips_Data := [zero_IP_RR\<lparr>ip_Ip := Some [1, 2, 3, 4]\<rparr>]\<rparr>, rr_AAAA := default_IP_RRSet\<rparr>)),
     lib_encode_record = (\<lambda>_. Inr ''json''), lib_NewRR = (\<lambda>_. Inl ''syntax error''),
     lib_NewPrivateKey = (\<lambda>_ _. Inl ''no key''), lib_hc = example_hc_lib,
     lib_up = example_up_lib, lib_sec = example_sec_lib, lib_rq = example_rq_lib,
     lib_geo = example_geo_lib\<rparr>"

definition example_redis :: RedisConfig where
  "example_redis = \<lparr>rdc_Address = ''127.0.0.1:6379'', rdc_Net = ''tcp'', rdc_DB = 0, rdc_Password = [],
     rdc_Prefix = ''redins_'', rdc_Suffix = ''_redins'', rdc_Connection =
       \<lparr>rcc_MaxIdleConnections = 10, rcc_MaxActiveConnections = 10, rcc_ConnectTimeout = 500,
        rcc_ReadTimeout = 500, rcc_IdleKeepAlive = 30, rcc_MaxKeepAlive = 0,
        rcc_WaitForConnection = False\<rparr>\<rparr>"

definition example_log :: LogConfig where
  "example_log = \<lparr>log_Enable = True, log_Target = ''stdout'', log_Level = ''info'',
     log_Path = ''/tmp/redins.log'', log_Format = ''json'', log_TimeFormat = ''2006-01-02'',
     log_Sentry = \<lparr>sentry_Enable = False, sentry_DSN = []\<rparr>,
     log_Syslog = \<lparr>syslog_Enable = False, syslog_Protocol = ''tcp'', syslog_Address = ''localhost:514''\<rparr>,
     log_Kafka = \<lparr>kafka_Enable = False, kafka_Topic = ''redins'', kafka_Brokers = [],
       kafka_Format = ''json'', kafka_Compression = ''none'', kafka_Timeout = 3000,
       kafka_BufferSize = 1000\<rparr>\<rparr>"

definition example_config :: DnsRequestHandlerConfig where
  "example_config = \<lparr>cfg_Upstream = [],
     cfg_GeoIp = \<lparr>gc_Enable = False, gc_CountryDB = [], gc_ASNDB = []\<rparr>,
     cfg_HealthCheck = \<lparr>hconf_Enable = False, hconf_MaxRequests = 10,
       hconf_MaxPendingRequests = 100, hconf_UpdateInterval = 600, hconf_CheckInterval = 600,
       hconf_RedisStatusServer = example_redis, hconf_Log = example_log\<rparr>,
     cfg_MaxTtl = 3600, cfg_CacheTimeout = 60, cfg_ZoneReload = 600,
     cfg_LogSourceLocation = False, cfg_Redis = example_redis, cfg_Log = example_log\<rparr>"

definition example_handler :: "((string \<times> string) list, string \<rightharpoonup> string) DnsRequestHandler" where
  "example_handler = \<lparr>h_Config = example_config,
     h_geoip = example_geo, h_healthcheck = example_hc, h_lib = example_h_lib\<rparr>"

definition example_state :: "((string \<times> string) list, string \<rightharpoonup> string) hstate" where
  "example_state = \<lparr>hs_Zones = zone_tree example_h_lib [''example.com.''], hs_LastZoneUpdate = 0,
     hs_heap = (\<lambda>_. zero_Record), hs_next = 0, hs_connections = [], hs_logQueue = [],
     hs_logClosed = False, hs_sent = [], hs_world = Map.empty\<rparr>"

definition example_request :: "string \<Rightarrow> uint16 \<Rightarrow> RequestContext" where
  "example_request name qtype = NewRequestContext (example_rq_lib :: nat rq_lib) 0 qtype ''A'' False
     ''9.9.9.9'' (new_Msg\<lparr>msg_Question := [(name, qtype)]\<rparr>)"

lemma longest_spec:
  "case longest t k of
     None \<Rightarrow> (\<forall>p. prefix p k \<longrightarrow> map_of t p = None)
   | Some (p, v) \<Rightarrow> prefix p k \<and> map_of t p = Some v \<and>
       (\<forall>p'. prefix p' k \<longrightarrow> map_of t p' \<noteq> None \<longrightarrow> length p' \<le> length p)"
proof (induction t k rule: longest.induct)
  case (2 p v t k)
  then show ?case by (auto split: option.splits if_splits)
qed simp

lemma example_radix_laws: "radix_laws example_h_lib map_of"
  using longest_spec by (auto simp: radix_laws_def example_h_lib_def)

section \<open>Properties\<close>

text \<open>
  C7. After the zones were loaded, looking a name up finds the longest of them that encloses it at a
  label boundary, and the empty name when none does; neither step panics.
\<close>

theorem FindZone_longest:
  assumes "radix_laws (h_lib h) assoc"
    and "fst (lib_SMembers (h_lib h) ''redins:zones'' (snd (lib_Now (h_lib h) (hs_world s)))) = Inr zones"
    and "\<forall>z \<in> set zones. ascii z" "ascii q"
  shows "\<exists>zone s'. Seq (LoadZones h) (FindZone h q) s = Inr (zone, s') \<and>
           (if \<exists>z \<in> set zones. encloses z q
            then zone \<in> set zones \<and> encloses zone q \<and>
                 (\<forall>z \<in> set zones. encloses z q \<longrightarrow> length z \<le> length zone)
            else zone = [])"
proof -
  have "wp NoPanic (Seq (LoadZones h) (FindZone h q))
      (\<lambda>zone _. zone = find_zone (h_lib h) (zone_tree (h_lib h) zones) q) s"
    using assms(2) by (simp add: LoadZones_def FindZone_def Now_def World_def wp_rules zone_tree_def)
  then obtain s' where "Seq (LoadZones h) (FindZone h q) s =
      Inr (find_zone (h_lib h) (zone_tree (h_lib h) zones) q, s')"
    by (auto dest: wp_NoPanicD)
  with find_zone_tree [OF assms(1,3,4)] show ?thesis by blast
qed

theorem FindZone_longest_witness:
  "\<exists>zone s'. Seq (LoadZones example_handler) (FindZone example_handler ''www.example.com.'')
       example_state = Inr (zone, s') \<and> zone = ''example.com.''"
proof -
  let ?q = "''www.example.com.''" and ?zs = "[''com.'', ''example.com.'']"
  have ascii: "\<forall>z \<in> set ?zs. ascii z" "ascii ?q" by (simp_all add: ascii_def)
  have "fst (lib_SMembers (h_lib example_handler) ''redins:zones''
      (snd (lib_Now (h_lib example_handler) (hs_world example_state)))) = Inr ?zs"
    by (simp add: example_handler_def example_h_lib_def)
  moreover have "radix_laws (h_lib example_handler) map_of"
    using example_radix_laws by (simp add: example_handler_def)
  ultimately have "\<exists>zone s'. Seq (LoadZones example_handler) (FindZone example_handler ?q) example_state
      = Inr (zone, s') \<and> (if \<exists>z \<in> set ?zs. encloses z ?q
        then zone \<in> set ?zs \<and> encloses zone ?q \<and>
             (\<forall>z \<in> set ?zs. encloses z ?q \<longrightarrow> length z \<le> length zone) else zone = [])"
    using FindZone_longest ascii by blast
  moreover have "encloses ''example.com.'' ?q" "encloses ''com.'' ?q"
    by (simp_all add: encloses_def suffix_Cons)
  ultimately show ?thesis by (auto split: if_splits)
qed

text \<open>
  A cached zone is returned without asking redis while it is current; once it expired and redis
  cannot list its locations, the expired zone is served.
\<close>

theorem LoadZone_cached:
  assumes "lib_ZoneCache_Get (h_lib h) zone (hs_world s) = (Some z, w1)"
    and "lib_Now (h_lib h) w1 = (now, w2)"
    and "lib_GetHKeys (h_lib h) (''redins:zones:'' @ zone) w2 = (Inl err, w3)"
  shows "LoadZone h zone s =
           Inr (Some z, s\<lparr>hs_world := (if unix now \<le> zone_CacheTimeout z then w2 else w3)\<rparr>)"
  using assms
  by (simp add: LoadZone_def fetch_zone_def Now_def World_def Bind_def Zoom_def Extern_def
      Return_def Let_def)

theorem LoadZone_cached_witness:
  "LoadZone (example_handler\<lparr>h_lib := example_h_lib\<lparr>
       lib_ZoneCache_Get := (\<lambda>_. Pair (Some (example_zone {''www''}))),
       lib_GetHKeys := (\<lambda>_. Pair (Inl ''connection refused''))\<rparr>\<rparr>) ''example.com.'' example_state =
     Inr (Some (example_zone {''www''}), example_state)"
  using LoadZone_cached [of "example_handler\<lparr>h_lib := example_h_lib\<lparr>
       lib_ZoneCache_Get := (\<lambda>_. Pair (Some (example_zone {''www''}))),
       lib_GetHKeys := (\<lambda>_. Pair (Inl ''connection refused''))\<rparr>\<rparr>" "''example.com.''" example_state
       "example_zone {''www''}" Map.empty "100 * second" Map.empty "''connection refused''" Map.empty]
  by (simp add: example_handler_def example_h_lib_def example_state_def)

end
