(* ===== verification/Answers.thy ===== *)
theory Answers
  imports Dns_Types
begin

text \<open>
  The functions of \<open>handler/handler.go\<close> that turn a stored record into resource records of an
  answer, one per record type, with \<open>getTtl\<close> and \<open>split255\<close>. They share a contract, the locale
  \<open>rr_builder\<close>: every record they build carries the queried name, the builder's type and class and
  the capped time to live of its record set.
\<close>

section \<open>Times to live and text chunks\<close>

definition getTtl :: "int \<Rightarrow> uint32 \<Rightarrow> uint32" where
  "getTtl configMaxTtl ttl =
     (let maxTtl = word_of_int configMaxTtl
      in if ttl = 0 then maxTtl
         else if maxTtl = 0 then ttl
         else if ttl > maxTtl then maxTtl
         else ttl)"

text \<open>The loop of \<open>split255\<close>; \<open>i\<close> is always \<open>p + 255\<close>.\<close>

function split255_loop :: "string \<Rightarrow> nat \<Rightarrow> string list" where
  "split255_loop s p =
     (if p + 255 \<le> length s
      then take 255 (drop p s) # split255_loop s (p + 255)
      else [drop p s])"
  by pat_completeness auto
termination
  by (relation "measure (\<lambda>(s, p). length s - p)") auto

declare split255_loop.simps [simp del]

definition split255 :: "string \<Rightarrow> string list" where
  "split255 s = (if length s < 255 then [s] else split255_loop s 0)"

section \<open>The builders\<close>

definition mk_Hdr :: "int \<Rightarrow> string \<Rightarrow> uint16 \<Rightarrow> uint16 \<Rightarrow> uint32 \<Rightarrow> RR_Header" where
  "mk_Hdr maxTtl name rrtype rrclass ttl =
     \<lparr>hdr_Name = name, hdr_Rrtype = rrtype, hdr_Class = rrclass, hdr_Ttl = getTtl maxTtl ttl\<rparr>"

definition answer_A :: "int \<Rightarrow> net_IP list \<Rightarrow> string \<Rightarrow> Record \<Rightarrow> dns_RR list" where
  "answer_A maxTtl ips name record =
     [RR (mk_Hdr maxTtl name TypeA ClassINET (ips_Ttl (rr_A record))) (RA ip).
        ip \<leftarrow> ips, ip \<noteq> None]"

definition answer_AAAA :: "int \<Rightarrow> net_IP list \<Rightarrow> string \<Rightarrow> Record \<Rightarrow> dns_RR list" where
  "answer_AAAA maxTtl ips name record =
     [RR (mk_Hdr maxTtl name TypeAAAA ClassINET (ips_Ttl (rr_AAAA record))) (RAAAA ip).
        ip \<leftarrow> ips, ip \<noteq> None]"

definition answer_CNAME ::
  "(string \<Rightarrow> string) \<Rightarrow> int \<Rightarrow> string \<Rightarrow> Record \<Rightarrow> dns_RR list" where
  "answer_CNAME fqdn maxTtl name record =
     (case rr_CNAME record of
        None \<Rightarrow> []
      | Some c \<Rightarrow> [RR (mk_Hdr maxTtl name TypeCNAME ClassINET (cname_Ttl c))
                     (RCNAME (fqdn (cname_Host c)))])"

definition answer_TXT :: "int \<Rightarrow> string \<Rightarrow> Record \<Rightarrow> dns_RR list" where
  "answer_TXT maxTtl name record =
     [RR (mk_Hdr maxTtl name TypeTXT ClassINET (txts_Ttl (rr_TXT record)))
        (RTXT (split255 (txt_Text txt))).
        txt \<leftarrow> txts_Data (rr_TXT record), length (txt_Text txt) \<noteq> 0]"

definition answer_NS ::
  "(string \<Rightarrow> string) \<Rightarrow> int \<Rightarrow> string \<Rightarrow> Record \<Rightarrow> dns_RR list" where
  "answer_NS fqdn maxTtl name record =
     [RR (mk_Hdr maxTtl name TypeNS ClassINET (nss_Ttl (rr_NS record)))
        (RNS (fqdn (ns_Host ns))).
        ns \<leftarrow> nss_Data (rr_NS record), length (ns_Host ns) \<noteq> 0]"

definition answer_MX ::
  "(string \<Rightarrow> string) \<Rightarrow> int \<Rightarrow> string \<Rightarrow> Record \<Rightarrow> dns_RR list" where
  "answer_MX fqdn maxTtl name record =
     [RR (mk_Hdr maxTtl name TypeMX ClassINET (mxs_Ttl (rr_MX record)))
        (RMX (fqdn (mx_Host mx)) (mx_Preference mx)).
        mx \<leftarrow> mxs_Data (rr_MX record), length (mx_Host mx) \<noteq> 0]"

definition answer_SRV ::
  "(string \<Rightarrow> string) \<Rightarrow> int \<Rightarrow> string \<Rightarrow> Record \<Rightarrow> dns_RR list" where
  "answer_SRV fqdn maxTtl name record =
     [RR (mk_Hdr maxTtl name TypeSRV ClassINET (srvs_Ttl (rr_SRV record)))
        (RSRV (fqdn (srv_Target srv)) (srv_Weight srv) (srv_Port srv) (srv_Priority srv)).
        srv \<leftarrow> srvs_Data (rr_SRV record), length (srv_Target srv) \<noteq> 0]"

definition answer_CAA :: "int \<Rightarrow> string \<Rightarrow> Record \<Rightarrow> dns_RR list" where
  "answer_CAA maxTtl name record =
     [RR (mk_Hdr maxTtl name TypeCAA ClassINET (caas_Ttl (rr_CAA record)))
        (RCAA (caa_Value caa) (caa_Flag caa) (caa_Tag caa)).
        caa \<leftarrow> caas_Data (rr_CAA record)]"

definition answer_PTR ::
  "(string \<Rightarrow> string) \<Rightarrow> int \<Rightarrow> string \<Rightarrow> Record \<Rightarrow> dns_RR list" where
  "answer_PTR fqdn maxTtl name record =
     (case rr_PTR record of
        None \<Rightarrow> []
      | Some p \<Rightarrow> [RR (mk_Hdr maxTtl name TypePTR ClassINET (ptr_Ttl p))
                     (RPTR (fqdn (ptr_Domain p)))])"

definition answer_TLSA :: "int \<Rightarrow> string \<Rightarrow> Record \<Rightarrow> dns_RR list" where
  "answer_TLSA maxTtl name record =
     [RR (mk_Hdr maxTtl name TypeTLSA ClassNONE (tlsas_Ttl (rr_TLSA record)))
        (RTLSA (tlsa_Usage tlsa) (tlsa_Selector tlsa) (tlsa_MatchingType tlsa)
           (tlsa_Certificate tlsa)).
        tlsa \<leftarrow> tlsas_Data (rr_TLSA record)]"

section \<open>Lemmas\<close>

lemma getTtl_le:
  "word_of_int maxTtl \<noteq> (0 :: uint32) \<Longrightarrow> getTtl maxTtl ttl \<le> word_of_int maxTtl"
  by (auto simp: getTtl_def Let_def not_less)

lemma getTtl_positive:
  "word_of_int maxTtl \<noteq> (0 :: uint32) \<Longrightarrow> getTtl maxTtl ttl \<noteq> 0"
  by (simp add: getTtl_def Let_def)

lemma getTtl_keeps:
  "ttl \<noteq> 0 \<Longrightarrow> word_of_int maxTtl = (0 :: uint32) \<or> ttl \<le> word_of_int maxTtl \<Longrightarrow>
     getTtl maxTtl ttl = ttl"
  by (auto simp: getTtl_def Let_def)

lemma split255_loop_concat: "p \<le> length s \<Longrightarrow> concat (split255_loop s p) = drop p s"
proof (induction s p rule: split255_loop.induct)
  case (1 s p)
  show ?case
  proof (cases "p + 255 \<le> length s")
    case True
    then have "concat (split255_loop s p) = take 255 (drop p s) @ drop (p + 255) s"
      using 1 by (simp add: split255_loop.simps [of s p])
    also have "\<dots> = drop p s"
      by (metis append_take_drop_id drop_drop add.commute)
    finally show ?thesis .
  next
    case False
    then show ?thesis by (simp add: split255_loop.simps [of s p])
  qed
qed

lemma split255_loop_length: "c \<in> set (split255_loop s p) \<Longrightarrow> length c \<le> 255"
proof (induction s p rule: split255_loop.induct)
  case (1 s p)
  then show ?case
    by (cases "p + 255 \<le> length s") (auto simp: split255_loop.simps [of s p])
qed

lemma split255_loop_butlast: "c \<in> set (butlast (split255_loop s p)) \<Longrightarrow> length c = 255"
proof (induction s p rule: split255_loop.induct)
  case (1 s p)
  have ne: "split255_loop s (p + 255) \<noteq> []"
    by (subst split255_loop.simps) simp
  show ?case
  proof (cases "p + 255 \<le> length s")
    case True
    then have "split255_loop s p = take 255 (drop p s) # split255_loop s (p + 255)"
      by (simp add: split255_loop.simps [of s p])
    with 1 True ne show ?thesis by auto
  next
    case False
    with 1 show ?thesis by (simp add: split255_loop.simps [of s p])
  qed
qed

lemma split255_loop_last: "length (last (split255_loop s p)) < 255"
proof (induction s p rule: split255_loop.induct)
  case (1 s p)
  have ne: "split255_loop s (p + 255) \<noteq> []"
    by (subst split255_loop.simps) simp
  show ?case
  proof (cases "p + 255 \<le> length s")
    case True
    with 1 ne show ?thesis by (simp add: split255_loop.simps [of s p])
  next
    case False
    then show ?thesis by (simp add: split255_loop.simps [of s p])
  qed
qed

section \<open>The contract of the builders\<close>

locale rr_builder =
  fixes build :: "int \<Rightarrow> string \<Rightarrow> Record \<Rightarrow> dns_RR list"
    and rtype :: uint16
    and rclass :: uint16
    and set_ttl :: "Record \<Rightarrow> uint32"
  assumes header:
    "r \<in> set (build maxTtl name record) \<Longrightarrow>
       rr_Hdr r = mk_Hdr maxTtl name rtype rclass (set_ttl record)"
begin

lemma hdr_facts:
  assumes "r \<in> set (build maxTtl name record)"
  shows "rr_name r = name" "rr_type r = rtype" "rr_class r = rclass"
    "rr_ttl r = getTtl maxTtl (set_ttl record)"
  using header [OF assms] by (simp_all add: mk_Hdr_def)

lemma ttl_capped:
  "r \<in> set (build maxTtl name record) \<Longrightarrow> word_of_int maxTtl \<noteq> (0 :: uint32) \<Longrightarrow>
     rr_ttl r \<le> word_of_int maxTtl"
  by (simp add: hdr_facts(4) getTtl_le)

text \<open>All records of one answer form one record set: same name, type and time to live.\<close>

lemma same_rrset:
  "r \<in> set (build maxTtl name record) \<Longrightarrow> r' \<in> set (build maxTtl name record) \<Longrightarrow>
     rr_Hdr r = rr_Hdr r'"
  by (simp add: header)

end

interpretation bA: rr_builder "\<lambda>m. answer_A m ips" TypeA ClassINET "\<lambda>r. ips_Ttl (rr_A r)"
  for ips
  by unfold_locales (auto simp: answer_A_def)

interpretation bAAAA: rr_builder "\<lambda>m. answer_AAAA m ips" TypeAAAA ClassINET
  "\<lambda>r. ips_Ttl (rr_AAAA r)" for ips
  by unfold_locales (auto simp: answer_AAAA_def)

interpretation bCNAME: rr_builder "answer_CNAME fqdn" TypeCNAME ClassINET
  "\<lambda>r. cname_Ttl (the (rr_CNAME r))" for fqdn
  by unfold_locales (auto simp: answer_CNAME_def dest!: sym [of "Some _"] split: option.splits)

interpretation bTXT: rr_builder answer_TXT TypeTXT ClassINET "\<lambda>r. txts_Ttl (rr_TXT r)"
  by unfold_locales (auto simp: answer_TXT_def)

interpretation bNS: rr_builder "answer_NS fqdn" TypeNS ClassINET "\<lambda>r. nss_Ttl (rr_NS r)"
  for fqdn
  by unfold_locales (auto simp: answer_NS_def)

interpretation bMX: rr_builder "answer_MX fqdn" TypeMX ClassINET "\<lambda>r. mxs_Ttl (rr_MX r)"
  for fqdn
  by unfold_locales (auto simp: answer_MX_def)

interpretation bSRV: rr_builder "answer_SRV fqdn" TypeSRV ClassINET
  "\<lambda>r. srvs_Ttl (rr_SRV r)" for fqdn
  by unfold_locales (auto simp: answer_SRV_def)

interpretation bCAA: rr_builder answer_CAA TypeCAA ClassINET "\<lambda>r. caas_Ttl (rr_CAA r)"
  by unfold_locales (auto simp: answer_CAA_def)

interpretation bPTR: rr_builder "answer_PTR fqdn" TypePTR ClassINET
  "\<lambda>r. ptr_Ttl (the (rr_PTR r))" for fqdn
  by unfold_locales (auto simp: answer_PTR_def dest!: sym [of "Some _"] split: option.splits)

interpretation bTLSA: rr_builder answer_TLSA TypeTLSA ClassNONE
  "\<lambda>r. tlsas_Ttl (rr_TLSA r)"
  by unfold_locales (auto simp: answer_TLSA_def)

lemmas builder_names = bA.hdr_facts(1) bAAAA.hdr_facts(1) bCNAME.hdr_facts(1) bTXT.hdr_facts(1)
  bNS.hdr_facts(1) bMX.hdr_facts(1) bSRV.hdr_facts(1) bCAA.hdr_facts(1) bPTR.hdr_facts(1)
  bTLSA.hdr_facts(1)

lemmas builder_types = bA.hdr_facts(2) bAAAA.hdr_facts(2) bCNAME.hdr_facts(2) bTXT.hdr_facts(2)
  bNS.hdr_facts(2) bMX.hdr_facts(2) bSRV.hdr_facts(2) bCAA.hdr_facts(2) bPTR.hdr_facts(2)
  bTLSA.hdr_facts(2)

lemmas builder_ttls = bA.ttl_capped bAAAA.ttl_capped bCNAME.ttl_capped bTXT.ttl_capped
  bNS.ttl_capped bMX.ttl_capped bSRV.ttl_capped bCAA.ttl_capped bPTR.ttl_capped
  bTLSA.ttl_capped

section \<open>Properties\<close>

text \<open>
  The time to live of an answer: with a limit configured it is never zero and never above the
  limit, and a configured value within the limit is kept; without a limit the value is unchanged.
\<close>

theorem getTtl_bounds:
  "if word_of_int maxTtl = (0 :: uint32) then getTtl maxTtl ttl = ttl
   else 0 < getTtl maxTtl ttl \<and> getTtl maxTtl ttl \<le> word_of_int maxTtl \<and>
        (if ttl = 0 \<or> word_of_int maxTtl < ttl then getTtl maxTtl ttl = word_of_int maxTtl
         else getTtl maxTtl ttl = ttl)"
  using getTtl_positive [of maxTtl ttl] getTtl_le [of maxTtl ttl]
  by (auto simp: getTtl_def Let_def word_greater_zero_iff)

text \<open>
  Splitting a text loses nothing and respects the limit of a character string of the protocol:
  the chunks concatenate to the text, every chunk but the last has 255 bytes and the last fewer.
\<close>

theorem split255_chunks:
  "concat (split255 s) = s \<and> list_all (\<lambda>c. length c = 255) (butlast (split255 s)) \<and>
   length (last (split255 s)) < 255"
proof (cases "length s < 255")
  case True
  then show ?thesis by (simp add: split255_def)
next
  case False
  then show ?thesis
    using split255_loop_concat [of 0 s] split255_loop_butlast [of _ s 0] split255_loop_last [of s 0]
    by (auto simp: split255_def list_all_iff)
qed


end
