(* ===== verification/Handler.thy ===== *)
theory Handler
  imports Zone_Store Answers Geo_Ip
begin

text \<open>
  The request path of \<open>handler/handler.go\<close>: \<open>Filter\<close>, \<open>FindCAA\<close>, \<open>FindANAME\<close>, \<open>HandleRequest\<close> with its
  loop over a chain of aliases, \<open>LogRequest\<close> and \<open>Response\<close>. The context of a request is passed and
  returned; records are read and written through pointers into the heap, because the record cache
  shares them between requests.
\<close>

section \<open>Filtering the addresses of a record set\<close>

definition geo_stage ::
  "('t, 'w) DnsRequestHandler \<Rightarrow> net_IP \<Rightarrow> IP_RRSet \<Rightarrow> ip_mask list \<Rightarrow> ('s, ip_mask list) go" where
  "geo_stage h src rrset marks =
     (let lib = lib_geo (h_lib h); g = h_geoip h; ips = ips_Data rrset;
          filter = fc_GeoFilter (ips_FilterConfig rrset)
      in if filter = ''asn'' then Lift (GetSameASN lib g src ips marks)
         else if filter = ''country'' then Lift (GetSameCountry lib g src ips marks)
         else if filter = ''asn+country''
         then Bind (Lift (GetSameASN lib g src ips marks))
                (\<lambda>marks. Lift (GetSameCountry lib g src ips marks))
         else if filter = ''location'' then Lift (GetMinimumDistance lib g src ips marks)
         else Return marks)"

text \<open>\<open>OrderIps\<close> reads the clock only for the two random orders.\<close>

definition reads_clock :: "IP_RRSet \<Rightarrow> ip_mask list \<Rightarrow> bool" where
  "reads_clock rrset marks \<longleftrightarrow>
     whites marks \<noteq> [] \<and>
     (fc_Order (ips_FilterConfig rrset) = ''rr'' \<or>
      fc_Order (ips_FilterConfig rrset) = ''weighted'' \<and>
        0 \<le> sum_list (map (weight_at rrset) (whites marks)))"

definition Filter ::
  "('t, 'w) DnsRequestHandler \<Rightarrow> string \<Rightarrow> net_IP \<Rightarrow> IP_RRSet \<Rightarrow>
     ('t, 'w, net_IP list) handler_go" where
  "Filter h name src rrset =
     Bind (World (FilterHealthcheck (lib_hc (h_lib h)) (h_healthcheck h) name rrset
             (replicate (length (ips_Data rrset)) IpMaskWhite))) (\<lambda>marks.
     Bind (geo_stage h src rrset marks) (\<lambda>marks.
     Bind (if reads_clock rrset marks then Now h else Return 0) (\<lambda>now.
     Lift (OrderIps (now mod second) rrset marks))))"

section \<open>Logging and replying\<close>

definition logQueue_capacity :: nat where
  "logQueue_capacity = 1000"

text \<open>A send on a closed channel panics, also inside a \<open>select\<close>; on a full one the entry is dropped.\<close>

definition LogRequest ::
  "('t, 'w) DnsRequestHandler \<Rightarrow> RequestContext \<Rightarrow> int \<Rightarrow> ('t, 'w, RequestContext) handler_go" where
  "LogRequest h state responseCode =
     Bind (Now h) (\<lambda>now.
     let state = state\<lparr>rc_LogData := (rc_LogData state)
           (''process_time'' \<mapsto> LInt64 (go_div (now - rc_StartTime state) 1000000),
            ''response_code'' \<mapsto> LInt responseCode,
            ''log_type'' \<mapsto> LStr ''request'')\<rparr>
     in Bind (Gets hs_logClosed) (\<lambda>closed.
        if closed then Panic SendOnClosedChannel
        else Seq (Modify (\<lambda>s. if length (hs_logQueue s) < logQueue_capacity
                    then s\<lparr>hs_logQueue := hs_logQueue s @ [rc_LogData state]\<rparr> else s))
                 (Return state)))"

definition Send ::
  "('t, 'w) DnsRequestHandler \<Rightarrow> RequestContext \<Rightarrow> int \<Rightarrow> ('t, 'w, unit) handler_go" where
  "Send h context res =
     Zoom (\<lambda>s. \<lparr>net_sent = hs_sent s, net_world = hs_world s\<rparr>)
          (\<lambda>n s. s\<lparr>hs_sent := net_sent n, hs_world := net_world n\<rparr>)
          (Response (lib_rq (h_lib h)) context res)"

text \<open>\<open>DnsRequestHandler.Response\<close>.\<close>

definition Respond ::
  "('t, 'w) DnsRequestHandler \<Rightarrow> RequestContext \<Rightarrow> int \<Rightarrow> ('t, 'w, unit) handler_go" where
  "Respond h context res =
     Bind (LogRequest h context res) (\<lambda>context. Send h context res)"

section \<open>CAA records\<close>

definition FindCAA_apex ::
  "('t, 'w) DnsRequestHandler \<Rightarrow> Zone \<Rightarrow> ('t, 'w, nat option) handler_go" where
  "FindCAA_apex h zone =
     Bind (LoadLocation h (zone_Name zone) zone) (\<lambda>loaded.
     case loaded of
       None \<Rightarrow> Return None
     | Some p \<Rightarrow>
         Bind (Deref p) (\<lambda>r. Return (if caas_Data (rr_CAA r) \<noteq> [] then Some p else None)))"

text \<open>
  The loop; every round removes a label, and the lookup never adds one.
\<close>

function FindCAA_loop ::
  "('t, 'w) DnsRequestHandler \<Rightarrow> Zone \<Rightarrow> nat \<Rightarrow> string \<Rightarrow> ('t, 'w, nat option) handler_go" where
  "FindCAA_loop h zone currentRecord currentLocation =
     Bind (Deref currentRecord) (\<lambda>r.
     if caas_Data (rr_CAA r) \<noteq> [] then Return (Some currentRecord)
     else (case SplitAfter2 dot currentLocation of
             [_, rest] \<Rightarrow>
               (case FindLocation zone rest of
                  (location, match) \<Rightarrow>
                    if match = NoMatch then Return None
                    else Bind (LoadLocation h location zone) (\<lambda>loaded.
                         case loaded of
                           None \<Rightarrow> Return None
                         | Some p \<Rightarrow> FindCAA_loop h zone p location))
           | _ \<Rightarrow> FindCAA_apex h zone))"
  by pat_completeness auto

lemma SplitAfter2_dots: "SplitAfter2 dot s = [a, rest] \<Longrightarrow> dots rest < dots s"
  by (cases rule: SplitAfter2_cases [of dot s]) (auto simp: dots_def)

lemma FindLocation_rest_dots:
  "SplitAfter2 dot s = [a, rest] \<Longrightarrow> FindLocation zone rest = (location, m) \<Longrightarrow>
     dots location < dots s"
  using SplitAfter2_dots [of s a rest] FindLocation_dots [of zone rest] by simp

termination FindCAA_loop
  by (relation "measure (\<lambda>(h, zone, p, location). dots location)")
    (auto intro: FindLocation_rest_dots [OF sym sym])

declare FindCAA_loop.simps [simp del]

definition FindCAA ::
  "('t, 'w) DnsRequestHandler \<Rightarrow> nat \<Rightarrow> ('t, 'w, nat option) handler_go" where
  "FindCAA h record =
     Bind (Deref record) (\<lambda>r.
     case rec_Zone r of
       None \<Rightarrow> Panic NilDereference
     | Some zone \<Rightarrow>
         FindCAA_loop h zone record (TrimSuffix (rec_Name r) (''.'' @ zone_Name zone)))"

section \<open>ANAME records\<close>

definition Upstream_Query ::
  "('t, 'w) DnsRequestHandler \<Rightarrow> string \<Rightarrow> uint16 \<Rightarrow> ('t, 'w, dns_RR list \<times> int) handler_go" where
  "Upstream_Query h location qtype =
     Zoom (\<lambda>s. (hs_connections s, hs_world s))
          (\<lambda>u s. s\<lparr>hs_connections := fst u, hs_world := snd u\<rparr>)
          (Query (lib_up (h_lib h)) location qtype)"

definition upstream_ips :: "uint16 \<Rightarrow> dns_RR list \<Rightarrow> net_IP list" where
  "upstream_ips qtype answers =
     concat (map (\<lambda>r. case rr_Data r of
         RA ip \<Rightarrow> if qtype = TypeA then [ip] else []
       | RAAAA ip \<Rightarrow> if qtype = TypeA then [] else [ip]
       | _ \<Rightarrow> []) answers)"

definition upstream_ttl :: "dns_RR list \<Rightarrow> uint32" where
  "upstream_ttl answers = (case answers of [] \<Rightarrow> 0 | r # _ \<Rightarrow> rr_ttl r)"

function FindANAME_loop ::
  "('t, 'w) DnsRequestHandler \<Rightarrow> RequestContext \<Rightarrow> uint16 \<Rightarrow> nat \<Rightarrow> string \<Rightarrow>
     ('t, 'w, net_IP list \<times> int \<times> uint32) handler_go" where
  "FindANAME_loop h context qtype loopCount currentQName =
     (if loopCount > 10 then Return ([], RcodeServerFailure, 0)
      else
        Bind (FindZone h currentQName) (\<lambda>zoneName.
        if zoneName = []
        then Bind (Upstream_Query h currentQName qtype) (\<lambda>(upstreamAnswers, upstreamRes).
             if upstreamRes = RcodeSuccess
             then Return (upstream_ips qtype upstreamAnswers, upstreamRes,
                          upstream_ttl upstreamAnswers)
             else Return ([], RcodeServerFailure, 0))
        else
          Bind (LoadZone h zoneName) (\<lambda>loadedZone.
          case loadedZone of None \<Rightarrow> Return ([], RcodeServerFailure, 0) | Some zone \<Rightarrow>
          (let location = fst (FindLocation zone currentQName)
           in if location = [] then Return ([], RcodeServerFailure, 0)
              else
                Bind (LoadLocation h location zone) (\<lambda>loaded.
                case loaded of None \<Rightarrow> Return ([], RcodeServerFailure, 0) | Some p \<Rightarrow>
                Bind (Deref p) (\<lambda>r.
                case rr_CNAME r of
                  Some cname \<Rightarrow> FindANAME_loop h context qtype (loopCount + 1) (cname_Host cname)
                | None \<Rightarrow>
                    if qtype = TypeA \<and> ips_Data (rr_A r) \<noteq> []
                    then Bind (Filter h (rec_Name r) (rc_SourceIp context) (rr_A r)) (\<lambda>ips.
                         Return (ips, RcodeSuccess, ips_Ttl (rr_A r)))
                    else if qtype = TypeAAAA \<and> ips_Data (rr_AAAA r) \<noteq> []
                    then Bind (Filter h (rec_Name r) (rc_SourceIp context) (rr_AAAA r)) (\<lambda>ips.
                         Return (ips, RcodeSuccess, ips_Ttl (rr_AAAA r)))
                    else (case rr_ANAME r of
                            Some aname \<Rightarrow>
                              FindANAME_loop h context qtype (loopCount + 1) (aname_Location aname)
                          | None \<Rightarrow> Return ([], RcodeSuccess, 0))))))))"
  by pat_completeness auto
termination
  by (relation "measure (\<lambda>(h, context, qtype, loopCount, name). 11 - loopCount)") auto

declare FindANAME_loop.simps [simp del]

definition FindANAME ::
  "('t, 'w) DnsRequestHandler \<Rightarrow> RequestContext \<Rightarrow> string \<Rightarrow> uint16 \<Rightarrow>
     ('t, 'w, net_IP list \<times> int \<times> uint32) handler_go" where
  "FindANAME h context aname qtype = FindANAME_loop h context qtype 0 aname"

section \<open>Handling a request\<close>

definition max_ttl :: "('t, 'w) DnsRequestHandler \<Rightarrow> int" where
  "max_ttl h = cfg_MaxTtl (h_Config h)"

abbreviation fqdn_of :: "('t, 'w) DnsRequestHandler \<Rightarrow> string \<Rightarrow> string" where
  "fqdn_of h \<equiv> lib_Fqdn (h_lib h)"

text \<open>
  \<open>zone.Config.SOA.Data\<close> as a record of a message; a nil record is dereferenced when the message is
  packed.
\<close>

definition zone_SOA :: "Zone \<Rightarrow> go_panic + dns_RR" where
  "zone_SOA z =
     (case zc_SOA (zone_Config z) of
        None \<Rightarrow> Inl NilDereference
      | Some soa \<Rightarrow> (case soas_Data soa of None \<Rightarrow> Inl NilDereference | Some r \<Rightarrow> Inr r))"

text \<open>\<open>[]dns.RR{zone.ZSK.DnsKey, zone.KSK.DnsKey}\<close>.\<close>

definition zone_DNSKEYs :: "Zone \<Rightarrow> go_panic + dns_RR list" where
  "zone_DNSKEYs z =
     (case (zone_ZSK z, zone_KSK z) of
        (Some zsk, Some ksk) \<Rightarrow> Inr [zk_DnsKey zsk, zk_DnsKey ksk]
      | _ \<Rightarrow> Inl NilDereference)"

text \<open>The body of the loop over the name servers of a delegation: the glue of one server.\<close>

definition glue ::
  "('t, 'w) DnsRequestHandler \<Rightarrow> Zone \<Rightarrow> NS_RR \<Rightarrow> RequestContext \<Rightarrow>
     ('t, 'w, RequestContext) handler_go" where
  "glue h zone ns context =
     (case FindLocation zone (ns_Host ns) of
        (glueLocation, match) \<Rightarrow>
          if match = NoMatch then Return context
          else Bind (LoadLocation h glueLocation zone) (\<lambda>loaded.
               case loaded of
                 None \<Rightarrow> Return context
               | Some p \<Rightarrow>
                   Bind (Deref p) (\<lambda>r.
                   Bind (Filter h (rec_Name r) (rc_SourceIp context) (rr_A r)) (\<lambda>ips4.
                   let context = context\<lparr>rc_Additional :=
                         rc_Additional context @ answer_A (max_ttl h) ips4 (ns_Host ns) r\<rparr>
                   in Bind (Filter h (rec_Name r) (rc_SourceIp context) (rr_AAAA r)) (\<lambda>ips6.
                      Return (context\<lparr>rc_Additional := rc_Additional context @
                        answer_AAAA (max_ttl h) ips6 (ns_Host ns) r\<rparr>))))))"

definition delegate ::
  "('t, 'w) DnsRequestHandler \<Rightarrow> Zone \<Rightarrow> string \<Rightarrow> Record \<Rightarrow> RequestContext \<Rightarrow>
     ('t, 'w, RequestContext) handler_go" where
  "delegate h zone qname r context =
     ForEach (nss_Data (rr_NS r)) (glue h zone)
       (context\<lparr>rc_Authority := rc_Authority context @
          answer_NS (fqdn_of h) (max_ttl h) qname r\<rparr>)"

text \<open>
  The answers of the two address types. The TTL an ANAME lookup found is written to the record,
  which the cache shares.
\<close>

definition address_A ::
  "('t, 'w) DnsRequestHandler \<Rightarrow> RequestContext \<Rightarrow> string \<Rightarrow> nat \<Rightarrow>
     ('t, 'w, dns_RR list \<times> int) handler_go" where
  "address_A h context qname p =
     Bind (Deref p) (\<lambda>r.
     case (ips_Data (rr_A r), rr_ANAME r) of
       ([], Some aname) \<Rightarrow>
         Bind (FindANAME h context (aname_Location aname) TypeA) (\<lambda>(ips, res, ttl).
         Bind (Deref p) (\<lambda>r.
         let r = r\<lparr>rr_A := (rr_A r)\<lparr>ips_Ttl := ttl\<rparr>\<rparr>
         in Seq (Assign p r) (Return (answer_A (max_ttl h) ips qname r, res))))
     | _ \<Rightarrow>
         Bind (Filter h (rec_Name r) (rc_SourceIp context) (rr_A r)) (\<lambda>ips.
         Return (answer_A (max_ttl h) ips qname r, RcodeSuccess)))"

definition address_AAAA ::
  "('t, 'w) DnsRequestHandler \<Rightarrow> RequestContext \<Rightarrow> string \<Rightarrow> nat \<Rightarrow>
     ('t, 'w, dns_RR list \<times> int) handler_go" where
  "address_AAAA h context qname p =
     Bind (Deref p) (\<lambda>r.
     case (ips_Data (rr_AAAA r), rr_ANAME r) of
       ([], Some aname) \<Rightarrow>
         Bind (FindANAME h context (aname_Location aname) TypeAAAA) (\<lambda>(ips, res, ttl).
         Bind (Deref p) (\<lambda>r.
         let r = r\<lparr>rr_AAAA := (rr_AAAA r)\<lparr>ips_Ttl := ttl\<rparr>\<rparr>
         in Seq (Assign p r) (Return (answer_AAAA (max_ttl h) ips qname r, res))))
     | _ \<Rightarrow>
         Bind (Filter h (rec_Name r) (rc_SourceIp context) (rr_AAAA r)) (\<lambda>ips.
         Return (answer_AAAA (max_ttl h) ips qname r, RcodeSuccess)))"

text \<open>The types whose answer is read off the record.\<close>

definition record_answer ::
  "('t, 'w) DnsRequestHandler \<Rightarrow> uint16 \<Rightarrow> string \<Rightarrow> Record \<Rightarrow> dns_RR list option" where
  "record_answer h qtype qname r =
     (let m = max_ttl h; f = fqdn_of h
      in if qtype = TypeCNAME then Some (answer_CNAME f m qname r)
         else if qtype = TypeTXT then Some (answer_TXT m qname r)
         else if qtype = TypeNS then Some (answer_NS f m qname r)
         else if qtype = TypeMX then Some (answer_MX f m qname r)
         else if qtype = TypeSRV then Some (answer_SRV f m qname r)
         else if qtype = TypePTR then Some (answer_PTR f m qname r)
         else if qtype = TypeTLSA then Some (answer_TLSA m qname r)
         else None)"

text \<open>The switch over the query type; \<open>None\<close> is its default branch.\<close>

definition answer_switch ::
  "('t, 'w) DnsRequestHandler \<Rightarrow> Zone \<Rightarrow> RequestContext \<Rightarrow> string \<Rightarrow> nat \<Rightarrow>
     ('t, 'w, (dns_RR list \<times> int) option) handler_go" where
  "answer_switch h zone context qname p =
     (let qtype = rc_QType context
      in if qtype = TypeA then Bind (address_A h context qname p) (\<lambda>a. Return (Some a))
         else if qtype = TypeAAAA then Bind (address_AAAA h context qname p) (\<lambda>a. Return (Some a))
         else if qtype = TypeCAA
         then Bind (FindCAA h p) (\<lambda>found.
              case found of
                None \<Rightarrow> Return (Some ([], RcodeSuccess))
              | Some q \<Rightarrow> Bind (Deref q) (\<lambda>caa.
                  Return (Some (answer_CAA (max_ttl h) qname caa, RcodeSuccess))))
         else if qtype = TypeSOA
         then Bind (Lift (zone_SOA zone)) (\<lambda>soa. Return (Some ([soa], RcodeSuccess)))
         else if qtype = TypeDNSKEY
         then (if zc_DnsSec (zone_Config zone)
               then Bind (Lift (zone_DNSKEYs zone)) (\<lambda>keys. Return (Some (keys, RcodeSuccess)))
               else Return (Some ([], RcodeSuccess)))
         else Bind (Deref p) (\<lambda>r.
              Return (map_option (\<lambda>a. (a, RcodeSuccess)) (record_answer h qtype qname r))))"

text \<open>The end of the loop at the record that answers.\<close>

definition final_answer ::
  "('t, 'w) DnsRequestHandler \<Rightarrow> Zone \<Rightarrow> RequestContext \<Rightarrow> string \<Rightarrow> nat \<Rightarrow>
     ('t, 'w, RequestContext \<times> int) handler_go" where
  "final_answer h zone context currentQName p =
     (let qname = (if zc_CnameFlattening (zone_Config zone) then raw_name context
                   else currentQName)
      in Bind (answer_switch h zone context qname p) (\<lambda>answer.
         case answer of
           None \<Rightarrow>
             Bind (Lift (zone_SOA zone)) (\<lambda>soa.
             Return (context\<lparr>rc_Answer := [], rc_Authority := [soa]\<rparr>, RcodeNotImplemented))
         | Some (rrs, res) \<Rightarrow>
             (let context = context\<lparr>rc_Answer := rc_Answer context @ rrs\<rparr>
              in if rrs = [] \<and> res = RcodeSuccess
                 then Bind (Lift (zone_SOA zone)) (\<lambda>soa.
                      Return (context\<lparr>rc_Authority := [soa]\<rparr>, res))
                 else Return (context, res))))"

text \<open>
  The loop along the chain of aliases. \<open>res\<close> is \<open>RcodeSuccess\<close> whenever the loop continues, so it is
  only part of the result.
\<close>

function HandleRequest_loop ::
  "('t, 'w) DnsRequestHandler \<Rightarrow> string \<Rightarrow> Zone \<Rightarrow> RequestContext \<Rightarrow> nat \<Rightarrow> string \<Rightarrow>
     ('t, 'w, RequestContext \<times> int) handler_go" where
  "HandleRequest_loop h zoneName zone context loopCount currentQName =
     (if loopCount > 10 then Return (context\<lparr>rc_Answer := []\<rparr>, RcodeServerFailure)
      else
        Bind (FindZone h currentQName) (\<lambda>currentZone.
        if currentZone \<noteq> zoneName then Return (context, RcodeSuccess)
        else
          (case FindLocation zone currentQName of
             (location, NoMatch) \<Rightarrow>
               Bind (Lift (zone_SOA zone)) (\<lambda>soa.
               Return (context\<lparr>rc_Authority := [soa]\<rparr>, RcodeNameError))
           | (location, _) \<Rightarrow>
               Bind (LoadLocation h location zone) (\<lambda>loaded.
               case loaded of None \<Rightarrow> Return (context, RcodeServerFailure) | Some p \<Rightarrow>
               Bind (Deref p) (\<lambda>r.
               case (rr_CNAME r, rc_QType context \<noteq> TypeCNAME) of
                 (Some cname, True) \<Rightarrow>
                   if \<not> zc_CnameFlattening (zone_Config zone)
                   then HandleRequest_loop h zoneName zone
                          (context\<lparr>rc_Answer := rc_Answer context @
                             answer_CNAME (fqdn_of h) (max_ttl h) currentQName r\<rparr>)
                          (loopCount + 1) (fqdn_of h (cname_Host cname))
                   else
                     Bind (FindZone h (cname_Host cname)) (\<lambda>targetZone.
                     if targetZone \<noteq> zoneName
                     then Return (context\<lparr>rc_Answer := rc_Answer context @
                            answer_CNAME (fqdn_of h) (max_ttl h) (raw_name context) r\<rparr>,
                            RcodeSuccess)
                     else HandleRequest_loop h zoneName zone context (loopCount + 1)
                            (fqdn_of h (cname_Host cname)))
               | _ \<Rightarrow>
                   if nss_Data (rr_NS r) \<noteq> [] \<and> currentQName \<noteq> zone_Name zone
                   then Bind (delegate h zone currentQName r context) (\<lambda>context.
                        Return (context, RcodeSuccess))
                   else final_answer h zone context currentQName p)))))"
  by pat_completeness auto
termination
  by (relation "measure (\<lambda>(h, zoneName, zone, context, loopCount, name). 11 - loopCount)") auto

declare HandleRequest_loop.simps [simp del]

section \<open>DNSSEC and the whole handler\<close>

definition add_NSec ::
  "Zone \<Rightarrow> RequestContext \<Rightarrow> ('t, 'w, RequestContext) handler_go" where
  "add_NSec zone context =
     Bind (Lift (NSec (raw_name context) zone)) (\<lambda>nsec.
     Return (context\<lparr>rc_Authority := rc_Authority context @ [nsec]\<rparr>))"

definition sign_sections ::
  "('t, 'w) DnsRequestHandler \<Rightarrow> Zone \<Rightarrow> RequestContext \<Rightarrow>
     ('t, 'w, RequestContext) handler_go" where
  "sign_sections h zone context =
     (let name = raw_name context; sec = lib_sec (h_lib h)
      in Bind (World (Sign sec (rc_Answer context) name zone)) (\<lambda>answer.
         Bind (World (Sign sec (rc_Authority context) name zone)) (\<lambda>authority.
         Bind (World (Sign sec (rc_Additional context) name zone)) (\<lambda>additional.
         Return (context\<lparr>rc_Answer := answer, rc_Authority := authority,
           rc_Additional := additional\<rparr>)))))"

definition dnssec_stage ::
  "('t, 'w) DnsRequestHandler \<Rightarrow> Zone \<Rightarrow> RequestContext \<Rightarrow> int \<Rightarrow>
     ('t, 'w, RequestContext \<times> int) handler_go" where
  "dnssec_stage h zone context res =
     (if \<not> (rc_Do context \<and> rc_Auth context \<and> zc_DnsSec (zone_Config zone))
      then Return (context, res)
      else
        Bind (if res = RcodeSuccess
              then Bind (if rc_Answer context = [] then add_NSec zone context
                         else Return context) (\<lambda>context. Return (context, res))
              else if res = RcodeNameError
              then Bind (add_NSec zone context) (\<lambda>context. Return (context, RcodeSuccess))
              else Return (context, res)) (\<lambda>(context, res).
        Bind (sign_sections h zone context) (\<lambda>context. Return (context, res))))"

definition log_source ::
  "('t, 'w) DnsRequestHandler \<Rightarrow> RequestContext \<Rightarrow> ('t, 'w, RequestContext) handler_go" where
  "log_source h context =
     (if \<not> cfg_LogSourceLocation (h_Config h) then Return context
      else let src = rc_SourceIp context;
               country = fst (GetCountry (lib_geo (h_lib h)) (h_geoip h) src)
           in Bind (Lift (GetASN (lib_geo (h_lib h)) (h_geoip h) src)) (\<lambda>(asn, _).
              Return (context\<lparr>rc_LogData := (rc_LogData context)
                (''source_country'' \<mapsto> LStr country, ''source_asn'' \<mapsto> LUint asn)\<rparr>)))"

definition HandleRequest ::
  "('t, 'w) DnsRequestHandler \<Rightarrow> RequestContext \<Rightarrow> ('t, 'w, unit) handler_go" where
  "HandleRequest h context =
     Bind (log_source h context) (\<lambda>context.
     Bind (FindZone h (raw_name context)) (\<lambda>zoneName.
     if zoneName = [] then Respond h context RcodeNotAuth
     else
       Bind (LoadZone h zoneName) (\<lambda>loadedZone.
       case loadedZone of
         None \<Rightarrow> Respond h context RcodeServerFailure
       | Some zone \<Rightarrow>
           (let context = context\<lparr>rc_LogData := (rc_LogData context)
                  (''domain_uuid'' \<mapsto> LStr (zc_DomainId (zone_Config zone)))\<rparr>
            in Bind (HandleRequest_loop h zoneName zone context 0 (raw_name context))
                 (\<lambda>(context, res).
               Bind (dnssec_stage h zone context res) (\<lambda>(context, res).
               Respond h context res))))))"

end
