(* ===== verification/Handler_Frame.thy ===== *)
theory Handler_Frame
  imports Handler
begin

text \<open>
  What the operations of the handler leave alone: looking up zones, records and addresses changes
  neither the tree of zone names nor what was sent or logged, whatever the outside world does.
\<close>

definition outputs ::
  "('t, 'w) hstate \<Rightarrow> dns_Msg list \<times> (string \<rightharpoonup> log_value) list \<times> bool \<times> 't \<times> int" where
  "outputs s = (hs_sent s, hs_logQueue s, hs_logClosed s, hs_Zones s, hs_LastZoneUpdate s)"

lemma outputs_update [simp]:
  "outputs (s\<lparr>hs_world := w\<rparr>) = outputs s"
  "outputs (s\<lparr>hs_heap := heap\<rparr>) = outputs s"
  "outputs (s\<lparr>hs_heap := heap, hs_next := n\<rparr>) = outputs s"
  "outputs (s\<lparr>hs_connections := c\<rparr>) = outputs s"
  by (simp_all add: outputs_def)

lemma keeps_World [keeps_intros]: "keeps outputs (World m)"
  unfolding World_def by (intro keeps_intros) simp

lemma keeps_Deref [keeps_intros]: "keeps f (Deref p)"
  unfolding Deref_def by (rule keeps_intros)

lemma keeps_Assign [keeps_intros]: "keeps outputs (Assign p r)"
  unfolding Assign_def by (intro keeps_intros) simp

lemma keeps_Alloc [keeps_intros]: "keeps outputs (Alloc r)"
  unfolding Alloc_def by (intro keeps_intros) simp

lemma keeps_Now [keeps_intros]: "keeps outputs (Now h)"
  unfolding Now_def by (rule keeps_intros)

lemma keeps_FindZone [keeps_intros]: "keeps f (FindZone h q)"
  unfolding FindZone_def by (rule keeps_intros)

lemma keeps_loadKey [keeps_intros]: "keeps outputs (loadKey h pub priv)"
  unfolding loadKey_def
  by (auto intro!: keeps_intros split: prod.splits sum.splits option.splits rdata.splits)

lemma keeps_LoadZoneKeys [keeps_intros]: "keeps outputs (LoadZoneKeys h z)"
  unfolding LoadZoneKeys_def Let_def
  by (auto intro!: keeps_intros split: option.splits sum.splits)

lemma keeps_fetch_zone [keeps_intros]: "keeps outputs (fetch_zone h zone)"
  unfolding fetch_zone_def Let_def
  by (auto intro!: keeps_intros split: prod.splits sum.splits)

lemma keeps_LoadZone [keeps_intros]: "keeps outputs (LoadZone h zone)"
  unfolding LoadZone_def Let_def by (auto intro!: keeps_intros split: option.splits)

lemma keeps_fetch_location [keeps_intros]: "keeps outputs (fetch_location h location z key)"
  unfolding fetch_location_def Let_def
  by (auto intro!: keeps_intros split: prod.splits sum.splits)

lemma keeps_LoadLocation [keeps_intros]: "keeps outputs (LoadLocation h location z)"
  unfolding LoadLocation_def Let_def by (auto intro!: keeps_intros split: option.splits)

lemma keeps_geo_stage [keeps_intros]: "keeps f (geo_stage h src rrset marks)"
  unfolding geo_stage_def Let_def by (auto intro!: keeps_intros)

lemma keeps_Filter [keeps_intros]: "keeps outputs (Filter h name src rrset)"
  unfolding Filter_def by (auto intro!: keeps_intros)

lemma keeps_FindCAA_loop [keeps_intros]: "keeps outputs (FindCAA_loop h zone p location)"
proof (induction h zone p location rule: FindCAA_loop.induct)
  case (1 h zone p location)
  show ?case
    unfolding FindCAA_loop.simps [of h zone p location] FindCAA_apex_def
    by (auto intro!: keeps_intros 1 split: list.splits prod.splits option.splits)
qed

lemma keeps_FindCAA [keeps_intros]: "keeps outputs (FindCAA h p)"
  unfolding FindCAA_def by (auto intro!: keeps_intros split: option.splits)

lemma keeps_Upstream_Query [keeps_intros]: "keeps outputs (Upstream_Query h location qtype)"
  unfolding Upstream_Query_def by (intro keeps_intros) simp

lemma keeps_FindANAME_loop [keeps_intros]:
  "keeps outputs (FindANAME_loop h ctxt qtype loopCount q)"
proof (induction loopCount arbitrary: q qtype rule: loop_count_induct)
  case (stop k)
  then show ?case
    by (simp add: FindANAME_loop.simps [of _ _ _ k] keeps_intros)
next
  case (step k)
  show ?case
    unfolding FindANAME_loop.simps [of h ctxt qtype k q] Let_def
    by (auto intro!: keeps_intros step.IH split: prod.splits option.splits)
qed

lemma keeps_addresses [keeps_intros]:
  "keeps outputs (address_A h context qname p)"
  "keeps outputs (address_AAAA h context qname p)"
  unfolding address_A_def address_AAAA_def FindANAME_def Let_def
  by (auto intro!: keeps_intros split: prod.splits list.splits option.splits)

lemma keeps_answer_switch [keeps_intros]: "keeps outputs (answer_switch h zone context qname p)"
  unfolding answer_switch_def Let_def by (auto intro!: keeps_intros split: option.splits)

lemma keeps_final_answer [keeps_intros]: "keeps outputs (final_answer h zone context qname p)"
  unfolding final_answer_def Let_def
  by (auto intro!: keeps_intros split: prod.splits option.splits)

lemma keeps_delegate [keeps_intros]: "keeps outputs (delegate h zone qname r context)"
  unfolding delegate_def glue_def Let_def
  by (auto intro!: keeps_intros split: prod.splits option.splits)

lemma keeps_HandleRequest_loop [keeps_intros]:
  "keeps outputs (HandleRequest_loop h zoneName zone ctxt loopCount q)"
proof (induction loopCount arbitrary: ctxt q rule: loop_count_induct)
  case (stop k)
  then show ?case
    by (simp add: HandleRequest_loop.simps [of _ _ _ _ k] keeps_intros)
next
  case (step k)
  show ?case
    unfolding HandleRequest_loop.simps [of h zoneName zone ctxt k q]
    by (auto intro!: keeps_intros step.IH split: prod.splits option.splits match.splits bool.splits)
qed

lemma keeps_dnssec_stage [keeps_intros]: "keeps outputs (dnssec_stage h zone context res)"
  unfolding dnssec_stage_def add_NSec_def sign_sections_def Let_def
  by (auto intro!: keeps_intros split: prod.splits)

lemma keeps_log_source [keeps_intros]: "keeps f (log_source h context)"
  unfolding log_source_def Let_def by (auto intro!: keeps_intros split: prod.splits)

end
