(* ===== verification/Handler_Chain.thy ===== *)
theory Handler_Chain
  imports Handler_Frame
begin

text \<open>
  What the answer section of a reply looks like: a chain of aliases that starts at the queried name,
  followed by records of the last name of the chain. With flattening, records of the queried name
  only.
\<close>

section \<open>Chains of aliases\<close>

fun linked :: "string \<Rightarrow> dns_RR list \<Rightarrow> string \<Rightarrow> bool" where
  "linked q [] end = (q = end)"
| "linked q (r # rs) end =
     (rr_name r = q \<and> (\<exists>t. rr_Data r = RCNAME t \<and> linked t rs end))"

definition ttl_ok :: "('t, 'w) DnsRequestHandler \<Rightarrow> dns_RR \<Rightarrow> bool" where
  "ttl_ok h r \<longleftrightarrow>
     word_of_int (max_ttl h) = (0 :: uint32) \<or> rr_ttl r \<le> word_of_int (max_ttl h)"

text \<open>The records that are kept with the zone and answered as they are.\<close>

definition apex_records :: "Zone \<Rightarrow> dns_RR set" where
  "apex_records zone =
     {r. zone_SOA zone = Inr r} \<union> {r. \<exists>ks. zone_DNSKEYs zone = Inr ks \<and> r \<in> set ks}"

definition owned ::
  "('t, 'w) DnsRequestHandler \<Rightarrow> Zone \<Rightarrow> string \<Rightarrow> dns_RR list \<Rightarrow> bool" where
  "owned h zone name rrs \<longleftrightarrow>
     (\<forall>r \<in> set rrs. r \<in> apex_records zone \<or> rr_name r = name \<and> ttl_ok h r)"

lemma owned_Nil [simp]: "owned h zone name []"
  by (simp add: owned_def)

lemma owned_append [simp]:
  "owned h zone name (xs @ ys) \<longleftrightarrow> owned h zone name xs \<and> owned h zone name ys"
  by (auto simp: owned_def)

lemma owned_builders [simp]:
  "owned h zone q (answer_A (max_ttl h) ips q r)"
  "owned h zone q (answer_AAAA (max_ttl h) ips q r)"
  "owned h zone q (answer_CNAME f (max_ttl h) q r)"
  "owned h zone q (answer_TXT (max_ttl h) q r)"
  "owned h zone q (answer_NS f (max_ttl h) q r)"
  "owned h zone q (answer_MX f (max_ttl h) q r)"
  "owned h zone q (answer_SRV f (max_ttl h) q r)"
  "owned h zone q (answer_CAA (max_ttl h) q r)"
  "owned h zone q (answer_PTR f (max_ttl h) q r)"
  "owned h zone q (answer_TLSA (max_ttl h) q r)"
  by (auto simp: owned_def ttl_ok_def dest: builder_names builder_ttls)

lemma owned_record_answer: "record_answer h qtype q r = Some rrs \<Longrightarrow> owned h zone q rrs"
  by (auto simp: record_answer_def Let_def split: if_splits)

lemma owned_apex:
  "zone_SOA zone = Inr soa \<Longrightarrow> owned h zone q [soa]"
  "zone_DNSKEYs zone = Inr keys \<Longrightarrow> owned h zone q keys"
  by (auto simp: owned_def apex_records_def)

lemma yields_addresses:
  "yields (\<lambda>(rrs, _). owned h zone q rrs) (address_A h context q p)"
  "yields (\<lambda>(rrs, _). owned h zone q rrs) (address_AAAA h context q p)"
  unfolding address_A_def address_AAAA_def Let_def
  by (auto intro!: yields_intros split: list.splits option.splits prod.splits)

lemma yields_answer_switch:
  "yields (\<lambda>answer. \<forall>rrs res. answer = Some (rrs, res) \<longrightarrow> owned h zone q rrs)
     (answer_switch h zone context q p)"
  unfolding answer_switch_def Let_def
  by (auto intro!: yields_intros yields_Bind_Lift
      yields_Bind_with [OF yields_addresses(1) [of h zone]]
      yields_Bind_with [OF yields_addresses(2) [of h zone]]
      dest: owned_apex owned_record_answer split: option.splits)

section \<open>Reply codes\<close>

definition handler_rcodes :: "int set" where
  "handler_rcodes = {RcodeSuccess, RcodeServerFailure, RcodeNameError, RcodeNotImplemented}"

lemma yields_FindANAME:
  "yields (\<lambda>(_, res, _). res = RcodeSuccess \<or> res = RcodeServerFailure)
     (FindANAME_loop h ctxt qtype loopCount q)"
proof (induction loopCount arbitrary: q qtype rule: loop_count_induct)
  case (stop k)
  then show ?case by (simp add: FindANAME_loop.simps [of _ _ _ k] yields_intros)
next
  case (step k)
  show ?case
    unfolding FindANAME_loop.simps [of h ctxt qtype k q] Let_def
    by (auto intro!: yields_intros step.IH split: option.splits)
qed

lemma yields_addresses_res:
  "yields (\<lambda>(_, res). res = RcodeSuccess \<or> res = RcodeServerFailure) (address_A h context q p)"
  "yields (\<lambda>(_, res). res = RcodeSuccess \<or> res = RcodeServerFailure) (address_AAAA h context q p)"
  unfolding address_A_def address_AAAA_def FindANAME_def Let_def
  by (auto intro!: yields_intros yields_Bind_with [OF yields_FindANAME]
      split: list.splits option.splits prod.splits)

lemma yields_answer_switch_res:
  "yields (\<lambda>answer. \<forall>rrs res. answer = Some (rrs, res) \<longrightarrow>
       res = RcodeSuccess \<or> res = RcodeServerFailure)
     (answer_switch h zone context q p)"
  unfolding answer_switch_def Let_def
  by (auto intro!: yields_intros yields_Bind_with [OF yields_addresses_res(1)]
      yields_Bind_with [OF yields_addresses_res(2)] split: option.splits)

section \<open>The sections of the reply\<close>

text \<open>The sections are all that answering a request changes in its context.\<close>

definition no_sections :: "RequestContext \<Rightarrow> RequestContext" where
  "no_sections c = c\<lparr>rc_Answer := [], rc_Authority := [], rc_Additional := []\<rparr>"

definition sections_of :: "RequestContext \<Rightarrow> RequestContext \<Rightarrow> bool" where
  "sections_of c0 c \<longleftrightarrow> no_sections c = no_sections c0"

lemma sections_of_refl [simp]: "sections_of c c"
  by (simp add: sections_of_def)

lemma sections_of_update [simp]:
  "sections_of c0 (c\<lparr>rc_Answer := x\<rparr>) \<longleftrightarrow> sections_of c0 c"
  "sections_of c0 (c\<lparr>rc_Authority := x\<rparr>) \<longleftrightarrow> sections_of c0 c"
  "sections_of c0 (c\<lparr>rc_Additional := x\<rparr>) \<longleftrightarrow> sections_of c0 c"
  "sections_of (c0\<lparr>rc_Answer := x\<rparr>) c \<longleftrightarrow> sections_of c0 c"
  by (simp_all add: sections_of_def no_sections_def)

lemma sections_of_trans: "sections_of a b \<Longrightarrow> sections_of b c \<Longrightarrow> sections_of a c"
  by (simp add: sections_of_def)

lemma no_sections_facts:
  "raw_name (no_sections c) = raw_name c" "rc_Req (no_sections c) = rc_Req c"
  "rc_QType (no_sections c) = rc_QType c" "rc_LogData (no_sections c) = rc_LogData c"
  "rc_Auth (no_sections c) = rc_Auth c" "rc_StartTime (no_sections c) = rc_StartTime c"
  "rc_Do (no_sections c) = rc_Do c" "rc_SourceIp (no_sections c) = rc_SourceIp c"
  by (simp_all add: no_sections_def)

lemma sections_of_facts:
  assumes "sections_of c0 c"
  shows "raw_name c = raw_name c0" "rc_Req c = rc_Req c0" "rc_QType c = rc_QType c0"
    "rc_LogData c = rc_LogData c0" "rc_Auth c = rc_Auth c0" "rc_StartTime c = rc_StartTime c0"
    "rc_Do c = rc_Do c0" "rc_SourceIp c = rc_SourceIp c0"
  using assms no_sections_facts unfolding sections_of_def by metis+

text \<open>What the end of the loop adds to the answer.\<close>

definition final_ok ::
  "('t, 'w) DnsRequestHandler \<Rightarrow> Zone \<Rightarrow> RequestContext \<Rightarrow> string \<Rightarrow>
     RequestContext \<times> int \<Rightarrow> bool" where
  "final_ok h zone c0 q result \<longleftrightarrow>
     (case result of (c, res) \<Rightarrow>
        sections_of c0 c \<and> res \<in> handler_rcodes \<and>
        (res = RcodeNotImplemented \<and> rc_Answer c = [] \<or>
         (\<exists>rest. rc_Answer c = rc_Answer c0 @ rest \<and> owned h zone q rest)))"

lemma yields_final_answer:
  "yields (final_ok h zone c0 (if zc_CnameFlattening (zone_Config zone) then raw_name c0 else q))
     (final_answer h zone c0 q p)"
proof -
  let ?q = "if zc_CnameFlattening (zone_Config zone) then raw_name c0 else q"
  let ?P = "\<lambda>answer. (\<forall>rrs res. answer = Some (rrs, res) \<longrightarrow> owned h zone ?q rrs) \<and>
    (\<forall>rrs res. answer = Some (rrs, res) \<longrightarrow> res = RcodeSuccess \<or> res = RcodeServerFailure)"
  have "yields ?P (answer_switch h zone c0 ?q p)"
    by (intro yields_conj yields_answer_switch yields_answer_switch_res)
  then show ?thesis
    unfolding final_answer_def Let_def
    by (rule yields_Bind_with)
      (auto simp: final_ok_def handler_rcodes_def rcodes intro!: yields_intros yields_Bind_Lift
        split: option.splits)
qed

text \<open>The loop, in a zone without flattening.\<close>

definition chain_ok ::
  "('t, 'w) DnsRequestHandler \<Rightarrow> Zone \<Rightarrow> RequestContext \<Rightarrow> string \<Rightarrow> nat \<Rightarrow>
     RequestContext \<times> int \<Rightarrow> bool" where
  "chain_ok h zone c0 q n result \<longleftrightarrow>
     (case result of (c, res) \<Rightarrow>
        sections_of c0 c \<and> res \<in> handler_rcodes \<and>
        (res \<in> {RcodeServerFailure, RcodeNotImplemented} \<and> rc_Answer c = [] \<or>
         (\<exists>chain rest end. rc_Answer c = rc_Answer c0 @ chain @ rest \<and>
            linked q chain end \<and> length chain \<le> n \<and> (\<forall>r \<in> set chain. ttl_ok h r) \<and>
            owned h zone end rest)))"

lemma chain_ok_final: "final_ok h zone c0 q result \<Longrightarrow> chain_ok h zone c0 q n result"
  unfolding final_ok_def chain_ok_def
  by (cases result) (force intro: exI [of _ "[]"])

lemma chain_ok_stop:
  "sections_of c0 c \<Longrightarrow> res \<in> handler_rcodes \<Longrightarrow> rc_Answer c = rc_Answer c0 \<Longrightarrow>
     chain_ok h zone c0 q n (c, res)"
  unfolding chain_ok_def by (force intro: exI [of _ "[]"])

lemma chain_ok_link:
  assumes "chain_ok h zone (c0\<lparr>rc_Answer := rc_Answer c0 @ [r]\<rparr>) t n result"
    and "rr_name r = q" "rr_Data r = RCNAME t" "ttl_ok h r"
  shows "chain_ok h zone c0 q (Suc n) result"
proof -
  obtain c res where result: "result = (c, res)" by fastforce
  have c: "sections_of c0 c" "res \<in> handler_rcodes"
    using assms(1) by (auto simp: chain_ok_def result)
  consider "res \<in> {RcodeServerFailure, RcodeNotImplemented}" "rc_Answer c = []"
    | chain rest "end" where "rc_Answer c = rc_Answer c0 @ (r # chain) @ rest" "linked t chain end"
      "length chain \<le> n" "\<forall>r \<in> set chain. ttl_ok h r" "owned h zone end rest"
    using assms(1) by (auto simp: chain_ok_def result)
  then show ?thesis
  proof cases
    case 1
    with c show ?thesis unfolding chain_ok_def result by blast
  next
    case (2 chain rest "end")
    then have "linked q (r # chain) end" "length (r # chain) \<le> Suc n"
      "\<forall>x \<in> set (r # chain). ttl_ok h x" using assms(2-4) by auto
    with 2(1,5) c show ?thesis unfolding chain_ok_def result by blast
  qed
qed

lemma yields_delegate:
  "yields (\<lambda>c. sections_of c0 c \<and> rc_Answer c = rc_Answer c0) (delegate h zone q r c0)"
  unfolding delegate_def
  by (rule yields_ForEach)
    (auto simp: glue_def Let_def intro!: yields_intros split: prod.splits option.splits)

text \<open>One round of the loop, by the ways it can go on.\<close>

lemma yields_loop_step:
  assumes k: "k \<le> 10"
    and stop: "\<And>res. res \<in> handler_rcodes \<Longrightarrow> P (c0, res)"
    and nxdomain: "\<And>soa. zone_SOA zone = Inr soa \<Longrightarrow>
      P (c0\<lparr>rc_Authority := [soa]\<rparr>, RcodeNameError)"
    and follow: "\<And>r cname. rr_CNAME r = Some cname \<Longrightarrow> \<not> zc_CnameFlattening (zone_Config zone) \<Longrightarrow>
      yields P (HandleRequest_loop h zoneName zone
        (c0\<lparr>rc_Answer := rc_Answer c0 @ answer_CNAME (fqdn_of h) (max_ttl h) q r\<rparr>)
        (Suc k) (fqdn_of h (cname_Host cname)))"
    and flat_out: "\<And>r. zc_CnameFlattening (zone_Config zone) \<Longrightarrow>
      P (c0\<lparr>rc_Answer := rc_Answer c0 @
         answer_CNAME (fqdn_of h) (max_ttl h) (raw_name c0) r\<rparr>, RcodeSuccess)"
    and flat_in: "\<And>q'. zc_CnameFlattening (zone_Config zone) \<Longrightarrow>
      yields P (HandleRequest_loop h zoneName zone c0 (Suc k) q')"
    and deleg: "\<And>r. yields (\<lambda>c. P (c, RcodeSuccess)) (delegate h zone q r c0)"
    and final: "\<And>p. yields P (final_answer h zone c0 q p)"
  shows "yields P (HandleRequest_loop h zoneName zone c0 k q)"
proof -
  have deleg': "yields P (Bind (delegate h zone q r c0) (\<lambda>c. Return (c, RcodeSuccess)))" for r
    by (rule yields_Bind_with [OF deleg]) (rule yields_Return)
  have codes: "RcodeSuccess \<in> handler_rcodes" "RcodeServerFailure \<in> handler_rcodes"
    by (simp_all add: handler_rcodes_def)
  have either: "yields P m \<Longrightarrow> yields P m' \<Longrightarrow> yields P (if b then m else m')" for b m m'
    by simp
  show ?thesis
    unfolding HandleRequest_loop.simps [of h zoneName zone c0 k q]
    using k
    by (cases "zc_CnameFlattening (zone_Config zone)")
      (auto intro!: either yields_Return yields_Bind yields_Bind_Lift [of "zone_SOA zone"]
        stop codes nxdomain follow flat_out flat_in deleg' final
        split: prod.splits option.splits match.splits bool.splits split del: if_split)
qed

lemma yields_loop_chain:
  assumes "\<not> zc_CnameFlattening (zone_Config zone)"
  shows "yields (chain_ok h zone c0 q (11 - k)) (HandleRequest_loop h zoneName zone c0 k q)"
proof (induction k arbitrary: c0 q rule: loop_count_induct)
  case (stop k)
  then show ?case
    by (auto simp: HandleRequest_loop.simps [of _ _ _ _ k] chain_ok_def handler_rcodes_def
        intro!: yields_intros)
next
  case (step k)
  show ?case
  proof (rule yields_loop_step [OF step.hyps])
    fix r :: Record and cname
    assume cname: "rr_CNAME r = Some cname"
    let ?rr = "RR (mk_Hdr (max_ttl h) q TypeCNAME ClassINET (cname_Ttl cname))
      (RCNAME (fqdn_of h (cname_Host cname)))"
    have ans: "answer_CNAME (fqdn_of h) (max_ttl h) q r = [?rr]"
      using cname by (simp add: answer_CNAME_def)
    have "ttl_ok h ?rr" using getTtl_le by (auto simp: ttl_ok_def mk_Hdr_def)
    moreover have "11 - k = Suc (11 - Suc k)" using step.hyps by simp
    ultimately show "yields (chain_ok h zone c0 q (11 - k))
        (HandleRequest_loop h zoneName zone
          (c0\<lparr>rc_Answer := rc_Answer c0 @ answer_CNAME (fqdn_of h) (max_ttl h) q r\<rparr>)
          (Suc k) (fqdn_of h (cname_Host cname)))"
      unfolding ans
      by (auto intro!: yields_mono [OF step.IH] chain_ok_link [where r = ?rr] simp: mk_Hdr_def)
  next
    fix r
    show "yields (\<lambda>c. chain_ok h zone c0 q (11 - k) (c, RcodeSuccess)) (delegate h zone q r c0)"
      by (rule yields_mono [OF yields_delegate]) (auto intro!: chain_ok_stop simp: handler_rcodes_def)
  next
    fix p
    show "yields (chain_ok h zone c0 q (11 - k)) (final_answer h zone c0 q p)"
      using yields_final_answer [of h zone c0 q p] assms
      by (auto intro: yields_mono chain_ok_final)
  qed (use assms in \<open>auto intro!: chain_ok_stop simp: handler_rcodes_def\<close>)
qed

text \<open>
  The loop, in a zone with flattening: whatever chain was followed, the records of the answer are
  those of the queried name.
\<close>

definition flat_ok ::
  "('t, 'w) DnsRequestHandler \<Rightarrow> Zone \<Rightarrow> RequestContext \<Rightarrow> RequestContext \<times> int \<Rightarrow> bool" where
  "flat_ok h zone c0 result \<longleftrightarrow>
     (case result of (c, res) \<Rightarrow>
        sections_of c0 c \<and> res \<in> handler_rcodes \<and>
        (res \<in> {RcodeServerFailure, RcodeNotImplemented} \<and> rc_Answer c = [] \<or>
         (\<exists>rest. rc_Answer c = rc_Answer c0 @ rest \<and> owned h zone (raw_name c0) rest)))"

lemma flat_ok_final: "final_ok h zone c0 (raw_name c0) result \<Longrightarrow> flat_ok h zone c0 result"
  by (auto simp: final_ok_def flat_ok_def)

lemma yields_loop_flat:
  assumes "zc_CnameFlattening (zone_Config zone)"
  shows "yields (flat_ok h zone c0) (HandleRequest_loop h zoneName zone c0 k q)"
proof (induction k arbitrary: c0 q rule: loop_count_induct)
  case (stop k)
  then show ?case
    by (auto simp: HandleRequest_loop.simps [of _ _ _ _ k] flat_ok_def handler_rcodes_def
        intro!: yields_intros)
next
  case (step k)
  show ?case
  proof (rule yields_loop_step [OF step.hyps])
    fix r
    show "yields (\<lambda>c. flat_ok h zone c0 (c, RcodeSuccess)) (delegate h zone q r c0)"
      by (rule yields_mono [OF yields_delegate]) (auto simp: flat_ok_def handler_rcodes_def)
  next
    fix p
    show "yields (flat_ok h zone c0) (final_answer h zone c0 q p)"
      using yields_final_answer [of h zone c0 q p] assms
      by (auto intro: yields_mono flat_ok_final)
  qed (use assms step.IH in \<open>auto simp: flat_ok_def handler_rcodes_def\<close>)
qed

lemma yields_loop_rcodes:
  "yields (\<lambda>(c, res). sections_of c0 c \<and> res \<in> handler_rcodes)
     (HandleRequest_loop h zoneName zone c0 k q)"
proof (cases "zc_CnameFlattening (zone_Config zone)")
  case True
  show ?thesis by (rule yields_mono [OF yields_loop_flat [OF True]]) (auto simp: flat_ok_def)
next
  case False
  show ?thesis by (rule yields_mono [OF yields_loop_chain [OF False]]) (auto simp: chain_ok_def)
qed

end
