(* ===== verification/Capnp_Log.thy ===== *)
theory Capnp_Log
  imports Dns_Types
begin

text \<open>
  \<open>handler/logformat/request.capnp.go\<close>: the accessors generated for the log message of a request, a
  struct with a data section of 16 bytes and five pointers. The struct is a type of the Cap'n Proto
  library: \<open>capnp_lib\<close> holds its methods, \<open>capnp_laws\<close> what the library documents about them. Offsets are
  in bytes. Read through its accessors, a struct is a record with independent fields.
\<close>

section \<open>The library\<close>

text \<open>A pointer is \<open>None\<close> when it is not set, else the text it points to.\<close>

record 's capnp_lib =
  cap_NewMessage :: "go_error option"
  cap_NewStruct :: "nat \<Rightarrow> nat \<Rightarrow> go_error + 's"
  cap_NewRootStruct :: "nat \<Rightarrow> nat \<Rightarrow> go_error + 's"
  cap_Uint64 :: "nat \<Rightarrow> 's \<Rightarrow> 64 word"
  cap_SetUint64 :: "nat \<Rightarrow> 64 word \<Rightarrow> 's \<Rightarrow> 's"
  cap_Uint32 :: "nat \<Rightarrow> 's \<Rightarrow> 32 word"
  cap_SetUint32 :: "nat \<Rightarrow> 32 word \<Rightarrow> 's \<Rightarrow> 's"
  cap_Uint16 :: "nat \<Rightarrow> 's \<Rightarrow> 16 word"
  cap_SetUint16 :: "nat \<Rightarrow> 16 word \<Rightarrow> 's \<Rightarrow> 's"
  cap_Ptr :: "nat \<Rightarrow> 's \<Rightarrow> string option \<times> go_error option"
  cap_SetText :: "nat \<Rightarrow> string \<Rightarrow> 's \<Rightarrow> go_error option \<times> 's"
  cap_Encode :: "'s \<Rightarrow> go_error + string"

definition ptr_Text :: "string option \<Rightarrow> string" where
  "ptr_Text p = (case p of None \<Rightarrow> [] | Some t \<Rightarrow> t)"

definition ptr_IsValid :: "string option \<Rightarrow> bool" where
  "ptr_IsValid p \<longleftrightarrow> p \<noteq> None"

section \<open>The generated accessors\<close>

definition NewRequestLog :: "'s capnp_lib \<Rightarrow> go_error + 's" where
  "NewRequestLog lib = cap_NewStruct lib 16 5"

definition NewRootRequestLog :: "'s capnp_lib \<Rightarrow> go_error + 's" where
  "NewRootRequestLog lib = cap_NewRootStruct lib 16 5"

definition RequestLog_Timestamp :: "'s capnp_lib \<Rightarrow> 's \<Rightarrow> 64 word" where
  "RequestLog_Timestamp lib s = cap_Uint64 lib 0 s"

definition RequestLog_SetTimestamp :: "'s capnp_lib \<Rightarrow> 64 word \<Rightarrow> 's \<Rightarrow> 's" where
  "RequestLog_SetTimestamp lib v s = cap_SetUint64 lib 0 v s"

definition RequestLog_Uuid :: "'s capnp_lib \<Rightarrow> 's \<Rightarrow> string \<times> go_error option" where
  "RequestLog_Uuid lib s = (let (p, err) = cap_Ptr lib 0 s in (ptr_Text p, err))"

definition RequestLog_HasUuid :: "'s capnp_lib \<Rightarrow> 's \<Rightarrow> bool" where
  "RequestLog_HasUuid lib s = (let (p, err) = cap_Ptr lib 0 s in ptr_IsValid p \<or> err \<noteq> None)"

definition RequestLog_UuidBytes :: "'s capnp_lib \<Rightarrow> 's \<Rightarrow> string option \<times> go_error option" where
  "RequestLog_UuidBytes lib s = cap_Ptr lib 0 s"

definition RequestLog_SetUuid :: "'s capnp_lib \<Rightarrow> string \<Rightarrow> 's \<Rightarrow> go_error option \<times> 's" where
  "RequestLog_SetUuid lib v s = cap_SetText lib 0 v s"

definition RequestLog_Record :: "'s capnp_lib \<Rightarrow> 's \<Rightarrow> string \<times> go_error option" where
  "RequestLog_Record lib s = (let (p, err) = cap_Ptr lib 1 s in (ptr_Text p, err))"

definition RequestLog_HasRecord :: "'s capnp_lib \<Rightarrow> 's \<Rightarrow> bool" where
  "RequestLog_HasRecord lib s = (let (p, err) = cap_Ptr lib 1 s in ptr_IsValid p \<or> err \<noteq> None)"

definition RequestLog_RecordBytes :: "'s capnp_lib \<Rightarrow> 's \<Rightarrow> string option \<times> go_error option" where
  "RequestLog_RecordBytes lib s = cap_Ptr lib 1 s"

definition RequestLog_SetRecord :: "'s capnp_lib \<Rightarrow> string \<Rightarrow> 's \<Rightarrow> go_error option \<times> 's" where
  "RequestLog_SetRecord lib v s = cap_SetText lib 1 v s"

definition RequestLog_Type :: "'s capnp_lib \<Rightarrow> 's \<Rightarrow> string \<times> go_error option" where
  "RequestLog_Type lib s = (let (p, err) = cap_Ptr lib 2 s in (ptr_Text p, err))"

definition RequestLog_HasType :: "'s capnp_lib \<Rightarrow> 's \<Rightarrow> bool" where
  "RequestLog_HasType lib s = (let (p, err) = cap_Ptr lib 2 s in ptr_IsValid p \<or> err \<noteq> None)"

definition RequestLog_TypeBytes :: "'s capnp_lib \<Rightarrow> 's \<Rightarrow> string option \<times> go_error option" where
  "RequestLog_TypeBytes lib s = cap_Ptr lib 2 s"

definition RequestLog_SetType :: "'s capnp_lib \<Rightarrow> string \<Rightarrow> 's \<Rightarrow> go_error option \<times> 's" where
  "RequestLog_SetType lib v s = cap_SetText lib 2 v s"

definition RequestLog_Ip :: "'s capnp_lib \<Rightarrow> 's \<Rightarrow> string \<times> go_error option" where
  "RequestLog_Ip lib s = (let (p, err) = cap_Ptr lib 3 s in (ptr_Text p, err))"

definition RequestLog_HasIp :: "'s capnp_lib \<Rightarrow> 's \<Rightarrow> bool" where
  "RequestLog_HasIp lib s = (let (p, err) = cap_Ptr lib 3 s in ptr_IsValid p \<or> err \<noteq> None)"

definition RequestLog_IpBytes :: "'s capnp_lib \<Rightarrow> 's \<Rightarrow> string option \<times> go_error option" where
  "RequestLog_IpBytes lib s = cap_Ptr lib 3 s"

definition RequestLog_SetIp :: "'s capnp_lib \<Rightarrow> string \<Rightarrow> 's \<Rightarrow> go_error option \<times> 's" where
  "RequestLog_SetIp lib v s = cap_SetText lib 3 v s"

definition RequestLog_Country :: "'s capnp_lib \<Rightarrow> 's \<Rightarrow> string \<times> go_error option" where
  "RequestLog_Country lib s = (let (p, err) = cap_Ptr lib 4 s in (ptr_Text p, err))"

definition RequestLog_HasCountry :: "'s capnp_lib \<Rightarrow> 's \<Rightarrow> bool" where
  "RequestLog_HasCountry lib s = (let (p, err) = cap_Ptr lib 4 s in ptr_IsValid p \<or> err \<noteq> None)"

definition RequestLog_CountryBytes :: "'s capnp_lib \<Rightarrow> 's \<Rightarrow> string option \<times> go_error option" where
  "RequestLog_CountryBytes lib s = cap_Ptr lib 4 s"

definition RequestLog_SetCountry :: "'s capnp_lib \<Rightarrow> string \<Rightarrow> 's \<Rightarrow> go_error option \<times> 's" where
  "RequestLog_SetCountry lib v s = cap_SetText lib 4 v s"

definition RequestLog_Asn :: "'s capnp_lib \<Rightarrow> 's \<Rightarrow> 32 word" where
  "RequestLog_Asn lib s = cap_Uint32 lib 8 s"

definition RequestLog_SetAsn :: "'s capnp_lib \<Rightarrow> 32 word \<Rightarrow> 's \<Rightarrow> 's" where
  "RequestLog_SetAsn lib v s = cap_SetUint32 lib 8 v s"

definition RequestLog_Responsecode :: "'s capnp_lib \<Rightarrow> 's \<Rightarrow> 16 word" where
  "RequestLog_Responsecode lib s = cap_Uint16 lib 12 s"

definition RequestLog_SetResponsecode :: "'s capnp_lib \<Rightarrow> 16 word \<Rightarrow> 's \<Rightarrow> 's" where
  "RequestLog_SetResponsecode lib v s = cap_SetUint16 lib 12 v s"

definition RequestLog_Processtime :: "'s capnp_lib \<Rightarrow> 's \<Rightarrow> 16 word" where
  "RequestLog_Processtime lib s = cap_Uint16 lib 14 s"

definition RequestLog_SetProcesstime :: "'s capnp_lib \<Rightarrow> 16 word \<Rightarrow> 's \<Rightarrow> 's" where
  "RequestLog_SetProcesstime lib v s = cap_SetUint16 lib 14 v s"

lemmas accessors = RequestLog_Timestamp_def RequestLog_SetTimestamp_def RequestLog_Asn_def RequestLog_SetAsn_def RequestLog_Responsecode_def RequestLog_SetResponsecode_def RequestLog_Processtime_def RequestLog_SetProcesstime_def RequestLog_Uuid_def RequestLog_SetUuid_def RequestLog_Record_def RequestLog_SetRecord_def RequestLog_Type_def RequestLog_SetType_def RequestLog_Ip_def RequestLog_SetIp_def RequestLog_Country_def RequestLog_SetCountry_def
lemmas presence_accessors = RequestLog_HasUuid_def RequestLog_UuidBytes_def RequestLog_HasRecord_def RequestLog_RecordBytes_def RequestLog_HasType_def RequestLog_TypeBytes_def RequestLog_HasIp_def RequestLog_IpBytes_def RequestLog_HasCountry_def RequestLog_CountryBytes_def

section \<open>What the library documents\<close>

text \<open>
  Two ranges of bytes do not overlap.
\<close>

definition apart :: "nat \<Rightarrow> nat \<Rightarrow> nat \<Rightarrow> nat \<Rightarrow> bool" where
  "apart off n off' n' \<longleftrightarrow> off + n \<le> off' \<or> off' + n' \<le> off"

text \<open>
  \<open>valid s\<close> says that \<open>s\<close> has a data section of 16 bytes and five pointers. A new struct reads as zero
  everywhere, a value that was set is read back, setting one changes nothing outside its bytes, and
  setting a text, when it reports no error, changes that pointer only (to null for the empty text).
\<close>

definition fresh_ok :: "'s capnp_lib \<Rightarrow> ('s \<Rightarrow> bool) \<Rightarrow> 's \<Rightarrow> bool" where
  "fresh_ok lib valid s \<longleftrightarrow> valid s \<and>
     (\<forall>off. cap_Uint64 lib off s = 0 \<and> cap_Uint32 lib off s = 0 \<and> cap_Uint16 lib off s = 0 \<and>
        cap_Ptr lib off s = (None, None))"

definition set_ok :: "'s capnp_lib \<Rightarrow> ('s \<Rightarrow> bool) \<Rightarrow> nat \<Rightarrow> nat \<Rightarrow> 's \<Rightarrow> 's \<Rightarrow> bool" where
  "set_ok lib valid off n s s' \<longleftrightarrow> valid s' \<and> (\<forall>i. cap_Ptr lib i s' = cap_Ptr lib i s) \<and>
     (\<forall>o'. (o' + 8 \<le> 16 \<and> apart off n o' 8 \<longrightarrow> cap_Uint64 lib o' s' = cap_Uint64 lib o' s) \<and>
           (o' + 4 \<le> 16 \<and> apart off n o' 4 \<longrightarrow> cap_Uint32 lib o' s' = cap_Uint32 lib o' s) \<and>
           (o' + 2 \<le> 16 \<and> apart off n o' 2 \<longrightarrow> cap_Uint16 lib o' s' = cap_Uint16 lib o' s))"

definition text_ok :: "'s capnp_lib \<Rightarrow> ('s \<Rightarrow> bool) \<Rightarrow> nat \<Rightarrow> string \<Rightarrow> 's \<Rightarrow> 's \<Rightarrow> bool" where
  "text_ok lib valid i v s s' \<longleftrightarrow> valid s' \<and>
     (\<forall>j<5. cap_Ptr lib j s' = 
       (if j = i then (if v = [] then None else Some v, None) else cap_Ptr lib j s)) \<and>
     (\<forall>off. cap_Uint64 lib off s' = cap_Uint64 lib off s \<and>
        cap_Uint32 lib off s' = cap_Uint32 lib off s \<and> cap_Uint16 lib off s' = cap_Uint16 lib off s)"

definition capnp_laws :: "'s capnp_lib \<Rightarrow> ('s \<Rightarrow> bool) \<Rightarrow> bool" where
  "capnp_laws lib valid \<longleftrightarrow>
     (\<forall>s. cap_NewRootStruct lib 16 5 = Inr s \<longrightarrow> fresh_ok lib valid s) \<and>
     (\<forall>s off v. valid s \<longrightarrow> off + 8 \<le> 16 \<longrightarrow> set_ok lib valid off 8 s (cap_SetUint64 lib off v s) \<and>
        cap_Uint64 lib off (cap_SetUint64 lib off v s) = v) \<and>
     (\<forall>s off v. valid s \<longrightarrow> off + 4 \<le> 16 \<longrightarrow> set_ok lib valid off 4 s (cap_SetUint32 lib off v s) \<and>
        cap_Uint32 lib off (cap_SetUint32 lib off v s) = v) \<and>
     (\<forall>s off v. valid s \<longrightarrow> off + 2 \<le> 16 \<longrightarrow> set_ok lib valid off 2 s (cap_SetUint16 lib off v s) \<and>
        cap_Uint16 lib off (cap_SetUint16 lib off v s) = v) \<and>
     (\<forall>s i v s'. valid s \<longrightarrow> i < 5 \<longrightarrow> cap_SetText lib i v s = (None, s') \<longrightarrow>
        text_ok lib valid i v s s')"

section \<open>The struct as a record\<close>

record RequestLog =
  rl_Timestamp :: "64 word"
  rl_Uuid :: string
  rl_Record :: string
  rl_Type :: string
  rl_Responsecode :: uint16
  rl_Processtime :: uint16
  rl_Ip :: string
  rl_Country :: string
  rl_Asn :: uint32

definition new_RequestLog :: RequestLog where
  "new_RequestLog = \<lparr>rl_Timestamp = 0, rl_Uuid = [], rl_Record = [], rl_Type = [],
     rl_Responsecode = 0, rl_Processtime = 0, rl_Ip = [], rl_Country = [], rl_Asn = 0\<rparr>"

text \<open>What a reader of the log sees through the accessors.\<close>

definition read_log :: "'s capnp_lib \<Rightarrow> 's \<Rightarrow> RequestLog" where
  "read_log lib s = \<lparr>rl_Timestamp = RequestLog_Timestamp lib s, rl_Uuid = fst (RequestLog_Uuid lib s),
     rl_Record = fst (RequestLog_Record lib s), rl_Type = fst (RequestLog_Type lib s),
     rl_Responsecode = RequestLog_Responsecode lib s, rl_Processtime = RequestLog_Processtime lib s,
     rl_Ip = fst (RequestLog_Ip lib s), rl_Country = fst (RequestLog_Country lib s),
     rl_Asn = RequestLog_Asn lib s\<rparr>"

lemma NewRoot_view:
  "capnp_laws lib valid \<Longrightarrow> NewRootRequestLog lib = Inr s \<Longrightarrow> valid s \<and> read_log lib s = new_RequestLog"
  by (simp add: capnp_laws_def NewRootRequestLog_def fresh_ok_def read_log_def accessors ptr_Text_def
      new_RequestLog_def)

text \<open>Each setter implements the update of its field: the field is written and no other changes.\<close>

lemma laws_Uint64:
  "capnp_laws lib valid \<Longrightarrow> valid s \<Longrightarrow> off + 8 \<le> 16 \<Longrightarrow>
     set_ok lib valid off 8 s (cap_SetUint64 lib off v s) \<and> cap_Uint64 lib off (cap_SetUint64 lib off v s) = v"
  by (simp add: capnp_laws_def)

lemma laws_Uint32:
  "capnp_laws lib valid \<Longrightarrow> valid s \<Longrightarrow> off + 4 \<le> 16 \<Longrightarrow>
     set_ok lib valid off 4 s (cap_SetUint32 lib off v s) \<and> cap_Uint32 lib off (cap_SetUint32 lib off v s) = v"
  by (simp add: capnp_laws_def)

lemma laws_Uint16:
  "capnp_laws lib valid \<Longrightarrow> valid s \<Longrightarrow> off + 2 \<le> 16 \<Longrightarrow>
     set_ok lib valid off 2 s (cap_SetUint16 lib off v s) \<and> cap_Uint16 lib off (cap_SetUint16 lib off v s) = v"
  by (simp add: capnp_laws_def)

lemma laws_Text:
  "capnp_laws lib valid \<Longrightarrow> valid s \<Longrightarrow> i < 5 \<Longrightarrow> cap_SetText lib i v s = (None, s') \<Longrightarrow>
     text_ok lib valid i v s s'"
  by (simp add: capnp_laws_def)

lemmas view_simps = read_log_def accessors set_ok_def text_ok_def apart_def ptr_Text_def Let_def split_beta

lemma SetTimestamp_view:
  assumes "capnp_laws lib valid" "valid s"
  shows "valid (RequestLog_SetTimestamp lib v s) \<and>
    read_log lib (RequestLog_SetTimestamp lib v s) = (read_log lib s)\<lparr>rl_Timestamp := v\<rparr>"
  using laws_Uint64 [OF assms, of 0 v] by (simp add: view_simps)

lemma SetAsn_view:
  assumes "capnp_laws lib valid" "valid s"
  shows "valid (RequestLog_SetAsn lib v s) \<and>
    read_log lib (RequestLog_SetAsn lib v s) = (read_log lib s)\<lparr>rl_Asn := v\<rparr>"
  using laws_Uint32 [OF assms, of 8 v] by (simp add: view_simps)

lemma SetResponsecode_view:
  assumes "capnp_laws lib valid" "valid s"
  shows "valid (RequestLog_SetResponsecode lib v s) \<and>
    read_log lib (RequestLog_SetResponsecode lib v s) = (read_log lib s)\<lparr>rl_Responsecode := v\<rparr>"
  using laws_Uint16 [OF assms, of 12 v] by (simp add: view_simps)

lemma SetProcesstime_view:
  assumes "capnp_laws lib valid" "valid s"
  shows "valid (RequestLog_SetProcesstime lib v s) \<and>
    read_log lib (RequestLog_SetProcesstime lib v s) = (read_log lib s)\<lparr>rl_Processtime := v\<rparr>"
  using laws_Uint16 [OF assms, of 14 v] by (simp add: view_simps)

text \<open>The five texts alike: \<open>put\<close> updates the field whose setter is \<open>set\<close>.\<close>

definition text_setter ::
  "'s capnp_lib \<Rightarrow> ('s \<Rightarrow> bool) \<Rightarrow> (string \<Rightarrow> 's \<Rightarrow> go_error option \<times> 's) \<Rightarrow>
     (string \<Rightarrow> RequestLog \<Rightarrow> RequestLog) \<Rightarrow> bool" where
  "text_setter lib valid setter put \<longleftrightarrow>
     (\<forall>v s s'. valid s \<longrightarrow> setter v s = (None, s') \<longrightarrow> valid s' \<and> read_log lib s' = put v (read_log lib s))"

lemma SetUuid_view:
  assumes "capnp_laws lib valid"
  shows "text_setter lib valid (RequestLog_SetUuid lib) (\<lambda>v. rl_Uuid_update (\<lambda>_. v))"
  unfolding text_setter_def
  by (intro allI impI, drule laws_Text [OF assms, of _ 0]) (auto simp: view_simps)

lemma SetRecord_view:
  assumes "capnp_laws lib valid"
  shows "text_setter lib valid (RequestLog_SetRecord lib) (\<lambda>v. rl_Record_update (\<lambda>_. v))"
  unfolding text_setter_def
  by (intro allI impI, drule laws_Text [OF assms, of _ 1]) (auto simp: view_simps)

lemma SetType_view:
  assumes "capnp_laws lib valid"
  shows "text_setter lib valid (RequestLog_SetType lib) (\<lambda>v. rl_Type_update (\<lambda>_. v))"
  unfolding text_setter_def
  by (intro allI impI, drule laws_Text [OF assms, of _ 2]) (auto simp: view_simps)

lemma SetIp_view:
  assumes "capnp_laws lib valid"
  shows "text_setter lib valid (RequestLog_SetIp lib) (\<lambda>v. rl_Ip_update (\<lambda>_. v))"
  unfolding text_setter_def
  by (intro allI impI, drule laws_Text [OF assms, of _ 3]) (auto simp: view_simps)

lemma SetCountry_view:
  assumes "capnp_laws lib valid"
  shows "text_setter lib valid (RequestLog_SetCountry lib) (\<lambda>v. rl_Country_update (\<lambda>_. v))"
  unfolding text_setter_def
  by (intro allI impI, drule laws_Text [OF assms, of _ 4]) (auto simp: view_simps)

lemmas setter_views = SetUuid_view SetRecord_view SetType_view SetIp_view SetCountry_view

end
