(* ===== verification/Log_Format.thy ===== *)
theory Log_Format
  imports Healthcheck Capnp_Log
begin

text \<open>
  \<open>handler/logformat/logformat.go\<close>: the formatter that turns a log entry of a request into a Cap'n
  Proto message. It reads the entry by type assertions, which panic on a missing value or one of
  another dynamic type. It fills in a Cap'n Proto struct through the generated accessors; what a reader
  of the log sees is compared with the entry.
\<close>

section \<open>Definitions\<close>

definition get_string :: "log_value option \<Rightarrow> go_panic + string" where
  "get_string v = (case v of Some (LStr s) \<Rightarrow> Inr s | _ \<Rightarrow> Inl TypeAssertion)"

definition get_int :: "log_value option \<Rightarrow> go_panic + int" where
  "get_int v = (case v of Some (LInt i) \<Rightarrow> Inr i | _ \<Rightarrow> Inl TypeAssertion)"

definition get_int64 :: "log_value option \<Rightarrow> go_panic + int" where
  "get_int64 v = (case v of Some (LInt64 i) \<Rightarrow> Inr i | _ \<Rightarrow> Inl TypeAssertion)"

definition get_uint :: "log_value option \<Rightarrow> go_panic + uint" where
  "get_uint v = (case v of Some (LUint i) \<Rightarrow> Inr i | _ \<Rightarrow> Inl TypeAssertion)"

text \<open>
  The steps of \<open>Format\<close> run over the struct that is filled in. A setter of a text field returns its
  error, which ends the function.
\<close>

definition set_text ::
  "(string \<Rightarrow> 's \<Rightarrow> go_error option \<times> 's) \<Rightarrow> log_value option \<Rightarrow>
     ('s, go_error + string) go \<Rightarrow> ('s, go_error + string) go" where
  "set_text setter v next =
     Bind (Lift (get_string v)) (\<lambda>t.
     Bind (Extern (setter t)) (\<lambda>err.
     case err of Some e \<Rightarrow> Return (Inl e) | None \<Rightarrow> next))"

text \<open>From the timestamp to the encoder.\<close>

definition fill_requestLog ::
  "'s capnp_lib \<Rightarrow> int \<Rightarrow> (string \<rightharpoonup> log_value) \<Rightarrow> ('s, go_error + string) go" where
  "fill_requestLog lib unixtime data =
     Seq (Modify (RequestLog_SetTimestamp lib (word_of_int unixtime)))
     (set_text (RequestLog_SetUuid lib) (data ''domain_uuid'')
     (set_text (RequestLog_SetRecord lib) (data ''record'')
     (set_text (RequestLog_SetType lib) (data ''type'')
     (Bind (Lift (get_int (data ''response_code''))) (\<lambda>code.
      Seq (Modify (RequestLog_SetResponsecode lib (word_of_int code)))
     (Bind (Lift (get_int64 (data ''process_time''))) (\<lambda>time.
      Seq (Modify (RequestLog_SetProcesstime lib (word_of_int time)))
     (let finish = Bind (Gets (cap_Encode lib)) Return;
          asn = (if data ''source_asn'' = None then finish
                 else Bind (Lift (get_uint (data ''source_asn''))) (\<lambda>n.
                      Seq (Modify (RequestLog_SetAsn lib (ucast n))) finish));
          country = (if data ''source_country'' = None then asn
                     else set_text (RequestLog_SetCountry lib) (data ''source_country'') asn)
      in if data ''client_subnet'' = None then country
         else set_text (RequestLog_SetIp lib) (data ''client_subnet'') country))))))))"

definition Format ::
  "'s capnp_lib \<Rightarrow> int \<Rightarrow> (string \<rightharpoonup> log_value) \<Rightarrow> ('s, go_error + string) go" where
  "Format lib unixtime data =
     (case cap_NewMessage lib of Some err \<Rightarrow> Return (Inl err) | None \<Rightarrow>
      (case NewRootRequestLog lib of Inl err \<Rightarrow> Return (Inl err) | Inr requestLog \<Rightarrow>
       Seq (Modify (\<lambda>_. requestLog)) (fill_requestLog lib unixtime data)))"

section \<open>Lemmas\<close>

text \<open>
  The entries the formatter accepts: the mandatory values are there with their types, the optional
  ones have their types where they are there.
\<close>

definition loggable :: "(string \<rightharpoonup> log_value) \<Rightarrow> bool" where
  "loggable data \<longleftrightarrow>
     (\<exists>s. data ''domain_uuid'' = Some (LStr s)) \<and> (\<exists>s. data ''record'' = Some (LStr s)) \<and>
     (\<exists>s. data ''type'' = Some (LStr s)) \<and> (\<exists>i. data ''response_code'' = Some (LInt i)) \<and>
     (\<exists>i. data ''process_time'' = Some (LInt64 i)) \<and>
     (data ''client_subnet'' = None \<or> (\<exists>s. data ''client_subnet'' = Some (LStr s))) \<and>
     (data ''source_country'' = None \<or> (\<exists>s. data ''source_country'' = Some (LStr s))) \<and>
     (data ''source_asn'' = None \<or> (\<exists>n. data ''source_asn'' = Some (LUint n)))"

lemma wp_set_text [wp_rules]:
  "wp E (set_text setter v next) Q s =
     (case get_string v of
        Inl p \<Rightarrow> E p
      | Inr t \<Rightarrow> (case setter t s of
                  (Some err, s') \<Rightarrow> Q (Inl err) s'
                | (None, s') \<Rightarrow> wp E next Q s'))"
  by (simp add: set_text_def wp_rules split: sum.splits option.splits prod.splits)

lemmas getters = get_string_def get_int_def get_int64_def get_uint_def

text \<open>The optional values pass, one at a time.\<close>

lemma wp_optional_text:
  assumes "v = None \<or> (\<exists>s. v = Some (LStr s))" "\<And>s. wp E next (\<lambda>_ _. True) s"
  shows "wp E (if v = None then next else set_text setter v next) (\<lambda>_ _. True) s"
  using assms by (auto simp: wp_rules getters split: option.splits prod.splits)

lemma wp_optional_uint:
  assumes "v = None \<or> (\<exists>n. v = Some (LUint n))" "\<And>s. wp E next (\<lambda>_ _. True) s"
  shows "wp E (if v = None then next
               else Bind (Lift (get_uint v)) (\<lambda>n. Seq (Modify (put n)) next)) (\<lambda>_ _. True) s"
  using assms by (auto simp: wp_rules getters)

lemma wp_mandatory_text:
  assumes "\<exists>s. v = Some (LStr s)" "\<And>s. wp E next (\<lambda>_ _. True) s"
  shows "wp E (set_text setter v next) (\<lambda>_ _. True) s"
  using assms by (auto simp: wp_rules getters split: option.splits prod.splits)

lemma Format_loggable:
  fixes lib :: "'s capnp_lib"
  assumes "loggable data"
  shows "wp NoPanic (Format lib unixtime data) (\<lambda>_ _. True) s"
proof -
  obtain code time where nums: "data ''response_code'' = Some (LInt code)"
    "data ''process_time'' = Some (LInt64 time)"
    using assms by (auto simp: loggable_def)
  have num_steps: "wp NoPanic (Bind (Lift (get_int (data ''response_code''))) f) Q t =
        wp NoPanic (f code) Q t"
    "wp NoPanic (Bind (Lift (get_int64 (data ''process_time''))) f) Q t = wp NoPanic (f time) Q t"
    for f :: "int \<Rightarrow> ('s, go_error + string) go" and Q t
    by (simp_all add: nums getters wp_rules)
  have encode: "wp NoPanic (Bind (Gets (cap_Encode lib)) Return) (\<lambda>_ _. True) t" for t
    by (simp add: wp_rules)
  show ?thesis
    unfolding Format_def fill_requestLog_def Let_def
    by (auto simp only: wp_rules(1,4,5,6) num_steps split: option.splits sum.splits
        intro!: wp_mandatory_text wp_optional_text wp_optional_uint encode)
      (use assms in \<open>auto simp: loggable_def\<close>)
qed

text \<open>The nil map that is received from the closed queue is not such an entry.\<close>

lemma Format_nil_panics:
  "cap_NewMessage lib = None \<Longrightarrow> NewRootRequestLog lib = Inr requestLog \<Longrightarrow>
     Format lib unixtime Map.empty s = Inl TypeAssertion"
  by (simp add: Format_def fill_requestLog_def set_text_def get_string_def Seq_def Bind_def Modify_def Lift_def)


section \<open>What a reader of the log sees\<close>

text \<open>The values of an entry as the message holds them; a value that is missing reads as zero.\<close>

definition str_of :: "log_value option \<Rightarrow> string" where
  "str_of v = (case v of Some (LStr t) \<Rightarrow> t | _ \<Rightarrow> [])"

definition int_of :: "log_value option \<Rightarrow> int" where
  "int_of v = (case v of Some (LInt i) \<Rightarrow> i | Some (LInt64 i) \<Rightarrow> i | _ \<Rightarrow> 0)"

definition uint_of :: "log_value option \<Rightarrow> uint" where
  "uint_of v = (case v of Some (LUint n) \<Rightarrow> n | _ \<Rightarrow> 0)"

definition log_record :: "int \<Rightarrow> (string \<rightharpoonup> log_value) \<Rightarrow> RequestLog" where
  "log_record unixtime data = \<lparr>rl_Timestamp = word_of_int unixtime,
     rl_Uuid = str_of (data ''domain_uuid''), rl_Record = str_of (data ''record''),
     rl_Type = str_of (data ''type''), rl_Responsecode = word_of_int (int_of (data ''response_code'')),
     rl_Processtime = word_of_int (int_of (data ''process_time'')),
     rl_Ip = str_of (data ''client_subnet''), rl_Country = str_of (data ''source_country''),
     rl_Asn = ucast (uint_of (data ''source_asn''))\<rparr>"

text \<open>
  From a struct that reads as \<open>V\<close>, the rest of the function, when it returns bytes, has encoded a struct
  that reads as \<open>W\<close>.
\<close>

definition fills ::
  "'s capnp_lib \<Rightarrow> ('s \<Rightarrow> bool) \<Rightarrow> RequestLog \<Rightarrow> RequestLog \<Rightarrow> ('s, go_error + string) go \<Rightarrow> bool" where
  "fills lib valid V W m \<longleftrightarrow>
     (\<forall>s. valid s \<and> read_log lib s = V \<longrightarrow>
        wp AnyPanic m (\<lambda>r s'. \<forall>out. r = Inr out \<longrightarrow> cap_Encode lib s' = Inr out \<and> read_log lib s' = W) s)"

lemma fills_finish: "V = W \<Longrightarrow> fills lib valid V W (Bind (Gets (cap_Encode lib)) Return)"
  by (simp add: fills_def wp_rules)

lemma fills_text:
  assumes "text_setter lib valid setter put" "\<And>t. v = Some (LStr t) \<Longrightarrow> fills lib valid (put t V) W next"
  shows "fills lib valid V W (set_text setter v next)"
proof -
  have "wp AnyPanic (set_text setter v next)
      (\<lambda>r s'. \<forall>out. r = Inr out \<longrightarrow> cap_Encode lib s' = Inr out \<and> read_log lib s' = W) s"
    if "valid s" "read_log lib s = V" for s
  proof (cases "get_string v")
    case (Inr t)
    then have v: "v = Some (LStr t)" by (simp add: getters split: option.splits log_value.splits)
    obtain err s' where st: "setter t s = (err, s')" by fastforce
    show ?thesis
    proof (cases err)
      case None
      with assms(1) that st have "valid s' \<and> read_log lib s' = put t V" by (simp add: text_setter_def)
      with assms(2) [OF v] None Inr st show ?thesis by (simp add: fills_def wp_rules)
    qed (simp add: wp_rules Inr st)
  qed (simp add: wp_rules)
  then show ?thesis by (simp add: fills_def)
qed

lemma fills_number:
  assumes "\<And>s. valid s \<Longrightarrow> valid (f s) \<and> read_log lib (f s) = g (read_log lib s)"
    and "fills lib valid (g V) W next"
  shows "fills lib valid V W (Seq (Modify f) next)"
  using assms by (simp add: fills_def wp_rules)

lemma fills_value:
  "(\<And>x. r = Inr x \<Longrightarrow> fills lib valid V W (f x)) \<Longrightarrow> fills lib valid V W (Bind (Lift r) f)"
  by (cases r) (simp_all add: fills_def wp_rules)

lemma fills_optional:
  "(v = None \<Longrightarrow> fills lib valid V W m) \<Longrightarrow> (v \<noteq> None \<Longrightarrow> fills lib valid V W k) \<Longrightarrow>
     fills lib valid V W (if v = None then m else k)"
  by simp

lemmas value_of = str_of_def int_of_def uint_of_def

lemma got_values:
  "get_int v = Inr i \<Longrightarrow> int_of v = i" "get_int64 v = Inr i \<Longrightarrow> int_of v = i" "get_uint v = Inr n \<Longrightarrow> uint_of v = n"
  by (auto simp: getters value_of split: option.splits log_value.splits)

text \<open>The optional values, in the order of the code.\<close>

lemma fills_asn:
  assumes "capnp_laws lib valid"
    and "W = V\<lparr>rl_Asn := ucast (uint_of v)\<rparr>" "rl_Asn V = 0"
  shows "fills lib valid V W
    (if v = None then Bind (Gets (cap_Encode lib)) Return
     else Bind (Lift (get_uint v)) (\<lambda>n.
          Seq (Modify (RequestLog_SetAsn lib (ucast n))) (Bind (Gets (cap_Encode lib)) Return)))"
  using assms(2,3) SetAsn_view [OF assms(1)]
  by (intro fills_optional fills_value fills_number [where g = "rl_Asn_update (\<lambda>_. _)"] fills_finish)
    (auto dest: got_values simp: uint_of_def)

lemma fills_optional_text:
  assumes "text_setter lib valid setter put"
    and "fills lib valid (if v = None then V else put (str_of v) V) W next"
  shows "fills lib valid V W (if v = None then next else set_text setter v next)"
  using assms(2) by (intro fills_optional fills_text [OF assms(1)]) (auto simp: str_of_def)

lemma fill_requestLog_fills:
  assumes laws: "capnp_laws lib valid"
  shows "fills lib valid new_RequestLog (log_record unixtime data) (fill_requestLog lib unixtime data)"
proof -
  note num =
    fills_number [where f = "RequestLog_SetTimestamp lib v" and g = "rl_Timestamp_update (\<lambda>_. v)" for v,
      OF SetTimestamp_view [OF laws]]
    fills_number [where f = "RequestLog_SetResponsecode lib v" and g = "rl_Responsecode_update (\<lambda>_. v)" for v,
      OF SetResponsecode_view [OF laws]]
    fills_number [where f = "RequestLog_SetProcesstime lib v" and g = "rl_Processtime_update (\<lambda>_. v)" for v,
      OF SetProcesstime_view [OF laws]]
  note texts = setter_views(1-3) [OF laws, THEN fills_text]
    setter_views(4,5) [OF laws, THEN fills_optional_text]
  show ?thesis
    unfolding fill_requestLog_def Let_def
    by (intro num texts fills_value fills_asn [OF laws])
      (auto simp: log_record_def new_RequestLog_def str_of_def dest: got_values)
qed

text \<open>
  C24. The log can be read back: when the formatter returns bytes, they are the encoding of a struct whose
  generated accessors return exactly the values of the entry, the timestamp and the numbers cut to the
  width of their fields, and zero or the empty text where the entry has no value.
\<close>

theorem Format_reads_back:
  assumes laws: "capnp_laws lib valid" and run: "Format lib unixtime data s = Inr (Inr out, s')"
  shows "cap_Encode lib s' = Inr out \<and> read_log lib s' = log_record unixtime data"
proof -
  obtain root where root: "NewRootRequestLog lib = Inr root" "cap_NewMessage lib = None"
    using run by (auto simp: Format_def Return_def split: option.splits sum.splits)
  then have "fill_requestLog lib unixtime data root = Inr (Inr out, s')"
    using run by (simp add: Format_def Seq_def Bind_def Modify_def)
  moreover have "valid root" "read_log lib root = new_RequestLog" using NewRoot_view [OF laws root(1)] by auto
  ultimately show ?thesis
    using fill_requestLog_fills [OF laws, of unixtime data] unfolding fills_def by (auto dest: wpD)
qed

section \<open>A struct of bytes\<close>

text \<open>An instance of the library: sixteen bytes, the least significant first, and five pointers.\<close>

definition read_bytes :: "(nat \<Rightarrow> int) \<Rightarrow> nat \<Rightarrow> nat \<Rightarrow> int" where
  "read_bytes d off n = (\<Sum>i<n. d (off + i) * 256 ^ i)"

definition write_bytes :: "nat \<Rightarrow> nat \<Rightarrow> int \<Rightarrow> (nat \<Rightarrow> int) \<Rightarrow> nat \<Rightarrow> int" where
  "write_bytes off n v d = (\<lambda>k. if off \<le> k \<and> k < off + n then v div 256 ^ (k - off) mod 256 else d k)"

type_synonym byte_struct = "(nat \<Rightarrow> int) \<times> (nat \<Rightarrow> string option)"

definition byte_lib :: "byte_struct capnp_lib" where
  "byte_lib = \<lparr>cap_NewMessage = None, cap_NewStruct = (\<lambda>_ _. Inr (\<lambda>_. 0, \<lambda>_. None)),
     cap_NewRootStruct = (\<lambda>_ _. Inr (\<lambda>_. 0, \<lambda>_. None)),
     cap_Uint64 = (\<lambda>off s. word_of_int (read_bytes (fst s) off 8)),
     cap_SetUint64 = (\<lambda>off v s. (write_bytes off 8 (uint v) (fst s), snd s)),
     cap_Uint32 = (\<lambda>off s. word_of_int (read_bytes (fst s) off 4)),
     cap_SetUint32 = (\<lambda>off v s. (write_bytes off 4 (uint v) (fst s), snd s)),
     cap_Uint16 = (\<lambda>off s. word_of_int (read_bytes (fst s) off 2)),
     cap_SetUint16 = (\<lambda>off v s. (write_bytes off 2 (uint v) (fst s), snd s)),
     cap_Ptr = (\<lambda>i s. (snd s i, None)),
     cap_SetText = (\<lambda>i t s. (None, (fst s, (snd s)(i := if t = [] then None else Some t)))),
     cap_Encode = (\<lambda>s. Inr (concat (map (\<lambda>i. case snd s i of None \<Rightarrow> [] | Some t \<Rightarrow> t) [0..<5])))\<rparr>"

lemma read_bytes_frame: "apart off n o' m \<Longrightarrow> read_bytes (write_bytes off n v d) o' m = read_bytes d o' m"
  unfolding read_bytes_def by (rule sum.cong) (auto simp: apart_def write_bytes_def)

lemma digits_256: "(\<Sum>i<n. v div 256 ^ i mod 256 * 256 ^ i) = v mod 256 ^ n" for v :: int
proof (induction n)
  case (Suc n)
  have "v mod (256 ^ n * 256) = v div 256 ^ n mod 256 * 256 ^ n + v mod 256 ^ n"
    using zmod_zmult2_eq [of 256 v "256 ^ n"] by simp
  with Suc show ?case by (simp add: mult.commute add.commute)
qed simp

lemma read_bytes_write: "read_bytes (write_bytes off n v d) off n = v mod 256 ^ n"
  unfolding read_bytes_def digits_256 [symmetric] by (rule sum.cong) (auto simp: write_bytes_def)

lemma byte_laws: "capnp_laws byte_lib (\<lambda>_. True)"
proof -
  have "word_of_int (uint v mod 256 ^ 8) = v" for v :: "64 word"
    using uint_lt2p [of v] by (simp add: mod_pos_pos_trivial)
  moreover have "word_of_int (uint v mod 256 ^ 4) = v" for v :: "32 word"
    using uint_lt2p [of v] by (simp add: mod_pos_pos_trivial)
  moreover have "word_of_int (uint v mod 256 ^ 2) = v" for v :: "16 word"
    using uint_lt2p [of v] by (simp add: mod_pos_pos_trivial)
  ultimately show ?thesis
    unfolding capnp_laws_def fresh_ok_def set_ok_def text_ok_def
    by (auto simp: byte_lib_def read_bytes_frame read_bytes_write) (simp_all add: read_bytes_def)
qed

definition example_entry :: "string \<rightharpoonup> log_value" where
  "example_entry = [''domain_uuid'' \<mapsto> LStr ''id'', ''record'' \<mapsto> LStr ''www.example.com.'', ''type'' \<mapsto> LStr ''A'',
     ''response_code'' \<mapsto> LInt 3, ''process_time'' \<mapsto> LInt64 70000, ''client_subnet'' \<mapsto> LStr ''1.2.3.0/24/0'']"

theorem Format_reads_back_witness:
  "\<exists>out s'. Format byte_lib 1600000000 example_entry (\<lambda>_. 0, \<lambda>_. None) = Inr (Inr out, s') \<and>
     rl_Responsecode (read_log byte_lib s') = 3 \<and> rl_Processtime (read_log byte_lib s') = 4464 \<and>
     rl_Ip (read_log byte_lib s') = ''1.2.3.0/24/0'' \<and> rl_Country (read_log byte_lib s') = []"
proof -
  obtain out s' where run: "Format byte_lib 1600000000 example_entry (\<lambda>_. 0, \<lambda>_. None) = Inr (Inr out, s')"
    by (simp add: Format_def fill_requestLog_def NewRootRequestLog_def set_text_def getters example_entry_def
        accessors byte_lib_def Seq_def Bind_def Modify_def Lift_def Extern_def Gets_def Return_def)
  with Format_reads_back [OF byte_laws run] show ?thesis
    by (simp add: log_record_def value_of example_entry_def)
qed

end
