(* ===== verification/Handler_Reply.thy ===== *)
theory Handler_Reply
  imports Handler_Chain Log_Format
begin

text \<open>
  What a request leaves behind: one message sent and one entry offered to the log queue, whatever
  path through the handler it took.
\<close>

section \<open>Sending and logging\<close>

definition log_entry :: "RequestContext \<Rightarrow> int \<Rightarrow> int \<Rightarrow> string \<rightharpoonup> log_value" where
  "log_entry c t res = (rc_LogData c)(''process_time'' \<mapsto> LInt64 t,
     ''response_code'' \<mapsto> LInt res, ''log_type'' \<mapsto> LStr ''request'')"

definition enqueue :: "(string \<rightharpoonup> log_value) list \<Rightarrow> (string \<rightharpoonup> log_value) \<Rightarrow>
    (string \<rightharpoonup> log_value) list" where
  "enqueue q d = (if length q < logQueue_capacity then q @ [d] else q)"

lemma reply_Msg_log [simp]: "reply_Msg lib (c\<lparr>rc_LogData := d\<rparr>) res = reply_Msg lib c res"
  by (simp add: reply_Msg_def Let_def)

lemma wp_Respond:
  "wp AnyPanic (Respond h c res) (\<lambda>_ s'.
     hs_sent s' = hs_sent s @ [reply_Msg (lib_rq (h_lib h)) c res] \<and>
     (\<exists>t. hs_logQueue s' = enqueue (hs_logQueue s) (log_entry c t res))) s"
  by (auto simp: Respond_def LogRequest_def Send_def Response_def Now_def World_def Let_def wp_rules
      enqueue_def log_entry_def)

lemma wp_Send:
  "wp NoPanic (Send h c res) (\<lambda>_ s'.
     hs_sent s' = hs_sent s @ [reply_Msg (lib_rq (h_lib h)) c res] \<and>
     hs_logQueue s' = hs_logQueue s) s"
  by (simp add: Send_def Response_def Let_def wp_rules)

text \<open>A step that keeps the outputs, followed by one that does not.\<close>

lemma wp_quiet_Bind:
  assumes "keeps outputs m" "yields P m"
    and "\<And>a t. P a \<Longrightarrow> outputs t = outputs s \<Longrightarrow> wp AnyPanic (k a) Q t"
  shows "wp AnyPanic (Bind m k) Q s"
  using wp_conj [OF keepsD [OF assms(1)] yieldsD [OF assms(2)]]
  unfolding wp_Bind by (rule wp_strengthen) (use assms(3) in blast)

section \<open>Log data\<close>

text \<open>Log data that \<open>LogRequest\<close> completes to an entry the formatter accepts.\<close>

definition log_ok :: "(string \<rightharpoonup> log_value) \<Rightarrow> bool" where
  "log_ok data \<longleftrightarrow>
     (\<exists>s. data ''domain_uuid'' = Some (LStr s)) \<and> (\<exists>s. data ''record'' = Some (LStr s)) \<and>
     (\<exists>s. data ''type'' = Some (LStr s)) \<and>
     (data ''client_subnet'' = None \<or> (\<exists>s. data ''client_subnet'' = Some (LStr s))) \<and>
     (data ''source_country'' = None \<or> (\<exists>s. data ''source_country'' = Some (LStr s))) \<and>
     (data ''source_asn'' = None \<or> (\<exists>n. data ''source_asn'' = Some (LUint n)))"

lemma log_ok_entry: "log_ok (rc_LogData c) \<Longrightarrow> loggable (log_entry c t res)"
  by (simp add: log_ok_def loggable_def log_entry_def)

lemma log_ok_new: "log_ok (rc_LogData (NewRequestContext lib now qtype typ dnssec_ok client r))"
  by (simp add: NewRequestContext_def Let_def log_ok_def split_beta)

section \<open>Every path replies once\<close>

text \<open>
  The context \<open>c\<close> a request \<open>c0\<close> is answered from: same message and same name, and log data that stay
  fit for the formatter.
\<close>

definition follows :: "RequestContext \<Rightarrow> RequestContext \<Rightarrow> bool" where
  "follows c0 c \<longleftrightarrow> rc_Req c = rc_Req c0 \<and> raw_name c = raw_name c0 \<and> rc_Auth c = rc_Auth c0 \<and>
     rc_QType c = rc_QType c0 \<and> (log_ok (rc_LogData c0) \<longrightarrow> log_ok (rc_LogData c))"

lemma follows_refl [simp]: "follows c c"
  by (simp add: follows_def)

lemma follows_sections: "follows c0 c \<Longrightarrow> sections_of c c' \<Longrightarrow> follows c0 c'"
  using sections_of_facts [of c c'] by (simp add: follows_def)

lemma follows_domain:
  "follows c0 c \<Longrightarrow> follows c0 (c\<lparr>rc_LogData := (rc_LogData c)(''domain_uuid'' \<mapsto> LStr d)\<rparr>)"
  by (simp add: follows_def log_ok_def)

lemma yields_log_source: "yields (follows c0) (log_source h c0)"
  unfolding log_source_def Let_def
  by (auto intro!: yields_intros simp: follows_def log_ok_def split: prod.splits)

lemma yields_tag:
  assumes "yields (sections_of c0) m" "r \<in> handler_rcodes"
  shows "yields (\<lambda>(c, res). sections_of c0 c \<and> res \<in> handler_rcodes) (Bind m (\<lambda>c. Return (c, r)))"
  by (rule yields_Bind_with [OF assms(1)]) (simp add: yields_Return assms(2))

lemma yields_add_NSec: "yields (sections_of c0) (add_NSec zone c0)"
  unfolding add_NSec_def by (intro yields_Bind yields_Return) simp

lemma yields_dnssec_stage:
  fixes h :: "('t, 'w) DnsRequestHandler"
  assumes "res \<in> handler_rcodes"
  shows "yields (\<lambda>(c, res'). sections_of c0 c \<and> res' \<in> handler_rcodes) (dnssec_stage h zone c0 res)"
proof -
  let ?P = "\<lambda>(c, res'). sections_of c0 c \<and> res' \<in> handler_rcodes"
  note tag = yields_tag [of c0]
  note nsec = yields_add_NSec [of c0 zone]
  have signs: "yields (sections_of c0) (sign_sections h zone c)" if "sections_of c0 c" for c
    unfolding sign_sections_def Let_def using that by (intro yields_Bind yields_Return) simp
  have "RcodeSuccess \<in> handler_rcodes" by (simp add: handler_rcodes_def)
  then have pre: "yields ?P
      (if res = RcodeSuccess
       then Bind (if rc_Answer c0 = [] then add_NSec zone c0 else Return c0) (\<lambda>c. Return (c, res))
       else if res = RcodeNameError
       then Bind (add_NSec zone c0) (\<lambda>c. Return (c, RcodeSuccess))
       else Return (c0, res))"
    using assms by (intro yields_if tag nsec yields_Return) simp_all
  show ?thesis
    unfolding dnssec_stage_def
    by (rule yields_if, simp add: yields_Return assms, rule yields_Bind_with [OF pre])
      (auto intro: tag signs)
qed

definition replied ::
  "('t, 'w) DnsRequestHandler \<Rightarrow> RequestContext \<Rightarrow> ('t, 'w) hstate \<Rightarrow> ('t, 'w) hstate \<Rightarrow> bool" where
  "replied h c0 s s' \<longleftrightarrow>
     (\<exists>c res t. follows c0 c \<and> res \<in> insert RcodeNotAuth handler_rcodes \<and>
        hs_sent s' = hs_sent s @ [reply_Msg (lib_rq (h_lib h)) c res] \<and>
        hs_logQueue s' = enqueue (hs_logQueue s) (log_entry c t res))"

lemma wp_Respond_replied:
  assumes "follows c0 c" "res \<in> insert RcodeNotAuth handler_rcodes" "outputs t = outputs s"
  shows "wp AnyPanic (Respond h c res) (\<lambda>_. replied h c0 s) t"
  by (rule wp_strengthen [OF wp_Respond]) (use assms in \<open>auto simp: replied_def outputs_def\<close>)

lemma replied_tail:
  fixes h :: "('t, 'w) DnsRequestHandler"
  assumes "follows c0 c" "outputs t = outputs s"
  shows "wp AnyPanic
      (Bind (HandleRequest_loop h zoneName zone c 0 q) (\<lambda>(c, res).
       Bind (dnssec_stage h zone c res) (\<lambda>(c, res). Respond h c res))) (\<lambda>_. replied h c0 s) t"
proof (rule wp_quiet_Bind [OF keeps_HandleRequest_loop yields_loop_rcodes [of c]])
  fix a and u :: "('t, 'w) hstate"
  assume a: "case a of (c', res) \<Rightarrow> sections_of c c' \<and> res \<in> handler_rcodes"
    and u: "outputs u = outputs t"
  obtain c' res where eq: "a = (c', res)" by fastforce
  have c': "follows c0 c'" "res \<in> handler_rcodes"
    using a follows_sections [OF assms(1)] by (auto simp: eq)
  have "wp AnyPanic (Bind (dnssec_stage h zone c' res) (\<lambda>(c, res). Respond h c res))
      (\<lambda>_. replied h c0 s) u"
    by (rule wp_quiet_Bind [OF keeps_dnssec_stage yields_dnssec_stage [OF c'(2)]])
      (use u assms(2) in \<open>auto intro!: wp_Respond_replied follows_sections [OF c'(1)]\<close>)
  then show "wp AnyPanic (case a of (c, res) \<Rightarrow>
      Bind (dnssec_stage h zone c res) (\<lambda>(c, res). Respond h c res)) (\<lambda>_. replied h c0 s) u"
    by (simp add: eq)
qed

lemma HandleRequest_replied: "wp AnyPanic (HandleRequest h c0) (\<lambda>_. replied h c0 s) s"
proof -
  have codes: "RcodeNotAuth \<in> insert RcodeNotAuth handler_rcodes"
    "RcodeServerFailure \<in> insert RcodeNotAuth handler_rcodes" by (simp_all add: handler_rcodes_def)
  show ?thesis
    unfolding HandleRequest_def Let_def
    by (rule wp_quiet_Bind [OF keeps_log_source yields_log_source])
      (auto intro!: wp_quiet_Bind [OF keeps_FindZone yields_True]
        wp_quiet_Bind [OF keeps_LoadZone yields_True] wp_Respond_replied codes replied_tail
        follows_domain split: option.split)
qed

end
