(* ===== verification/Handler_Safety.thy ===== *)
theory Handler_Safety
  imports Handler_Frame
begin

text \<open>
  When a request cannot panic. The conditions are on the data (zone configurations keep their SOA
  record, keys parse to DNSKEY records, no record set combines the health check with the \<open>location\<close>
  filter) and on the libraries (the caches return what was put into them); under them every
  operation of the request path runs through, and the records and zones it meets stay well formed.
\<close>

section \<open>Well-formed zones and records\<close>

definition key_ok :: "ZoneKey \<Rightarrow> bool" where
  "key_ok key \<longleftrightarrow>
     (\<exists>d. rr_Data (zk_DnsKey key) = RDNSKEY d \<and>
        (case algorithm_kind (key_Algorithm d) of
           RsaAlgorithm \<Rightarrow> (\<exists>n. zk_PrivateKey key = RsaKey n)
         | EcdsaAlgorithm \<Rightarrow> (\<exists>n. zk_PrivateKey key = EcdsaKey n)
         | UnsupportedAlgorithm \<Rightarrow> True))"

definition soa_ok :: "Zone \<Rightarrow> bool" where
  "soa_ok z \<longleftrightarrow> (\<exists>soa r. zc_SOA (zone_Config z) = Some soa \<and> soas_Data soa = Some r)"

definition zone_ok :: "Zone \<Rightarrow> bool" where
  "zone_ok z \<longleftrightarrow> soa_ok z \<and>
     (zc_DnsSec (zone_Config z) \<longrightarrow>
        (\<exists>zsk. zone_ZSK z = Some zsk \<and> key_ok zsk) \<and> zone_KSK z \<noteq> None \<and>
        zone_DnsKeySig z \<noteq> None)"

definition rrset_ok :: "('t, 'w) DnsRequestHandler \<Rightarrow> IP_RRSet \<Rightarrow> bool" where
  "rrset_ok h rrset \<longleftrightarrow>
     \<not> (hc_Enable (h_healthcheck h) \<and> fc_GeoFilter (ips_FilterConfig rrset) = ''location'')"

definition rec_ok :: "('t, 'w) DnsRequestHandler \<Rightarrow> Record \<Rightarrow> bool" where
  "rec_ok h r \<longleftrightarrow> rec_Zone r \<noteq> None \<and> rrset_ok h (rr_A r) \<and> rrset_ok h (rr_AAAA r)"

section \<open>Conditions on libraries and data\<close>

text \<open>
  \<open>held w\<close> is what the two caches hold in the world \<open>w\<close>: addresses of records and zones. Only the
  \<open>Set\<close> operations add to it, and \<open>Get\<close> returns members.
\<close>

type_synonym holding = "nat + Zone"

definition quiet :: "('w \<Rightarrow> 'b set) \<Rightarrow> ('w \<Rightarrow> 'a \<times> 'w) \<Rightarrow> bool" where
  "quiet held f \<longleftrightarrow> (\<forall>w. held (snd (f w)) \<subseteq> held w)"

definition quiet_effect :: "('w \<Rightarrow> 'b set) \<Rightarrow> ('w \<Rightarrow> 'w) \<Rightarrow> bool" where
  "quiet_effect held f \<longleftrightarrow> (\<forall>w. held (f w) \<subseteq> held w)"

definition hc_quiet :: "('w \<Rightarrow> 'b set) \<Rightarrow> 'w hc_lib \<Rightarrow> bool" where
  "hc_quiet held lib \<longleftrightarrow>
     (\<forall>k. quiet held (hl_cache_Get lib k)) \<and> (\<forall>k. quiet held (hl_status_Get lib k)) \<and>
     (\<forall>k i d. quiet_effect held (hl_cache_Set lib k i d))"

definition up_quiet :: "('w \<Rightarrow> 'b set) \<Rightarrow> 'w up_lib \<Rightarrow> bool" where
  "up_quiet held lib \<longleftrightarrow>
     (\<forall>k. quiet held (up_cache_Get lib k)) \<and>
     (\<forall>k rs d. quiet_effect held (up_cache_Set lib k rs d)) \<and>
     (\<forall>c q t. quiet held (up_Exchange lib c q t)) \<and> quiet held (up_Now lib)"

text \<open>Walking a map visits each of its entries once.\<close>

definition sec_quiet :: "('w \<Rightarrow> 'b set) \<Rightarrow> 'w sec_lib \<Rightarrow> bool" where
  "sec_quiet held lib \<longleftrightarrow>
     (\<forall>m. quiet held (sec_map_order lib m)) \<and>
     (\<forall>m w. mset (fst (sec_map_order lib m w)) = mset m) \<and>
     (\<forall>t k rs. quiet held (sec_Sign lib t k rs))"

definition caches_ok :: "('w \<Rightarrow> holding set) \<Rightarrow> ('t, 'w) h_lib \<Rightarrow> bool" where
  "caches_ok held lib \<longleftrightarrow>
     (\<forall>k. quiet held (lib_ZoneCache_Get lib k)) \<and> (\<forall>k. quiet held (lib_RecordCache_Get lib k)) \<and>
     (\<forall>k w z. fst (lib_ZoneCache_Get lib k w) = Some z \<longrightarrow> Inr z \<in> held w) \<and>
     (\<forall>k w p. fst (lib_RecordCache_Get lib k w) = Some p \<longrightarrow> Inl p \<in> held w) \<and>
     (\<forall>k z w. held (lib_ZoneCache_Set lib k z w) \<subseteq> insert (Inr z) (held w)) \<and>
     (\<forall>k p w. held (lib_RecordCache_Set lib k p w) \<subseteq> insert (Inl p) (held w))"

definition redis_quiet :: "('w \<Rightarrow> 'b set) \<Rightarrow> ('t, 'w) h_lib \<Rightarrow> bool" where
  "redis_quiet held lib \<longleftrightarrow>
     quiet held (lib_Now lib) \<and> (\<forall>k. quiet held (lib_GetHKeys lib k)) \<and>
     (\<forall>k. quiet held (lib_Get lib k)) \<and> (\<forall>k l. quiet held (lib_HGet lib k l))"

definition rq_quiet :: "('w \<Rightarrow> 'b set) \<Rightarrow> 'w rq_lib \<Rightarrow> bool" where
  "rq_quiet held lib \<longleftrightarrow>
     (\<forall>m. quiet held (rq_WriteMsg lib m)) \<and> quiet_effect held (rq_Close lib)"

definition libs_ok :: "('w \<Rightarrow> holding set) \<Rightarrow> ('t, 'w) h_lib \<Rightarrow> bool" where
  "libs_ok held lib \<longleftrightarrow>
     caches_ok held lib \<and> redis_quiet held lib \<and> hc_quiet held (lib_hc lib) \<and>
     up_quiet held (lib_up lib) \<and> sec_quiet held (lib_sec lib) \<and> rq_quiet held (lib_rq lib)"

text \<open>What the stored data and the databases must be like.\<close>

definition data_ok :: "('t, 'w) DnsRequestHandler \<Rightarrow> bool" where
  "data_ok h \<longleftrightarrow>
     (\<forall>db ip. \<exists>r. mm_asn (lib_geo (h_lib h)) (Some db) ip = Inr r) \<and>
     (cfg_LogSourceLocation (h_Config h) \<longrightarrow> geo_ASNDB (h_geoip h) \<noteq> None) \<and>
     (\<forall>txt cfg. zc_SOA cfg \<noteq> None \<longrightarrow> zc_SOA (fst (lib_decode_config (h_lib h) txt cfg)) \<noteq> None) \<and>
     (\<forall>txt r r'. lib_decode_record (h_lib h) txt r = Inr r' \<longrightarrow>
        rec_Zone r' = rec_Zone r \<and> rrset_ok h (rr_A r') \<and> rrset_ok h (rr_AAAA r')) \<and>
     (\<forall>txt x. lib_NewRR (h_lib h) txt = Inr x \<longrightarrow>
        (\<exists>rr d. x = Some rr \<and> rr_Data rr = RDNSKEY d)) \<and>
     (\<forall>rr txt pk i e. lib_NewPrivateKey (h_lib h) rr txt = Inr pk \<longrightarrow>
        (\<exists>d. rr_Data rr = RDNSKEY d) \<longrightarrow>
        key_ok \<lparr>zk_DnsKey = rr, zk_PrivateKey = pk, zk_KeyInception = i, zk_KeyExpiration = e\<rparr>)"

section \<open>The pieces that run over the world\<close>

lemma quiet_calm: "quiet held f \<Longrightarrow> calm held (\<lambda>_. True) (Extern f)"
  by (rule calm_Extern) (simp_all add: quiet_def)

lemma quiet_effect_calm: "quiet_effect held f \<Longrightarrow> calm held (\<lambda>_. True) (Modify f)"
  by (rule calm_Modify) (simp_all add: quiet_effect_def)

lemmas quiet_laws = hc_quiet_def up_quiet_def sec_quiet_def caches_ok_def redis_quiet_def
  rq_quiet_def libs_ok_def

lemma calm_getStatus:
  assumes "hc_quiet held lib"
  shows "calm held (\<lambda>_. True) (getStatus lib h host ip)"
  using assms unfolding getStatus_def loadItem_def Let_def
  by (auto simp: quiet_laws intro!: calm_intros quiet_calm quiet_effect_calm
      split: option.splits list.splits sum.splits)

lemma calm_status_at:
  assumes "hc_quiet held lib" "i < length (ips_Data rrset)"
  shows "calm held (\<lambda>_. True) (status_at lib h qname rrset i)"
  unfolding status_at_def
  by (rule calm_Bind) (use assms in \<open>auto simp: data_at_def intro!: calm_Lift calm_getStatus\<close>)

lemma calm_FilterHealthcheck:
  assumes "hc_quiet held lib"
  shows "calm held (\<lambda>m. length m = length (ips_Data rrset) \<and>
             (\<not> hc_Enable h \<longrightarrow> m = replicate (length (ips_Data rrset)) IpMaskWhite))
           (FilterHealthcheck lib h qname rrset (replicate (length (ips_Data rrset)) IpMaskWhite))"
proof -
  let ?ms = "replicate (length (ips_Data rrset)) IpMaskWhite"
  have best: "calm held (\<lambda>_. True) (hc_best lib h qname rrset ?ms)"
    unfolding hc_best_def
    by (rule calm_ForEach) (auto intro!: calm_intros calm_status_at assms)
  have mark: "calm held (\<lambda>m. length m = length ?ms) (hc_mark lib h qname rrset limit ?ms)" for limit
    unfolding hc_mark_def
    by (rule calm_ForEach) (auto intro!: calm_intros calm_status_at assms)
  show ?thesis
    unfolding FilterHealthcheck_def
    by (auto intro!: calm_intros best calm_mono [OF mark])
qed

lemma calm_sign:
  assumes "sec_quiet held lib" "key_ok key"
  shows "calm held (\<lambda>_. True) (sign lib rrs name key ttl)"
proof -
  obtain d where d: "rr_Data (zk_DnsKey key) = RDNSKEY d" using assms(2) by (auto simp: key_ok_def)
  then have "calm held (\<lambda>x. x = d) (Lift (key_data key))"
    by (intro calm_Lift [where a = d]) (simp_all add: key_data_def)
  then show ?thesis
    unfolding sign_def Let_def
    by (rule calm_Bind_with)
      (use assms d in \<open>auto simp: key_ok_def sec_quiet_def intro!: calm_intros quiet_calm
        split: key_kind.splits\<close>)
qed

lemma calm_sign_set:
  assumes "sec_quiet held lib" "zone_ok z" "zc_DnsSec (zone_Config z)" "rrs \<noteq> []"
  shows "calm held (\<lambda>_. True) (sign_set lib qname z rrs)"
  using assms unfolding sign_set_def zone_ok_def
  by (auto intro!: calm_intros calm_sign split: list.splits sum.splits)

lemma calm_Sign:
  assumes "sec_quiet held lib" "zone_ok z" "zc_DnsSec (zone_Config z)"
  shows "calm held (\<lambda>_. True) (Sign lib rrs qname z)"
  unfolding Sign_def
proof (rule calm_Bind_with [where R = "\<lambda>sets. \<forall>(k, rs) \<in> set sets. rs \<noteq> []"])
  have "set (fst (sec_map_order lib (splitSets rrs) w)) = set (splitSets rrs)" for w
    using assms(1) by (metis sec_quiet_def set_mset_mset)
  then show "calm held (\<lambda>sets. \<forall>(k, rs) \<in> set sets. rs \<noteq> [])
      (Extern (sec_map_order lib (splitSets rrs)))"
    using assms(1) splitSets_ok [of rrs]
    by (intro calm_Extern) (auto simp: sec_quiet_def quiet_def sets_ok_def)
next
  fix sets :: rr_sets
  assume "\<forall>(k, rs) \<in> set sets. rs \<noteq> []"
  then show "calm held (\<lambda>_. True) (ForEach sets (\<lambda>(_, rrset) res.
      Bind (sign_set lib qname z rrset) (\<lambda>sigs. Return (res @ rrset @ sigs))) [])"
    by (intro calm_ForEach) (auto intro!: calm_intros calm_sign_set assms split: prod.splits)
qed

lemma calm_on_world: "calm held P m \<Longrightarrow> calm (\<lambda>s. held (snd s)) P (on_world m)"
  unfolding on_world_def by (erule calm_Zoom) simp_all

lemma calm_query_loop:
  assumes "up_quiet held lib"
  shows "calm (\<lambda>s. held (snd s)) (\<lambda>_. True) (query_loop lib key location qtype cs)"
proof (induction cs)
  case Nil
  show ?case by (simp add: calm_intros)
next
  case (Cons c cs)
  have "calm (\<lambda>s. held (snd s)) (\<lambda>_. True) (Modify (\<lambda>(conns, w). (conns[0 := c], w)))"
    by (rule calm_Modify) auto
  then show ?case
    using assms Cons by (auto simp: up_quiet_def intro!: calm_intros calm_on_world quiet_calm
        quiet_effect_calm split: sum.splits)
qed

lemma calm_Query:
  assumes "up_quiet held lib"
  shows "calm (\<lambda>s. held (snd s)) (\<lambda>_. True) (Query lib location qtype)"
  using assms unfolding Query_def Let_def
  by (auto simp: up_quiet_def intro!: calm_intros calm_on_world quiet_calm calm_ForEach
      calm_query_loop assms split: option.splits sum.splits)

section \<open>The filters\<close>

lemma reads_within: "length marks = length ips \<Longrightarrow> \<not> reads_beyond P ips marks"
  by (auto simp: reads_beyond_def)

lemma length_country_loop1 [simp]: "length (country_loop1 c ips marks) = length marks"
  by (simp add: country_loop1_def)

lemma length_asn_loop1 [simp]: "length (asn_loop1 c ips marks) = length marks"
  by (simp add: asn_loop1_def)

lemma GetSameCountry_returns:
  assumes "length marks = length ips"
  shows "\<exists>m. GetSameCountry lib g src ips marks = Inr m \<and> length m = length marks"
proof -
  have "\<exists>m. GetSameCountry lib g src ips marks = Inr m"
    using assms by (auto simp: GetSameCountry_def Let_def reads_within split: prod.splits option.splits)
  then show ?thesis using same_country.pstage_keeps by (fastforce simp: stage_ok_def)
qed

lemma GetSameASN_returns:
  assumes "length marks = length ips" "\<forall>db. \<exists>r. mm_asn lib (Some db) src = Inr r"
  shows "\<exists>m. GetSameASN lib g src ips marks = Inr m \<and> length m = length marks"
proof -
  have "\<exists>m. GetSameASN lib g src ips marks = Inr m"
  proof (cases "\<not> geo_Enable g \<or> geo_ASNDB g = None")
    case False
    then obtain db r where "geo_ASNDB g = Some db" "mm_asn lib (geo_ASNDB g) src = Inr r"
      using assms(2) by force
    then show ?thesis using assms(1)
      by (auto simp: GetSameASN_def GetASN_def Let_def reads_within
          split: prod.splits option.splits sum.splits)
  qed (auto simp: GetSameASN_def)
  then show ?thesis using same_asn.pstage_keeps by (fastforce simp: stage_ok_def)
qed

lemma whites_replicate: "whites (replicate n IpMaskWhite) = [0..<n]"
  by (simp add: whites_def filter_id_conv)

lemma GetMinimumDistance_all_white:
  assumes "marks = replicate (length ips) IpMaskWhite"
  shows "\<exists>m. GetMinimumDistance lib g src ips marks = Inr m \<and> length m = length marks"
proof -
  have "\<exists>m. GetMinimumDistance lib g src ips marks = Inr m"
    using assms by (auto simp: GetMinimumDistance_def Let_def reads_within distances_def
        whites_replicate split: prod.splits option.splits)
  then show ?thesis using min_dist.pstage_keeps by (fastforce simp: stage_ok_def)
qed

lemma geo_stage_returns:
  assumes "data_ok h" "rrset_ok h rrset" "length marks = length (ips_Data rrset)"
    and "\<not> hc_Enable (h_healthcheck h) \<longrightarrow> marks = replicate (length (ips_Data rrset)) IpMaskWhite"
  shows "\<exists>m. (geo_stage h src rrset marks :: ('s, ip_mask list) go) = Return m \<and> length m = length (ips_Data rrset)"
proof -
  let ?lib = "lib_geo (h_lib h)" and ?g = "h_geoip h" and ?ips = "ips_Data rrset"
  obtain a where a: "GetSameASN ?lib ?g src ?ips marks = Inr a" "length a = length ?ips"
    using GetSameASN_returns [OF assms(3), of ?lib src ?g] assms(1,3) by (auto simp: data_ok_def)
  obtain c where c: "GetSameCountry ?lib ?g src ?ips marks = Inr c" "length c = length ?ips"
    using GetSameCountry_returns [OF assms(3)] assms(3) by metis
  obtain d where d: "GetSameCountry ?lib ?g src ?ips a = Inr d" "length d = length ?ips"
    using GetSameCountry_returns [OF a(2)] a(2) by metis
  show ?thesis
  proof (cases "fc_GeoFilter (ips_FilterConfig rrset) = ''location''")
    case True
    then have "marks = replicate (length ?ips) IpMaskWhite"
      using assms(2,4) by (simp add: rrset_ok_def)
    then obtain l where "GetMinimumDistance ?lib ?g src ?ips marks = Inr l" "length l = length ?ips"
      using GetMinimumDistance_all_white assms(3) by metis
    with True show ?thesis by (intro exI [of _ l]) (simp add: geo_stage_def Lift_Inr)
  next
    case False
    let ?f = "fc_GeoFilter (ips_FilterConfig rrset)"
    let ?m = "if ?f = ''asn'' then a else if ?f = ''country'' then c
              else if ?f = ''asn+country'' then d else marks"
    have "(geo_stage h src rrset marks :: ('s, ip_mask list) go) = Return ?m"
      using False a c d by (simp add: geo_stage_def Lift_Inr Bind_Return)
    then show ?thesis using a c d assms(3) by (intro exI [of _ ?m]) simp
  qed
qed

lemma OrderIps_returns:
  "length marks = length (ips_Data rrset) \<Longrightarrow> \<exists>ips. OrderIps ns rrset marks = Inr ips"
  by (auto simp: OrderIps_def set_whites split: option.splits)

end
