(* ===== verification/Handler_Total.thy ===== *)
theory Handler_Total
  imports Handler_Safety
begin

text \<open>
  Under the conditions of \<open>Handler_Safety\<close> every operation of the request path returns: it never
  panics, and it leaves the handler in a well-formed state.
\<close>

section \<open>Well-formed states\<close>

text \<open>
  Every record below the next free address is well formed, the caches hold only such addresses and
  well-formed zones, and the log queue is open. \<open>k\<close> is a lower bound of the next free address, so
  that a pointer below it stays valid.
\<close>

definition st_ok ::
  "('t, 'w) DnsRequestHandler \<Rightarrow> ('w \<Rightarrow> holding set) \<Rightarrow> nat \<Rightarrow> ('t, 'w) hstate \<Rightarrow> bool" where
  "st_ok h held k s \<longleftrightarrow>
     k \<le> hs_next s \<and> (\<forall>p < hs_next s. rec_ok h (hs_heap s p)) \<and>
     (\<forall>p. Inl p \<in> held (hs_world s) \<longrightarrow> p < hs_next s) \<and>
     (\<forall>z. Inr z \<in> held (hs_world s) \<longrightarrow> zone_ok z) \<and> \<not> hs_logClosed s"

definition safe ::
  "('t, 'w) DnsRequestHandler \<Rightarrow> ('w \<Rightarrow> holding set) \<Rightarrow> nat \<Rightarrow> (nat \<Rightarrow> 'a \<Rightarrow> bool) \<Rightarrow>
     ('t, 'w, 'a) handler_go \<Rightarrow> bool" where
  "safe h held k P m \<longleftrightarrow>
     (\<forall>s. st_ok h held k s \<longrightarrow>
        wp NoPanic m (\<lambda>a s'. \<exists>k' \<ge> k. st_ok h held k' s' \<and> P k' a) s)"

named_theorems safe_intros \<open>introduction rules for operations that cannot panic\<close>

lemma safeI:
  assumes "\<And>s. st_ok h held k s \<Longrightarrow>
    wp NoPanic m (\<lambda>a s'. \<exists>k' \<ge> k. st_ok h held k' s' \<and> P k' a) s"
  shows "safe h held k P m"
  using assms by (simp add: safe_def)

lemma safe_mono: "safe h held k P m \<Longrightarrow> (\<And>k' a. k \<le> k' \<Longrightarrow> P k' a \<Longrightarrow> Q k' a) \<Longrightarrow> safe h held k Q m"
  unfolding safe_def by (blast intro: wp_strengthen)

lemma safe_Return [safe_intros]: "P k x \<Longrightarrow> safe h held k P (Return x)"
  by (auto simp: safe_def wp_rules)

lemma safe_Gets: "(\<And>s. P k (f s)) \<Longrightarrow> safe h held k P (Gets f)"
  by (auto simp: safe_def wp_rules)

lemma safe_Lift: "r = Inr a \<Longrightarrow> P k a \<Longrightarrow> safe h held k P (Lift r)"
  by (auto simp: safe_def wp_rules)

lemma safe_Bind_with:
  assumes "safe h held k R m" "\<And>k' a. k \<le> k' \<Longrightarrow> R k' a \<Longrightarrow> safe h held k' P (f a)"
  shows "safe h held k P (Bind m f)"
proof (rule safeI)
  fix s
  assume "st_ok h held k s"
  then have "wp NoPanic m (\<lambda>a s'. \<exists>k' \<ge> k. st_ok h held k' s' \<and> R k' a) s"
    using assms(1) by (simp add: safe_def)
  then have "wp NoPanic m (\<lambda>a. wp NoPanic (f a)
      (\<lambda>b t. \<exists>k' \<ge> k. st_ok h held k' t \<and> P k' b)) s"
  proof (rule wp_strengthen)
    fix a t
    assume "\<exists>k' \<ge> k. st_ok h held k' t \<and> R k' a"
    then obtain k' where k': "k \<le> k'" "st_ok h held k' t" "R k' a" by blast
    then have "wp NoPanic (f a) (\<lambda>b u. \<exists>k'' \<ge> k'. st_ok h held k'' u \<and> P k'' b) t"
      using assms(2) by (simp add: safe_def)
    then show "wp NoPanic (f a) (\<lambda>b u. \<exists>k'' \<ge> k. st_ok h held k'' u \<and> P k'' b) t"
      by (rule wp_strengthen) (use k'(1) in \<open>auto intro: order_trans\<close>)
  qed
  then show "wp NoPanic (Bind m f) (\<lambda>b t. \<exists>k' \<ge> k. st_ok h held k' t \<and> P k' b) s"
    by (simp add: wp_rules)
qed

lemma safe_Bind [safe_intros]:
  "safe h held k (\<lambda>_ _. True) m \<Longrightarrow> (\<And>k' a. k \<le> k' \<Longrightarrow> safe h held k' P (f a)) \<Longrightarrow>
     safe h held k P (Bind m f)"
  by (rule safe_Bind_with)

lemma safe_Seq [safe_intros]:
  "safe h held k (\<lambda>_ _. True) m \<Longrightarrow> (\<And>k'. k \<le> k' \<Longrightarrow> safe h held k' P f) \<Longrightarrow>
     safe h held k P (Seq m f)"
  unfolding Seq_def by (rule safe_Bind)

lemma safe_if [safe_intros]:
  "(b \<Longrightarrow> safe h held k P m) \<Longrightarrow> (\<not> b \<Longrightarrow> safe h held k P m') \<Longrightarrow>
     safe h held k P (if b then m else m')"
  by simp

lemma safe_ForEach:
  assumes "I acc" "\<And>k' x a. k \<le> k' \<Longrightarrow> I a \<Longrightarrow> safe h held k' (\<lambda>_. I) (body x a)"
  shows "safe h held k (\<lambda>_. I) (ForEach xs body acc)"
  using assms
proof (induction xs arbitrary: acc k)
  case (Cons y ys acc k)
  then show ?case
    by (auto intro!: safe_Bind_with [where R = "\<lambda>_. I"])
qed (simp add: safe_intros)

section \<open>The primitive operations\<close>

lemma st_ok_world:
  "st_ok h held k s \<Longrightarrow> held w \<subseteq> held (hs_world s) \<Longrightarrow> st_ok h held k (s\<lparr>hs_world := w\<rparr>)"
  by (auto simp: st_ok_def)

lemma safe_World:
  assumes "calm held P m"
  shows "safe h held k (\<lambda>_. P) (World m)"
proof (rule safeI)
  fix s
  assume ok: "st_ok h held k s"
  have "wp NoPanic m (\<lambda>a w. \<exists>k' \<ge> k. st_ok h held k' (s\<lparr>hs_world := w\<rparr>) \<and> P a) (hs_world s)"
    by (rule wp_strengthen [OF calmD [OF assms]])
      (use ok in \<open>auto intro!: exI [of _ k] st_ok_world\<close>)
  then show "wp NoPanic (World m) (\<lambda>a s'. \<exists>k' \<ge> k. st_ok h held k' s' \<and> P a) s"
    by (simp add: World_def wp_rules)
qed

lemma safe_Now: "redis_quiet held (h_lib h) \<Longrightarrow> safe h held k (\<lambda>_ _. True) (Now h)"
  unfolding Now_def by (rule safe_World) (auto simp: redis_quiet_def intro: quiet_calm)

lemma safe_FindZone: "safe h held k (\<lambda>_ _. True) (FindZone h q)"
  unfolding FindZone_def by (rule safe_Gets) simp

lemma safe_Deref: "p < k \<Longrightarrow> safe h held k (\<lambda>_ r. rec_ok h r) (Deref p)"
  by (auto simp: safe_def Deref_def wp_rules st_ok_def intro!: exI [of _ k])

lemma safe_Assign: "p < k \<Longrightarrow> rec_ok h r \<Longrightarrow> safe h held k (\<lambda>_ _. True) (Assign p r)"
  by (auto simp: safe_def Assign_def wp_rules st_ok_def intro!: exI [of _ k])

lemma safe_Alloc: "rec_ok h r \<Longrightarrow> safe h held k (\<lambda>k' p. p < k') (Alloc r)"
  by (auto simp: safe_def Alloc_def wp_rules st_ok_def less_Suc_eq
      intro!: exI [of _ "Suc (hs_next s)" for s])

text \<open>A call that does not enlarge the caches and whose result the state vouches for.\<close>

lemma safe_Extern:
  assumes "\<And>w. held (snd (f w)) \<subseteq> held w"
    and "\<And>s. st_ok h held k s \<Longrightarrow> P (hs_next s) (fst (f (hs_world s)))"
  shows "safe h held k P (World (Extern f))"
proof (rule safeI)
  fix s
  assume ok: "st_ok h held k s"
  then have "st_ok h held (hs_next s) s" "k \<le> hs_next s" by (auto simp: st_ok_def)
  then have "st_ok h held (hs_next s) (s\<lparr>hs_world := snd (f (hs_world s))\<rparr>)"
    by (intro st_ok_world assms(1))
  with assms(2) [OF ok] \<open>k \<le> hs_next s\<close>
  show "wp NoPanic (World (Extern f)) (\<lambda>a s'. \<exists>k' \<ge> k. st_ok h held k' s' \<and> P k' a) s"
    by (auto simp: World_def wp_rules intro!: exI [of _ "hs_next s"])
qed

lemma safe_ZoneCache_Get:
  assumes "caches_ok held (h_lib h)"
  shows "safe h held k (\<lambda>_ z. \<forall>z'. z = Some z' \<longrightarrow> zone_ok z')
           (World (Extern (lib_ZoneCache_Get (h_lib h) zone)))"
  by (rule safe_Extern) (use assms in \<open>auto simp: caches_ok_def quiet_def st_ok_def\<close>)

lemma safe_RecordCache_Get:
  assumes "caches_ok held (h_lib h)"
  shows "safe h held k (\<lambda>k' p. \<forall>p'. p = Some p' \<longrightarrow> p' < k')
           (World (Extern (lib_RecordCache_Get (h_lib h) key)))"
  by (rule safe_Extern) (use assms in \<open>auto simp: caches_ok_def quiet_def st_ok_def\<close>)

lemma safe_ZoneCache_Set:
  assumes "caches_ok held (h_lib h)" "zone_ok z"
  shows "safe h held k (\<lambda>_ _. True) (World (Modify (lib_ZoneCache_Set (h_lib h) zone z)))"
proof -
  have "\<And>w. held (lib_ZoneCache_Set (h_lib h) zone z w) \<subseteq> insert (Inr z) (held w)"
    using assms(1) by (simp add: caches_ok_def)
  then show ?thesis using assms(2)
    by (fastforce simp: safe_def World_def wp_rules st_ok_def intro!: exI [of _ k])
qed

lemma safe_RecordCache_Set:
  assumes "caches_ok held (h_lib h)" "p < k"
  shows "safe h held k (\<lambda>_ _. True) (World (Modify (lib_RecordCache_Set (h_lib h) key p)))"
proof -
  have "\<And>w. held (lib_RecordCache_Set (h_lib h) key p w) \<subseteq> insert (Inl p) (held w)"
    using assms(1) by (simp add: caches_ok_def)
  then show ?thesis using assms(2)
    by (fastforce simp: safe_def World_def wp_rules st_ok_def intro!: exI [of _ k])
qed

section \<open>Zones\<close>

lemma safe_loadKey:
  assumes "redis_quiet held (h_lib h)" "data_ok h"
  shows "safe h held k (\<lambda>_ key. \<forall>key'. key = Some key' \<longrightarrow> key_ok key') (loadKey h pub priv)"
proof -
  have get: "safe h held k (\<lambda>_ _. True) (World (Extern (lib_Get (h_lib h) key)))" for k key
    using assms(1) by (intro safe_World quiet_calm) (simp add: redis_quiet_def)
  have rr: "\<exists>rr d. x = Some rr \<and> rr_Data rr = RDNSKEY d"
    if "lib_NewRR (h_lib h) t = Inr x" for t x
    using assms(2) that by (simp add: data_ok_def)
  have pk: "key_ok \<lparr>zk_DnsKey = r, zk_PrivateKey = pk, zk_KeyInception = i, zk_KeyExpiration = e\<rparr>"
    if "lib_NewPrivateKey (h_lib h) r t = Inr pk" "rr_Data r = RDNSKEY d" for r t pk i e d
    using assms(2) that by (simp add: data_ok_def)
  show ?thesis
    unfolding loadKey_def
    by (auto intro!: safe_intros get safe_Now [OF assms(1)] pk
        split: prod.splits sum.splits option.splits rdata.splits dest!: rr)
qed

lemma key_ok_updates:
  "key_ok key \<Longrightarrow> key_ok (set_flags flags key)" "key_ok key \<Longrightarrow> key_ok (set_key_ttl ttl key)"
  by (auto simp: key_ok_def set_flags_def set_key_ttl_def set_ttl_def split: key_kind.splits)

lemma soa_ok_updates [simp]:
  "soa_ok (no_dnssec z) = soa_ok z" "soa_ok (z\<lparr>zone_ZSK := a\<rparr>) = soa_ok z"
  "soa_ok (z\<lparr>zone_KSK := b\<rparr>) = soa_ok z" "soa_ok (z\<lparr>zone_DnsKeySig := c\<rparr>) = soa_ok z"
  "soa_ok (z\<lparr>zone_CacheTimeout := t\<rparr>) = soa_ok z"
  by (simp_all add: soa_ok_def no_dnssec_def)

lemma zone_ok_no_dnssec [simp]: "zone_ok (no_dnssec z) \<longleftrightarrow> soa_ok z"
  by (simp add: zone_ok_def) (simp add: no_dnssec_def)

lemma no_dnssec_flag [simp]: "\<not> zc_DnsSec (zone_Config (no_dnssec z))"
  by (simp add: no_dnssec_def)

lemma zone_ok_unsigned: "\<not> zc_DnsSec (zone_Config z) \<Longrightarrow> soa_ok z \<Longrightarrow> zone_ok z"
  by (simp add: zone_ok_def)

lemma zone_ok_signed:
  "soa_ok z \<Longrightarrow> key_ok zsk \<Longrightarrow>
     zone_ok (z\<lparr>zone_ZSK := Some zsk, zone_KSK := Some ksk, zone_DnsKeySig := Some sig\<rparr>)"
  by (simp add: zone_ok_def)

lemma zone_ok_timeout [simp]: "zone_ok (z\<lparr>zone_CacheTimeout := t\<rparr>) = zone_ok z"
  by (simp add: zone_ok_def)

lemma safe_LoadZoneKeys:
  assumes "libs_ok held (h_lib h)" "data_ok h" "soa_ok z"
  shows "safe h held k (\<lambda>_. zone_ok) (LoadZoneKeys h z)"
proof -
  have redis: "redis_quiet held (h_lib h)" and sec: "sec_quiet held (lib_sec (h_lib h))"
    using assms(1) by (simp_all add: libs_ok_def)
  note load = safe_loadKey [OF redis assms(2)]
  have signs: "safe h held k (\<lambda>_ _. True) (World (sign (lib_sec (h_lib h)) rrs name key ttl))"
    if "key_ok key" for k rrs name key ttl
    using calm_sign [OF sec that] by (rule safe_World)
  show ?thesis
    unfolding LoadZoneKeys_def Let_def using assms(3)
    by (auto intro!: safe_Return safe_if safe_Bind_with [OF load] safe_Bind [OF signs] key_ok_updates
        zone_ok_unsigned zone_ok_signed split: option.split sum.split)
qed

lemma NewZone_returns:
  assumes "data_ok h"
  shows "\<exists>z. NewZone fqdn (lib_decode_config (h_lib h)) now name locations config = Inr z \<and> soa_ok z"
proof -
  have "zc_SOA (default_ZoneConfig now name) \<noteq> None" by (simp add: default_ZoneConfig_def)
  moreover from this have
    "zc_SOA (fst (lib_decode_config (h_lib h) config (default_ZoneConfig now name))) \<noteq> None"
    using assms unfolding data_ok_def by blast
  ultimately show ?thesis by (auto simp: NewZone_def Let_def soa_ok_def)
qed

lemma safe_NewZone:
  "data_ok h \<Longrightarrow> safe h held k (\<lambda>_. soa_ok)
     (Lift (NewZone fqdn (lib_decode_config (h_lib h)) now name locations config))"
  using NewZone_returns by (blast intro: safe_Lift)

lemma safe_LoadZone:
  assumes "libs_ok held (h_lib h)" "data_ok h"
  shows "safe h held k (\<lambda>_ z. \<forall>z'. z = Some z' \<longrightarrow> zone_ok z') (LoadZone h zone)"
proof -
  have redis: "redis_quiet held (h_lib h)" and caches: "caches_ok held (h_lib h)"
    using assms(1) by (simp_all add: libs_ok_def)
  have reads: "safe h held k (\<lambda>_ _. True) (World (Extern (lib_Get (h_lib h) key)))"
    "safe h held k (\<lambda>_ _. True) (World (Extern (lib_GetHKeys (h_lib h) key)))" for k key
    using redis by (auto intro!: safe_World quiet_calm simp: redis_quiet_def)
  have fetch: "safe h held k (\<lambda>_ z. \<forall>z'. z = Some z' \<longrightarrow> zone_ok z') (fetch_zone h zone)" for k
    unfolding fetch_zone_def Let_def
    by (auto intro!: safe_Return safe_Bind [OF reads(1)] safe_Bind [OF reads(2)]
        safe_Bind [OF safe_Now [OF redis]] safe_Bind_with [OF safe_NewZone [OF assms(2)]]
        safe_Bind_with [OF safe_LoadZoneKeys [OF assms]] safe_Seq safe_ZoneCache_Set [OF caches]
        split: prod.split sum.split)
  show ?thesis
    unfolding LoadZone_def Let_def
    by (rule safe_Bind_with [OF safe_ZoneCache_Get [OF caches]])
      (auto intro!: safe_if safe_Return safe_Bind_with [OF fetch] safe_Bind [OF safe_Now [OF redis]]
        split: option.split)
qed

section \<open>Records\<close>

lemma rec_ok_new: "rec_ok h (new_Record name z)"
  by (simp add: rec_ok_def new_Record_def rrset_ok_def default_IP_RRSet_def)

lemma rec_ok_timeout [simp]: "rec_ok h (r\<lparr>rec_CacheTimeout := t\<rparr>) = rec_ok h r"
  by (simp add: rec_ok_def)

lemma rec_ok_decoded:
  assumes "data_ok h" "lib_decode_record (h_lib h) txt r = Inr r'" "rec_ok h r"
  shows "rec_ok h r'"
  using assms by (simp add: data_ok_def rec_ok_def)

lemma safe_LoadLocation:
  assumes "libs_ok held (h_lib h)" "data_ok h"
  shows "safe h held k (\<lambda>k' p. \<forall>p'. p = Some p' \<longrightarrow> p' < k') (LoadLocation h location z)"
proof -
  have redis: "redis_quiet held (h_lib h)" and caches: "caches_ok held (h_lib h)"
    using assms(1) by (simp_all add: libs_ok_def)
  have hget: "safe h held k (\<lambda>_ _. True) (World (Extern (lib_HGet (h_lib h) key label)))" for k key label
    using redis by (auto intro!: safe_World quiet_calm simp: redis_quiet_def)
  have decoded: "rec_ok h r'"
    if "(if v \<noteq> [] then lib_decode_record (h_lib h) v (new_Record name z)
         else Inr (new_Record name z)) = Inr r'" for v name r'
    using that rec_ok_new rec_ok_decoded [OF assms(2) _ rec_ok_new] by (metis sum.inject(2))
  have store: "safe h held k (\<lambda>k' p. \<forall>p'. p = Some p' \<longrightarrow> p' < k') (Bind (Alloc r) (\<lambda>p.
      Seq (World (Modify (lib_RecordCache_Set (h_lib h) key p))) (Return (Some p))))"
    if "rec_ok h r" for k r key
    by (auto intro!: safe_Bind_with [OF safe_Alloc [OF that]] safe_Seq safe_Return
        safe_RecordCache_Set [OF caches])
  have fetch: "safe h held k (\<lambda>k' p. \<forall>p'. p = Some p' \<longrightarrow> p' < k') (fetch_location h location z key)"
    for k key
    unfolding fetch_location_def Let_def
    by (auto intro!: safe_Return safe_if safe_Bind [OF hget] safe_Bind [OF safe_Now [OF redis]]
        store rec_ok_new dest!: decoded split: prod.splits sum.splits split del: if_split)
  show ?thesis
    unfolding LoadLocation_def Let_def
    by (rule safe_Bind_with [OF safe_RecordCache_Get [OF caches]])
      (auto intro!: safe_if safe_Return safe_Bind_with [OF fetch] safe_Bind [OF safe_Now [OF redis]]
        safe_Bind_with [OF safe_Deref] split: option.split)
qed

section \<open>Addresses\<close>

lemma safe_Filter:
  fixes h :: "('t, 'w) DnsRequestHandler"
  assumes "libs_ok held (h_lib h)" "data_ok h" "rrset_ok h rrset"
  shows "safe h held k (\<lambda>_ _. True) (Filter h name src rrset)"
proof -
  have hc: "hc_quiet held (lib_hc (h_lib h))" and redis: "redis_quiet held (h_lib h)"
    using assms(1) by (simp_all add: libs_ok_def)
  show ?thesis
    unfolding Filter_def
  proof (rule safe_Bind_with [OF safe_World [OF calm_FilterHealthcheck [OF hc]]], elim conjE)
    fix k' marks
    assume marks: "length marks = length (ips_Data rrset)"
      "\<not> hc_Enable (h_healthcheck h) \<longrightarrow> marks = replicate (length (ips_Data rrset)) IpMaskWhite"
    obtain m where m: "(geo_stage h src rrset marks :: (('t, 'w) hstate, ip_mask list) go) = Return m"
      "length m = length (ips_Data rrset)"
      using geo_stage_returns [OF assms(2,3) marks] by blast
    have order: "safe h held k'' (\<lambda>_ _. True) (Lift (OrderIps ns rrset m))" for k'' ns
      using OrderIps_returns [OF m(2)] by (blast intro: safe_Lift)
    show "safe h held k' (\<lambda>_ _. True) (Bind (geo_stage h src rrset marks) (\<lambda>marks.
        Bind (if reads_clock rrset marks then Now h else Return 0) (\<lambda>now.
        Lift (OrderIps (now mod second) rrset marks))))"
      unfolding m(1) Bind_Return
      by (auto intro!: safe_intros safe_Now [OF redis] order)
  qed
qed

lemma safe_Upstream_Query:
  assumes "libs_ok held (h_lib h)"
  shows "safe h held k (\<lambda>_ _. True) (Upstream_Query h location qtype)"
proof (rule safeI)
  fix s
  assume ok: "st_ok h held k s"
  have "wp NoPanic (Query (lib_up (h_lib h)) location qtype)
      (\<lambda>a u. \<exists>k' \<ge> k. st_ok h held k' (s\<lparr>hs_connections := fst u, hs_world := snd u\<rparr>))
      (hs_connections s, hs_world s)"
    by (rule wp_strengthen [OF calmD [OF calm_Query [of held]]])
      (use ok assms in \<open>auto simp: libs_ok_def st_ok_def intro!: exI [of _ k]\<close>)
  then show "wp NoPanic (Upstream_Query h location qtype)
      (\<lambda>a s'. \<exists>k' \<ge> k. st_ok h held k' s' \<and> True) s"
    by (simp add: Upstream_Query_def wp_rules)
qed

lemma rec_okD:
  "rec_ok h r \<Longrightarrow> rrset_ok h (rr_A r)" "rec_ok h r \<Longrightarrow> rrset_ok h (rr_AAAA r)"
  by (simp_all add: rec_ok_def)

lemma rec_ok_ttl [simp]:
  "rec_ok h (r\<lparr>rr_A := (rr_A r)\<lparr>ips_Ttl := t\<rparr>\<rparr>) = rec_ok h r"
  "rec_ok h (r\<lparr>rr_AAAA := (rr_AAAA r)\<lparr>ips_Ttl := t\<rparr>\<rparr>) = rec_ok h r"
  by (simp_all add: rec_ok_def rrset_ok_def)

lemma safe_FindANAME_loop:
  assumes "libs_ok held (h_lib h)" "data_ok h"
  shows "safe h held k (\<lambda>_ _. True) (FindANAME_loop h ctxt qtype n q)"
proof (induction n arbitrary: q qtype k rule: loop_count_induct)
  case (stop n)
  then show ?case by (simp add: FindANAME_loop.simps [of _ _ _ n] safe_intros)
next
  case (step n)
  show ?case
    unfolding FindANAME_loop.simps [of h ctxt qtype n q] Let_def
    by (auto intro!: safe_Return safe_if safe_Bind [OF safe_FindZone]
        safe_Bind [OF safe_Upstream_Query [OF assms(1)]] safe_Bind_with [OF safe_LoadZone [OF assms]]
        safe_Bind_with [OF safe_LoadLocation [OF assms]] safe_Bind_with [OF safe_Deref]
        safe_Bind [OF safe_Filter [OF assms]] rec_okD step.IH split: prod.split option.split)
qed

lemma safe_addresses:
  assumes "libs_ok held (h_lib h)" "data_ok h" "p < k"
  shows "safe h held k (\<lambda>_ _. True) (address_A h ctxt q p)"
    "safe h held k (\<lambda>_ _. True) (address_AAAA h ctxt q p)"
  unfolding address_A_def address_AAAA_def FindANAME_def Let_def
  by (auto intro!: safe_Return safe_if safe_Bind_with [OF safe_Deref]
      safe_Bind [OF safe_FindANAME_loop [OF assms(1,2)]] safe_Bind [OF safe_Filter [OF assms(1,2)]]
      safe_Seq safe_Assign rec_okD assms(3) order.strict_trans2 [OF assms(3)]
      split: prod.splits option.splits list.splits)

section \<open>CAA records\<close>

lemma safe_FindCAA_apex:
  assumes "libs_ok held (h_lib h)" "data_ok h"
  shows "safe h held k (\<lambda>k' p. \<forall>p'. p = Some p' \<longrightarrow> p' < k') (FindCAA_apex h zone)"
  unfolding FindCAA_apex_def
  by (auto intro!: safe_Return safe_Bind_with [OF safe_LoadLocation [OF assms]]
      safe_Bind_with [OF safe_Deref] split: option.splits if_splits)

lemma safe_FindCAA_loop:
  assumes "libs_ok held (h_lib h)" "data_ok h" "p < k"
  shows "safe h held k (\<lambda>k' p. \<forall>p'. p = Some p' \<longrightarrow> p' < k') (FindCAA_loop h zone p location)"
  using assms(3)
proof (induction "dots location" arbitrary: p location k rule: less_induct)
  case less
  show ?case
    unfolding FindCAA_loop.simps [of h zone p location]
    by (auto intro!: safe_Return safe_if safe_Bind_with [OF safe_Deref] less.prems
        safe_Bind_with [OF safe_LoadLocation [OF assms(1,2)]] safe_FindCAA_apex [OF assms(1,2)]
        less.hyps FindLocation_rest_dots order.strict_trans2 [OF less.prems]
        split: prod.splits option.splits list.splits)
qed

lemma safe_FindCAA:
  assumes "libs_ok held (h_lib h)" "data_ok h" "p < k"
  shows "safe h held k (\<lambda>k' p. \<forall>p'. p = Some p' \<longrightarrow> p' < k') (FindCAA h p)"
  unfolding FindCAA_def
  by (rule safe_Bind_with [OF safe_Deref [OF assms(3)]])
    (auto simp: rec_ok_def intro!: safe_FindCAA_loop assms(1,2) order.strict_trans2 [OF assms(3)]
      split: option.split)

section \<open>The whole request\<close>

lemma safe_zone_SOA: "zone_ok z \<Longrightarrow> safe h held k (\<lambda>_ _. True) (Lift (zone_SOA z))"
  by (auto simp: zone_ok_def soa_ok_def zone_SOA_def intro!: safe_Lift)

lemma safe_zone_DNSKEYs:
  "zone_ok z \<Longrightarrow> zc_DnsSec (zone_Config z) \<Longrightarrow>
     safe h held k (\<lambda>_ _. True) (Lift (zone_DNSKEYs z))"
  by (auto simp: zone_ok_def zone_DNSKEYs_def intro!: safe_Lift)

lemma safe_answer_switch:
  assumes "libs_ok held (h_lib h)" "data_ok h" "p < k" "zone_ok zone"
  shows "safe h held k (\<lambda>_ _. True) (answer_switch h zone ctxt q p)"
  unfolding answer_switch_def Let_def
  by (auto intro!: safe_Return safe_if safe_Bind [OF safe_addresses(1) [OF assms(1-3)]]
      safe_Bind [OF safe_addresses(2) [OF assms(1-3)]] safe_Bind_with [OF safe_FindCAA [OF assms(1-3)]]
      safe_Bind_with [OF safe_Deref] safe_Bind [OF safe_zone_SOA [OF assms(4)]]
      safe_Bind [OF safe_zone_DNSKEYs [OF assms(4)]] assms(3) split: option.splits)

lemma safe_final_answer:
  assumes "libs_ok held (h_lib h)" "data_ok h" "p < k" "zone_ok zone"
  shows "safe h held k (\<lambda>_ _. True) (final_answer h zone ctxt q p)"
  unfolding final_answer_def Let_def
  by (rule safe_Bind [OF safe_answer_switch [OF assms]])
    (auto intro!: safe_Return safe_if safe_Bind [OF safe_zone_SOA [OF assms(4)]]
      split: option.splits)

lemma safe_delegate:
  assumes "libs_ok held (h_lib h)" "data_ok h"
  shows "safe h held k (\<lambda>_ _. True) (delegate h zone q r ctxt)"
  unfolding delegate_def
  by (rule safe_ForEach)
    (auto simp: glue_def Let_def intro!: safe_Return safe_if
      safe_Bind_with [OF safe_LoadLocation [OF assms]] safe_Bind_with [OF safe_Deref]
      safe_Bind [OF safe_Filter [OF assms]] rec_okD split: prod.splits option.splits)

lemma safe_HandleRequest_loop:
  assumes "libs_ok held (h_lib h)" "data_ok h" "zone_ok zone"
  shows "safe h held k (\<lambda>_ _. True) (HandleRequest_loop h zoneName zone ctxt n q)"
proof (induction n arbitrary: ctxt q k rule: loop_count_induct)
  case (stop n)
  then show ?case by (simp add: HandleRequest_loop.simps [of _ _ _ _ n] safe_intros)
next
  case (step n)
  show ?case
    unfolding HandleRequest_loop.simps [of h zoneName zone ctxt n q]
    by (auto intro!: safe_Return safe_if safe_Bind [OF safe_FindZone]
        safe_Bind [OF safe_zone_SOA [OF assms(3)]] safe_Bind_with [OF safe_LoadLocation [OF assms(1,2)]]
        safe_Bind_with [OF safe_Deref] safe_Bind [OF safe_delegate [OF assms(1,2)]] step.IH
        safe_final_answer [OF assms(1,2) _ assms(3)] split: prod.splits option.splits match.splits bool.splits)
qed

lemma safe_dnssec_stage:
  assumes "libs_ok held (h_lib h)" "zone_ok zone"
  shows "safe h held k (\<lambda>_ _. True) (dnssec_stage h zone ctxt res)"
proof -
  have sec: "sec_quiet held (lib_sec (h_lib h))" using assms(1) by (simp add: libs_ok_def)
  have nsec: "safe h held k (\<lambda>_ _. True) (add_NSec zone c)" for k c
    unfolding add_NSec_def using assms(2)
    by (auto simp: zone_ok_def soa_ok_def NSec_def intro!: safe_Bind safe_Lift safe_Return)
  have signs: "safe h held k (\<lambda>_ _. True) (sign_sections h zone c)"
    if "zc_DnsSec (zone_Config zone)" for k c
    unfolding sign_sections_def Let_def
    by (auto intro!: safe_Return safe_Bind [OF safe_World [OF calm_Sign [OF sec assms(2) that]]])
  show ?thesis
    unfolding dnssec_stage_def
    by (auto intro!: safe_intros nsec signs split: prod.splits)
qed

lemma safe_log_source:
  assumes "data_ok h"
  shows "safe h held k (\<lambda>_ _. True) (log_source h ctxt)"
proof (cases "cfg_LogSourceLocation (h_Config h)")
  case True
  then obtain db where "geo_ASNDB (h_geoip h) = Some db" using assms by (auto simp: data_ok_def)
  moreover obtain r where "mm_asn (lib_geo (h_lib h)) (Some db) (rc_SourceIp ctxt) = Inr r"
    using assms by (force simp: data_ok_def)
  ultimately have "\<exists>a. GetASN (lib_geo (h_lib h)) (h_geoip h) (rc_SourceIp ctxt) = Inr a"
    by (auto simp: GetASN_def split: sum.splits)
  then show ?thesis
    by (auto simp: log_source_def Let_def intro!: safe_Bind safe_Return safe_Lift split: prod.splits)
qed (simp add: log_source_def safe_intros)

lemma safe_Respond:
  assumes "libs_ok held (h_lib h)"
  shows "safe h held k (\<lambda>_ _. True) (Respond h ctxt res)"
proof (rule safeI)
  fix s
  assume ok: "st_ok h held k s"
  have "held (snd (lib_Now (h_lib h) w)) \<subseteq> held w" "\<And>m. held (snd (rq_WriteMsg (lib_rq (h_lib h)) m w)) \<subseteq> held w"
    "held (rq_Close (lib_rq (h_lib h)) w) \<subseteq> held w" for w
    using assms by (auto simp: libs_ok_def redis_quiet_def rq_quiet_def quiet_def quiet_effect_def)
  then show "wp NoPanic (Respond h ctxt res) (\<lambda>a s'. \<exists>k' \<ge> k. st_ok h held k' s' \<and> True) s"
    using ok by (auto simp: Respond_def LogRequest_def Send_def Response_def Now_def World_def
        Let_def wp_rules st_ok_def intro!: exI [of _ k]) (meson subset_iff)+
qed

lemma safe_HandleRequest:
  assumes "libs_ok held (h_lib h)" "data_ok h"
  shows "safe h held k (\<lambda>_ _. True) (HandleRequest h ctxt)"
  unfolding HandleRequest_def Let_def
  by (auto intro!: safe_if safe_Bind [OF safe_log_source [OF assms(2)]] safe_Bind [OF safe_FindZone]
      safe_Bind_with [OF safe_LoadZone [OF assms]] safe_Bind [OF safe_HandleRequest_loop [OF assms]]
      safe_Bind [OF safe_dnssec_stage [OF assms(1)]] safe_Respond [OF assms(1)]
      split: option.splits prod.splits)

section \<open>Examples\<close>

text \<open>The example handler satisfies the conditions, with caches that hold nothing.\<close>

lemma example_libs_ok: "libs_ok (\<lambda>_. {}) example_h_lib"
  by (simp add: quiet_laws quiet_def quiet_effect_def example_h_lib_def example_sec_lib_def)

lemma example_data_ok: "data_ok example_handler"
  by (simp add: data_ok_def example_handler_def example_config_def example_h_lib_def example_geo_lib_def rrset_ok_def
      default_IP_RRSet_def)

lemma example_st_ok: "st_ok example_handler (\<lambda>_. {}) 0 example_state"
  by (simp add: st_ok_def example_state_def)

end
