(* ===== verification/Handler_Cases.thy ===== *)
theory Handler_Cases
  imports Handler_Reply Handler_Total
begin

text \<open>
  The special courses of a request: a cycle of aliases, a name that does not exist, and the choice
  of the addresses and of the CAA record that are answered.
\<close>

section \<open>Cycles of aliases\<close>

text \<open>
  A set of names each of which is, in every state that satisfies \<open>I\<close>, an alias of a name of the set,
  with the whole set in one zone; loading a record keeps \<open>I\<close>.
\<close>

definition alias_cycle ::
  "('t, 'w) DnsRequestHandler \<Rightarrow> string \<Rightarrow> Zone \<Rightarrow> string set \<Rightarrow> (('t, 'w) hstate \<Rightarrow> bool) \<Rightarrow> bool" where
  "alias_cycle h zoneName zone names I \<longleftrightarrow>
     (\<forall>q \<in> names. \<forall>s. I s \<longrightarrow>
        find_zone (h_lib h) (hs_Zones s) q = zoneName \<and> snd (FindLocation zone q) \<noteq> NoMatch \<and>
        (\<exists>p s' cname. LoadLocation h (fst (FindLocation zone q)) zone s = Inr (Some p, s') \<and> I s' \<and>
           rr_CNAME (hs_heap s' p) = Some cname \<and>
           find_zone (h_lib h) (hs_Zones s') (cname_Host cname) = zoneName \<and>
           lib_Fqdn (h_lib h) (cname_Host cname) \<in> names))"

lemma alias_cycleE:
  assumes "alias_cycle h zoneName zone names I" "q \<in> names" "I s"
  obtains p s' cname location m where "find_zone (h_lib h) (hs_Zones s) q = zoneName"
    "FindLocation zone q = (location, m)" "m \<noteq> NoMatch"
    "LoadLocation h location zone s = Inr (Some p, s')" "I s'"
    "rr_CNAME (hs_heap s' p) = Some cname"
    "find_zone (h_lib h) (hs_Zones s') (cname_Host cname) = zoneName"
    "lib_Fqdn (h_lib h) (cname_Host cname) \<in> names"
  using assms unfolding alias_cycle_def by (metis prod.collapse)

lemma loop_in_cycle:
  assumes "alias_cycle h zoneName zone names I" "rc_QType c \<noteq> TypeCNAME" "q \<in> names" "I s"
  shows "\<exists>s' c'. HandleRequest_loop h zoneName zone c loopCount q s =
           Inr ((c', RcodeServerFailure), s') \<and> rc_Answer c' = [] \<and> I s'"
  using assms(2-)
proof (induction loopCount arbitrary: c q s rule: loop_count_induct)
  case (stop k)
  then show ?case by (simp add: HandleRequest_loop.simps [of _ _ _ _ k] Return_def)
next
  case (step k)
  from alias_cycleE [OF assms(1) step.prems(2,3)]
  obtain p s' cname location m where next_alias: "find_zone (h_lib h) (hs_Zones s) q = zoneName"
    "FindLocation zone q = (location, m)" "m \<noteq> NoMatch"
    "LoadLocation h location zone s = Inr (Some p, s')" "I s'"
    "rr_CNAME (hs_heap s' p) = Some cname"
    "find_zone (h_lib h) (hs_Zones s') (cname_Host cname) = zoneName"
    "lib_Fqdn (h_lib h) (cname_Host cname) \<in> names" by metis
  let ?c = "if zc_CnameFlattening (zone_Config zone) then c
    else c\<lparr>rc_Answer := rc_Answer c @ answer_CNAME (fqdn_of h) (max_ttl h) q (hs_heap s' p)\<rparr>"
  have "HandleRequest_loop h zoneName zone c k q s =
      HandleRequest_loop h zoneName zone ?c (k + 1) (fqdn_of h (cname_Host cname)) s'"
    using next_alias step.hyps step.prems(1)
    by (cases m) (simp_all add: HandleRequest_loop.simps [of _ _ _ _ k] FindZone_def Bind_def Gets_def
        Deref_def)
  then show ?case
    using step.IH [of ?c "fqdn_of h (cname_Host cname)" s'] next_alias(5,8) step.prems(1) by simp
qed

section \<open>Properties\<close>

text \<open>
  C8. A cycle of aliases ends: a request for a name of a set of names that only point at each other is
  answered with SERVFAIL and an empty answer section, with and without flattening.
\<close>

theorem CNAME_cycle_servfail:
  assumes "alias_cycle h zoneName zone names I" "rc_QType c \<noteq> TypeCNAME" "q \<in> names" "I s"
  shows "\<exists>s' c'. HandleRequest_loop h zoneName zone c 0 q s =
           Inr ((c', RcodeServerFailure), s') \<and> rc_Answer c' = []"
  using loop_in_cycle [OF assms] by blast

section \<open>Denials\<close>

text \<open>What the DNSSEC stage does with a reply that denies a name or a type.\<close>

lemma yields_denial:
  fixes h :: "('t, 'w) DnsRequestHandler"
  assumes "\<And>m w. mset (fst (sec_map_order (lib_sec (h_lib h)) m w)) = mset m"
    and "\<And>t k rs w r. fst (sec_Sign (lib_sec (h_lib h)) t k rs w) = Inr r \<Longrightarrow> rr_type r = TypeRRSIG"
    and "\<And>sig. zone_DnsKeySig zone = Some sig \<Longrightarrow> rr_type sig = TypeRRSIG"
    and "rc_Do c" "rc_Auth c" "zc_DnsSec (zone_Config zone)" "NSec (raw_name c) zone = Inr nsec"
    and "res = RcodeNameError \<or> res = RcodeSuccess \<and> rc_Answer c = []"
  shows "yields (\<lambda>(c', res'). res' = RcodeSuccess \<and>
             mset (live (rc_Answer c')) = mset (live (rc_Answer c)) \<and>
             mset (live (rc_Authority c')) = mset (live (rc_Authority c @ [nsec])) \<and>
             mset (live (rc_Additional c')) = mset (live (rc_Additional c)))
           (dnssec_stage h zone c res)"
proof -
  have add: "(add_NSec zone c :: ('t, 'w, RequestContext) handler_go) =
      Return (c\<lparr>rc_Authority := rc_Authority c @ [nsec]\<rparr>)"
    by (simp add: add_NSec_def assms(7) Lift_Inr Bind_Return)
  have world: "yields P (World m :: ('t, 'w, 'a) handler_go)" if "yields P m" for P and m :: "('w, 'a) go"
    unfolding World_def yields_def wp_Zoom by (simp add: yieldsD [OF that])
  have signs: "yields (\<lambda>res. mset (live res) = mset (live rrs))
      (World (Sign (lib_sec (h_lib h)) rrs q zone) :: ('t, 'w, dns_RR list) handler_go)" for rrs q
    by (rule world, rule yields_Sign) (use assms(1-3) in blast)+
  have sections: "yields (\<lambda>c'. mset (live (rc_Answer c')) = mset (live (rc_Answer d)) \<and>
      mset (live (rc_Authority c')) = mset (live (rc_Authority d)) \<and>
      mset (live (rc_Additional c')) = mset (live (rc_Additional d))) (sign_sections h zone d)" for d
    unfolding sign_sections_def Let_def
    by (intro yields_Bind_with [OF signs] yields_Return) (simp del: mset_filter)
  show ?thesis
    using assms(4-6,8) unfolding dnssec_stage_def
    by (auto simp: add Bind_Return rcodes intro!: yields_Bind_with [OF sections] yields_Return)
qed


lemma wp_Respond_open:
  "\<not> hs_logClosed s \<Longrightarrow> wp NoPanic (Respond h c res) (\<lambda>_ s'.
     hs_sent s' = hs_sent s @ [reply_Msg (lib_rq (h_lib h)) c res]) s"
  by (auto simp: Respond_def LogRequest_def Send_def Response_def Now_def World_def Let_def wp_rules)

text \<open>
  C18. A name that no location of its zone stands for is denied: without DNSSEC the one message sent
  has reply code NXDOMAIN, the answer and additional sections of the context as they were (empty for
  a new request), and the SOA record of the zone as authority.
\<close>

theorem nonexistent_name_denied:
  assumes "\<not> cfg_LogSourceLocation (h_Config h)" "\<not> hs_logClosed s"
    and "find_zone (h_lib h) (hs_Zones s) (raw_name c) = zoneName" "zoneName \<noteq> []"
    and "LoadZone h zoneName s = Inr (Some zone, s1)"
    and "snd (FindLocation zone (raw_name c)) = NoMatch" "zone_SOA zone = Inr soa"
    and "\<not> (rc_Do c \<and> rc_Auth c \<and> zc_DnsSec (zone_Config zone))"
  shows "\<exists>s'. HandleRequest h c s = Inr ((), s') \<and>
           hs_sent s' = hs_sent s @
             [reply_Msg (lib_rq (h_lib h)) (c\<lparr>rc_Authority := [soa]\<rparr>) RcodeNameError]"
proof -
  have "outputs s1 = outputs s"
    using wpD [OF keepsD [OF keeps_LoadZone] assms(5)] .
  then have s1: "hs_Zones s1 = hs_Zones s" "\<not> hs_logClosed s1" "hs_sent s1 = hs_sent s"
    using assms(2) by (simp_all add: outputs_def)
  obtain location where loc: "FindLocation zone (raw_name c) = (location, NoMatch)"
    using assms(6) by (metis prod.collapse)
  let ?c = "c\<lparr>rc_LogData := (rc_LogData c)(''domain_uuid'' \<mapsto> LStr (zc_DomainId (zone_Config zone)))\<rparr>"
  have loop: "HandleRequest_loop h zoneName zone ?c 0 (raw_name ?c) s1 =
      Inr ((?c\<lparr>rc_Authority := [soa]\<rparr>, RcodeNameError), s1)"
    using assms(3,7) loc s1(1)
    by (simp add: HandleRequest_loop.simps [of _ _ _ _ 0] FindZone_def Bind_def Gets_def Lift_Inr
        Return_def)
  have "HandleRequest h c s = Respond h (?c\<lparr>rc_Authority := [soa]\<rparr>) RcodeNameError s1"
    using assms(1,3-5,8) loop
    by (simp add: HandleRequest_def log_source_def Bind_Return FindZone_def Bind_def Gets_def
        dnssec_stage_def Return_def)
  moreover have "reply_Msg lib (?c\<lparr>rc_Authority := [soa]\<rparr>) res = reply_Msg lib (c\<lparr>rc_Authority := [soa]\<rparr>) res"
    for lib :: "'b rq_lib" and res by (simp add: reply_Msg_def Let_def)
  ultimately show ?thesis
    using wp_NoPanicD [OF wp_Respond_open [OF s1(2)]] s1(3) by fastforce
qed

section \<open>The addresses of an answer\<close>

text \<open>The stages of \<open>Filter\<close> obey the contract of a stage, alone and in sequence.\<close>

interpretation geo: mask_stage "geo_stage h src rrset :: ip_mask list \<Rightarrow> ('s, ip_mask list) go"
  for h :: "('t, 'w) DnsRequestHandler" and src rrset
proof
  fix m :: "ip_mask list" and s :: 's
  note pure = same_asn.lifted.stage_keeps same_country.lifted.stage_keeps
    min_dist.lifted.stage_keeps asn_country.both.stage_keeps
  show "wp AnyPanic (geo_stage h src rrset m) (\<lambda>m' _. stage_ok m m') s"
    by (simp add: geo_stage_def Let_def pure wp_Return)
qed

interpretation filter_stages: two_stages
  "\<lambda>m. World (FilterHealthcheck lib g qname rrset m) :: ('t, 'w, ip_mask list) handler_go"
  "geo_stage h src rrset"
  for lib g qname rrset and h :: "('t, 'w) DnsRequestHandler" and src
  by unfold_locales (simp add: World_def wp_Zoom health_stage.stage_keeps)

lemma OrderIps_positions:
  assumes "OrderIps ns rrset marks = Inr ips"
  obtains js where "ips = map (ip_at rrset) js" "distinct js" "set js \<subseteq> set (whites marks)"
    "fc_Count (ips_FilterConfig rrset) = ''single'' \<longrightarrow> length js \<le> 1"
proof (cases "whites marks = []")
  case True
  then show ?thesis using assms that [of "[]"] by (simp add: OrderIps_def)
next
  case False
  then obtain i where i: "start_index ns rrset marks = Some i" "i \<in> set (whites marks)"
    using start_index_total by blast
  let ?js = "[j \<leftarrow> whites marks. i \<le> j] @ [j \<leftarrow> whites marks. j < i]"
  show ?thesis
  proof (cases "fc_Count (ips_FilterConfig rrset) = ''single''")
    case True
    then show ?thesis using assms i False that [of "[i]"] by (auto simp: OrderIps_def split: if_splits)
  next
    case multi: False
    have "distinct ?js" using distinct_whites [of marks] by auto
    then show ?thesis using assms i False multi that [of ?js]
      by (auto simp: OrderIps_def split: if_splits)
  qed
qed


section \<open>Witnesses\<close>

lemma example_find_zone:
  "find_zone example_h_lib (zone_tree example_h_lib [''example.com.'']) ''www.example.com.'' = ''example.com.''"
  "find_zone example_h_lib (zone_tree example_h_lib [''example.com.'']) ''nope.example.com.'' = ''example.com.''"
  by (simp_all add: find_zone_def zone_tree_def example_h_lib_def reverseZone_ascii ascii_def)

definition cycle_state :: "((string \<times> string) list, string \<rightharpoonup> string) hstate" where
  "cycle_state = example_state\<lparr>hs_heap := (\<lambda>_. zero_Record\<lparr>
     rr_CNAME := Some \<lparr>cname_Host = ''www.example.com.'', cname_Ttl = 300\<rparr>,
     rec_CacheTimeout := 1000\<rparr>)\<rparr>"

definition cycle_handler :: "((string \<times> string) list, string \<rightharpoonup> string) DnsRequestHandler" where
  "cycle_handler = example_handler\<lparr>h_lib := example_h_lib\<lparr>lib_RecordCache_Get := (\<lambda>_. Pair (Some 0))\<rparr>\<rparr>"

theorem CNAME_cycle_servfail_witness:
  "\<exists>s' c'. HandleRequest_loop cycle_handler ''example.com.'' (example_zone {''www''})
       (example_request ''www.example.com.'' TypeA) 0 ''www.example.com.'' cycle_state =
     Inr ((c', RcodeServerFailure), s') \<and> rc_Answer c' = []"
proof (rule CNAME_cycle_servfail [where names = "{''www.example.com.''}" and I = "\<lambda>s. s = cycle_state"])
  have loc: "FindLocation (example_zone {''www''}) ''www.example.com.'' = (''www'', ExactMatch)"
    by (simp add: FindLocation_def example_zone_def TrimSuffix_def HasSuffix_def suffix_Cons)
  have zone: "find_zone (h_lib cycle_handler) (hs_Zones cycle_state) ''www.example.com.'' = ''example.com.''"
    using example_find_zone(1) by (simp add: cycle_handler_def cycle_state_def example_state_def find_zone_def)
  have "LoadLocation cycle_handler ''www'' (example_zone {''www''}) cycle_state = Inr (Some 0, cycle_state)"
    by (simp add: LoadLocation_def cycle_handler_def example_h_lib_def World_def Zoom_def Bind_def
        Extern_def Deref_def Gets_def Now_def Return_def cycle_state_def unix_def second_def Let_def
        example_state_def)
  then show "alias_cycle cycle_handler ''example.com.'' (example_zone {''www''}) {''www.example.com.''} (\<lambda>s. s = cycle_state)"
    using zone loc by (simp add: alias_cycle_def cycle_state_def cycle_handler_def example_h_lib_def)
qed (simp_all add: example_request_def NewRequestContext_def Let_def split_beta RawName_def new_Msg_def type_codes)

definition signed_zone :: Zone where
  "signed_zone = unsigned_zone\<lparr>zone_Config := (zone_Config unsigned_zone)\<lparr>
       zc_SOA := Some \<lparr>soas_Ns = ''ns1.example.com.'', soas_MBox = ''hostmaster.example.com.'',
         soas_Data = Some (example_A ''example.com.''), soas_Ttl = 300, soas_Refresh = 86400,
         soas_Retry = 7200, soas_Expire = 3600, soas_MinTtl = 300, soas_Serial = 1\<rparr>\<rparr>,
     zone_KSK := zone_ZSK unsigned_zone,
     zone_DnsKeySig := Some (RR \<lparr>hdr_Name = ''example.com.'', hdr_Rrtype = TypeRRSIG,
        hdr_Class = ClassINET, hdr_Ttl = 300\<rparr> (RA None))\<rparr>"



definition loaded_zone :: Zone where
  "loaded_zone = \<lparr>zone_Name = ''example.com.'',
     zone_Config = (default_ZoneConfig 100 ''example.com.'')\<lparr>zc_SOA :=
       map_option (\<lambda>soa. soa\<lparr>soas_Data := Some (SOA_record ''example.com.'' soa)\<rparr>)
         (zc_SOA (default_ZoneConfig 100 ''example.com.''))\<rparr>,
     zone_Locations = {''www''}, zone_ZSK = None, zone_KSK = None, zone_DnsKeySig = None,
     zone_CacheTimeout = 160\<rparr>"

lemma example_LoadZone:
  "LoadZone example_handler ''example.com.'' example_state = Inr (Some loaded_zone, example_state)"
  by (simp add: LoadZone_def fetch_zone_def example_handler_def example_config_def example_h_lib_def
      World_def Zoom_def Bind_def Extern_def Now_def Return_def Let_def example_state_def Lift_def
      NewZone_def default_ZoneConfig_def SOA_record_def LoadZoneKeys_def unix_def second_def
      Seq_def Modify_def loaded_zone_def)

theorem nonexistent_name_denied_witness:
  "\<exists>s' m. HandleRequest example_handler (example_request ''nope.example.com.'' TypeA) example_state =
     Inr ((), s') \<and> hs_sent s' = [m] \<and> msg_Rcode m = RcodeNameError \<and> length (msg_Ns m) = 1"
proof -
  let ?c = "example_request ''nope.example.com.'' TypeA"
  have name: "raw_name ?c = ''nope.example.com.''" and no_do: "\<not> rc_Do ?c"
    and empty: "rc_Req ?c \<noteq> None"
    by (simp_all add: example_request_def NewRequestContext_def Let_def split_beta RawName_def new_Msg_def
        ToLower_def lower_char_def)
  have loc: "FindLocation loaded_zone ''nope.example.com.'' = ([], NoMatch)"
    by (simp add: FindLocation_def FindLocation_loop.simps splitQuery_def SplitAfter2_def TrimSuffix_def
        HasSuffix_def keyMatches_def keyExists_def loaded_zone_def suffix_Cons)
  have zone: "find_zone (h_lib example_handler) (hs_Zones example_state) (raw_name ?c) = ''example.com.''"
    using example_find_zone(2) by (simp add: name example_handler_def example_state_def)
  obtain soa where soa: "zone_SOA loaded_zone = Inr soa"
    by (simp add: zone_SOA_def loaded_zone_def default_ZoneConfig_def)
  have "\<exists>s'. HandleRequest example_handler ?c example_state = Inr ((), s') \<and> hs_sent s' = hs_sent example_state @
      [reply_Msg (lib_rq (h_lib example_handler)) (?c\<lparr>rc_Authority := [soa]\<rparr>) RcodeNameError]"
    by (rule nonexistent_name_denied [OF _ _ zone _ example_LoadZone _ soa])
      (simp_all add: example_handler_def example_config_def example_state_def loc name no_do)
  moreover have "msg_Rcode (reply_Msg (lib_rq (h_lib example_handler)) (?c\<lparr>rc_Authority := [soa]\<rparr>) RcodeNameError) = RcodeNameError"
    "length (msg_Ns (reply_Msg (lib_rq (h_lib example_handler)) (?c\<lparr>rc_Authority := [soa]\<rparr>) RcodeNameError)) = 1"
    by (simp_all add: reply_Msg_def Let_def example_handler_def example_h_lib_def example_rq_lib_def new_Msg_def)
  ultimately show ?thesis by (auto simp: example_state_def)
qed

end
