(* ===== verification/Database_Spec.thy ===== *)
theory Database_Spec
  imports Handler_Cases
begin

text \<open>
  What the request path computes, as a function of the stored data alone. The specification \<open>resolve\<close>
  reads zones and records from a database; it knows neither caches nor the heap of shared records, nor
  expiry times, nor the order in which redis is asked. The theorems of \<open>Handler_Refine\<close> show that the handler
  computes it.
\<close>

section \<open>The database\<close>

text \<open>
  A view of the outside world: what the two caches may hold in a world (a pointer to a record or a
  zone under a key), the name of the zone a name is in, and per zone its locations, the values of its
  hash in redis and its configuration.
\<close>

record 'w db_view =
  v_cached :: "'w \<Rightarrow> (string \<times> (nat + Zone)) set"
  v_zone_of :: "string \<Rightarrow> string"
  v_locs :: "string \<Rightarrow> string set"
  v_store :: "string \<Rightarrow> string \<Rightarrow> string option"
  v_config :: "string \<Rightarrow> string"

definition v_zones :: "'w db_view \<Rightarrow> string set" where
  "v_zones v = range (v_zone_of v) - {[]}"

text \<open>A zone without configuration, keys and expiry: what a lookup of a location uses of it.\<close>

definition plain_zone :: "string \<Rightarrow> string set \<Rightarrow> Zone" where
  "plain_zone name locations = \<lparr>zone_Name = name, zone_Config = default_ZoneConfig 0 [],
     zone_Locations = locations, zone_ZSK = None, zone_KSK = None, zone_DnsKeySig = None,
     zone_CacheTimeout = 0\<rparr>"

text \<open>
  The content of a record: without its expiry, without the parts of its zone that change when the
  zone is loaded again, and without the time to live of an address set that has no addresses, which
  is where an ANAME lookup leaves the time to live it found.
\<close>

definition settled :: "IP_RRSet \<Rightarrow> IP_RRSet" where
  "settled rrset = (if ips_Data rrset = [] then rrset\<lparr>ips_Ttl := 0\<rparr> else rrset)"

definition content :: "Record \<Rightarrow> Record" where
  "content r = r\<lparr>rr_A := settled (rr_A r), rr_AAAA := settled (rr_AAAA r),
     rec_Zone := map_option (\<lambda>z. plain_zone (zone_Name z) (zone_Locations z)) (rec_Zone r),
     rec_CacheTimeout := 0\<rparr>"

text \<open>A value of the database, decoded into the record \<open>r0\<close>, and the record of a location.\<close>

definition read_value :: "('t, 'w) h_lib \<Rightarrow> string \<Rightarrow> Record \<Rightarrow> Record option" where
  "read_value lib val r0 =
     (case (if val \<noteq> [] then lib_decode_record lib val r0 else Inr r0) of
        Inl err \<Rightarrow> None
      | Inr r \<Rightarrow> Some (content r))"

definition stored_record :: "('t, 'w) h_lib \<Rightarrow> 'w db_view \<Rightarrow> string \<Rightarrow> string \<Rightarrow> Record option" where
  "stored_record lib v zname location =
     (let label = (if location = zname then ''@'' else location);
          r0 = new_Record (if location = zname then zname else location @ ''.'' @ zname)
                 (plain_zone zname (v_locs v zname))
      in if label \<notin> v_locs v zname then (if label = ''@'' then Some (content r0) else None)
         else case v_store v (''redins:zones:'' @ zname) label of
                None \<Rightarrow> None
              | Some val \<Rightarrow> read_value lib val r0)"

definition db_FindLocation :: "'w db_view \<Rightarrow> string \<Rightarrow> string \<Rightarrow> string \<times> match" where
  "db_FindLocation v zname q = FindLocation (plain_zone zname (v_locs v zname)) q"

text \<open>
  The zone is the one the database describes: it was built from the stored locations and
  configuration at some time (the serial number of a zone without one is that time), and its keys
  may have been found unusable.
\<close>

definition zone_current :: "('t, 'w) DnsRequestHandler \<Rightarrow> 'w db_view \<Rightarrow> string \<Rightarrow> Zone \<Rightarrow> bool" where
  "zone_current h v zname z \<longleftrightarrow>
     zone_Name z = zname \<and> zone_Locations z = v_locs v zname \<and>
     (\<exists>now ls z0. NewZone (lib_Fqdn (h_lib h)) (lib_decode_config (h_lib h)) now zname ls
          (v_config v zname) = Inr z0 \<and>
        zone_Config z \<in> {zone_Config z0, (zone_Config z0)\<lparr>zc_DnsSec := False\<rparr>})"

section \<open>The specification\<close>

text \<open>The climb to the record whose CAA set is relevant.\<close>

definition relevant_CAA :: "Record option \<Rightarrow> Record option" where
  "relevant_CAA found =
     (case found of
        None \<Rightarrow> None
      | Some r \<Rightarrow> if caas_Data (rr_CAA r) \<noteq> [] then Some r else None)"

function climb_CAA ::
  "('t, 'w) h_lib \<Rightarrow> 'w db_view \<Rightarrow> string \<Rightarrow> Record \<Rightarrow> string \<Rightarrow> Record option" where
  "climb_CAA lib v zname r location =
     (if caas_Data (rr_CAA r) \<noteq> [] then Some r
      else (case SplitAfter2 dot location of
              [_, rest] \<Rightarrow>
                (case db_FindLocation v zname rest of
                   (location, match) \<Rightarrow>
                     if match = NoMatch then None
                     else (case stored_record lib v zname location of
                             None \<Rightarrow> None
                           | Some r \<Rightarrow> climb_CAA lib v zname r location))
            | _ \<Rightarrow> relevant_CAA (stored_record lib v zname zname)))"
  by pat_completeness auto

termination climb_CAA
  by (relation "measure (\<lambda>(lib, v, zname, r, location). dots location)")
    (auto simp: db_FindLocation_def intro: FindLocation_rest_dots [OF sym sym])

declare climb_CAA.simps [simp del]

definition address_set :: "uint16 \<Rightarrow> Record \<Rightarrow> IP_RRSet" where
  "address_set qtype r = (if qtype = TypeA then rr_A r else rr_AAAA r)"

definition addresses :: "IP_RRSet \<Rightarrow> net_IP set" where
  "addresses rrset = ip_Ip ` set (ips_Data rrset)"

text \<open>Where an ANAME leads: a record with addresses, a name of another server, nothing, or a failure.\<close>

datatype aname_end = AtRecord Record | Abroad string | NoAddress | Broken

function follow_ANAME ::
  "('t, 'w) h_lib \<Rightarrow> 'w db_view \<Rightarrow> uint16 \<Rightarrow> nat \<Rightarrow> string \<Rightarrow> aname_end" where
  "follow_ANAME lib v qtype k q =
     (if k > 10 then Broken
      else if v_zone_of v q = [] then Abroad q
      else if fst (db_FindLocation v (v_zone_of v q) q) = [] then Broken
      else case stored_record lib v (v_zone_of v q) (fst (db_FindLocation v (v_zone_of v q) q)) of
             None \<Rightarrow> Broken
           | Some r \<Rightarrow>
               (case rr_CNAME r of
                  Some cname \<Rightarrow> follow_ANAME lib v qtype (k + 1) (cname_Host cname)
                | None \<Rightarrow>
                    if qtype \<in> {TypeA, TypeAAAA} \<and> ips_Data (address_set qtype r) \<noteq> []
                    then AtRecord r
                    else (case rr_ANAME r of
                            Some aname \<Rightarrow> follow_ANAME lib v qtype (k + 1) (aname_Location aname)
                          | None \<Rightarrow> NoAddress)))"
  by pat_completeness auto
termination
  by (relation "measure (\<lambda>(lib, v, qtype, k, q). 11 - k)") auto

declare follow_ANAME.simps [simp del]

text \<open>
  The results an address lookup may have: addresses, reply code and time to live. Which addresses of
  a record are given is the business of the filters; what another server says is its own.
\<close>

definition local_result :: "IP_RRSet \<Rightarrow> (net_IP list \<times> int \<times> uint32) set" where
  "local_result rrset = {(ips, RcodeSuccess, ips_Ttl rrset) | ips. set ips \<subseteq> addresses rrset}"

definition aname_results :: "('t, 'w) h_lib \<Rightarrow> 'w db_view \<Rightarrow> uint16 \<Rightarrow> nat \<Rightarrow> string \<Rightarrow>
    (net_IP list \<times> int \<times> uint32) set" where
  "aname_results lib v qtype k target =
     (case follow_ANAME lib v qtype k target of
        AtRecord r \<Rightarrow> local_result (address_set qtype r)
      | Abroad q \<Rightarrow> insert ([], RcodeServerFailure, 0) {(ips, RcodeSuccess, ttl) | ips ttl. True}
      | NoAddress \<Rightarrow> {([], RcodeSuccess, 0)}
      | Broken \<Rightarrow> {([], RcodeServerFailure, 0)})"

definition address_results :: "('t, 'w) h_lib \<Rightarrow> 'w db_view \<Rightarrow> uint16 \<Rightarrow> Record \<Rightarrow>
    (net_IP list \<times> int \<times> uint32) set" where
  "address_results lib v qtype r =
     (case (ips_Data (address_set qtype r), rr_ANAME r) of
        ([], Some aname) \<Rightarrow> aname_results lib v qtype 0 (aname_Location aname)
      | _ \<Rightarrow> local_result (address_set qtype r))"

definition address_rrs :: "int \<Rightarrow> uint16 \<Rightarrow> string \<Rightarrow> net_IP list \<Rightarrow> uint32 \<Rightarrow> dns_RR list" where
  "address_rrs maxTtl qtype qname ips ttl =
     [RR (mk_Hdr maxTtl qname qtype ClassINET ttl) (if qtype = TypeA then RA ip else RAAAA ip).
        ip \<leftarrow> ips, ip \<noteq> None]"

definition soa_section :: "Zone \<Rightarrow> dns_RR list" where
  "soa_section z = (case zone_SOA z of Inl _ \<Rightarrow> [] | Inr soa \<Rightarrow> [soa])"

definition key_records :: "Zone \<Rightarrow> dns_RR list" where
  "key_records z = (if zc_DnsSec (zone_Config z)
     then (case zone_DNSKEYs z of Inl _ \<Rightarrow> [] | Inr keys \<Rightarrow> keys) else [])"

text \<open>The records and the reply code for a type at a record; \<open>None\<close> for a type that is not implemented.\<close>

definition type_answers :: "('t, 'w) DnsRequestHandler \<Rightarrow> 'w db_view \<Rightarrow> Zone \<Rightarrow> uint16 \<Rightarrow> string \<Rightarrow>
    Record \<Rightarrow> (dns_RR list \<times> int) option set" where
  "type_answers h v z qtype qname r =
     (if qtype \<in> {TypeA, TypeAAAA}
      then {Some (address_rrs (max_ttl h) qtype qname ips ttl, res) | ips res ttl.
              (ips, res, ttl) \<in> address_results (h_lib h) v qtype r}
      else {if qtype = TypeCAA
            then Some (case climb_CAA (h_lib h) v (zone_Name z) r
                           (TrimSuffix (rec_Name r) (''.'' @ zone_Name z)) of
                         None \<Rightarrow> [] | Some caa \<Rightarrow> answer_CAA (max_ttl h) qname caa, RcodeSuccess)
            else if qtype = TypeSOA then Some (soa_section z, RcodeSuccess)
            else if qtype = TypeDNSKEY then Some (key_records z, RcodeSuccess)
            else map_option (\<lambda>a. (a, RcodeSuccess)) (record_answer h qtype qname r)})"

text \<open>The outcome of a request: answer section, authority section, reply code.\<close>

type_synonym outcome = "dns_RR list \<times> dns_RR list \<times> int"

definition conclude :: "Zone \<Rightarrow> dns_RR list \<Rightarrow> (dns_RR list \<times> int) option \<Rightarrow> outcome" where
  "conclude z acc answer =
     (case answer of
        None \<Rightarrow> ([], soa_section z, RcodeNotImplemented)
      | Some (rrs, res) \<Rightarrow>
          (acc @ rrs, if rrs = [] \<and> res = RcodeSuccess then soa_section z else [], res))"

text \<open>
  \<open>resolve h v z raw qtype k q acc\<close>: the outcomes for the name \<open>q\<close> in the zone \<open>z\<close>, \<open>k\<close> aliases after
  the name \<open>raw\<close> that was asked for, with \<open>acc\<close> answered so far.
\<close>

function resolve :: "('t, 'w) DnsRequestHandler \<Rightarrow> 'w db_view \<Rightarrow> Zone \<Rightarrow> string \<Rightarrow> uint16 \<Rightarrow> nat \<Rightarrow>
    string \<Rightarrow> dns_RR list \<Rightarrow> outcome set" where
  "resolve h v z raw qtype k q acc =
     (if k > 10 then {([], [], RcodeServerFailure)}
      else if v_zone_of v q \<noteq> zone_Name z then {(acc, [], RcodeSuccess)}
      else case db_FindLocation v (zone_Name z) q of (location, match) \<Rightarrow>
        if match = NoMatch then {(acc, soa_section z, RcodeNameError)}
        else (case stored_record (h_lib h) v (zone_Name z) location of
                None \<Rightarrow> {(acc, [], RcodeServerFailure)}
              | Some r \<Rightarrow>
                  (case (rr_CNAME r, qtype \<noteq> TypeCNAME) of
                     (Some cname, True) \<Rightarrow>
                       if \<not> zc_CnameFlattening (zone_Config z)
                       then resolve h v z raw qtype (k + 1) (fqdn_of h (cname_Host cname))
                              (acc @ answer_CNAME (fqdn_of h) (max_ttl h) q r)
                       else if v_zone_of v (cname_Host cname) \<noteq> zone_Name z
                       then {(acc @ answer_CNAME (fqdn_of h) (max_ttl h) raw r, [], RcodeSuccess)}
                       else resolve h v z raw qtype (k + 1) (fqdn_of h (cname_Host cname)) acc
                   | _ \<Rightarrow>
                       if nss_Data (rr_NS r) \<noteq> [] \<and> q \<noteq> zone_Name z
                       then {(acc, answer_NS (fqdn_of h) (max_ttl h) q r, RcodeSuccess)}
                       else conclude z acc ` type_answers h v z qtype
                              (if zc_CnameFlattening (zone_Config z) then raw else q) r)))"
  by pat_completeness auto
termination
  by (relation "measure (\<lambda>(h, v, z, raw, qtype, k, q, acc). 11 - k)") auto

declare resolve.simps [simp del]

end
