(* ===== verification/Coherence.thy ===== *)
theory Coherence
  imports Database_Spec
begin

text \<open>
  States that are coherent with a database: everything the caches may return agrees with it. Loading
  a zone or a record keeps a state coherent and returns what the database holds, whether the caches
  hold nothing, a current entry or an expired one.
\<close>

section \<open>Conditions on the libraries\<close>

text \<open>The caches return what was put into them under the same key, and nothing else adds to them.\<close>

definition caches_view :: "('t, 'w) h_lib \<Rightarrow> ('w \<Rightarrow> (string \<times> (nat + Zone)) set) \<Rightarrow> bool" where
  "caches_view lib cached \<longleftrightarrow>
     (\<forall>k. quiet cached (lib_ZoneCache_Get lib k)) \<and> (\<forall>k. quiet cached (lib_RecordCache_Get lib k)) \<and>
     (\<forall>k w z. fst (lib_ZoneCache_Get lib k w) = Some z \<longrightarrow> (k, Inr z) \<in> cached w) \<and>
     (\<forall>k w p. fst (lib_RecordCache_Get lib k w) = Some p \<longrightarrow> (k, Inl p) \<in> cached w) \<and>
     (\<forall>k z w. cached (lib_ZoneCache_Set lib k z w) \<subseteq> insert (k, Inr z) (cached w)) \<and>
     (\<forall>k p w. cached (lib_RecordCache_Set lib k p w) \<subseteq> insert (k, Inl p) (cached w)) \<and>
     redis_quiet cached lib \<and> hc_quiet cached (lib_hc lib) \<and> up_quiet cached (lib_up lib) \<and>
     sec_quiet cached (lib_sec lib) \<and> rq_quiet cached (lib_rq lib)"

text \<open>
  Redis answers, with the contents the view describes. The JSON decoder does not look at the zone of
  a record (\<open>json:"-"\<close>).
\<close>

definition redis_view :: "('t, 'w) h_lib \<Rightarrow> 'w db_view \<Rightarrow> bool" where
  "redis_view lib v \<longleftrightarrow>
     (\<forall>n \<in> v_zones v. \<forall>w. \<exists>ls. fst (lib_GetHKeys lib (''redins:zones:'' @ n) w) = Inr ls \<and>
        set ls = v_locs v n) \<and>
     (\<forall>n \<in> v_zones v. \<forall>w. fst (fst (lib_Get lib (''redins:zones:'' @ n @ '':config'') w)) = v_config v n) \<and>
     (\<forall>n \<in> v_zones v. \<forall>l w. case v_store v (''redins:zones:'' @ n) l of
        None \<Rightarrow> \<exists>err. fst (lib_HGet lib (''redins:zones:'' @ n) l w) = Inl err
      | Some val \<Rightarrow> fst (lib_HGet lib (''redins:zones:'' @ n) l w) = Inr val) \<and>
     (\<forall>txt r z. lib_decode_record lib txt (r\<lparr>rec_Zone := z\<rparr>) =
        map_sum (\<lambda>err. err) (\<lambda>r. r\<lparr>rec_Zone := z\<rparr>) (lib_decode_record lib txt r))"

text \<open>
  The record cache is keyed by the name of a location in full, so the records of two zones can only
  be told apart when no zone lies below another one.
\<close>

definition separate :: "string set \<Rightarrow> bool" where
  "separate zones \<longleftrightarrow>
     (\<forall>n \<in> zones. \<forall>n' \<in> zones. \<forall>l l'. l @ ''.'' @ n = l' @ ''.'' @ n' \<longrightarrow> n = n')"

definition view_laws :: "('t, 'w) h_lib \<Rightarrow> 'w db_view \<Rightarrow> bool" where
  "view_laws lib v \<longleftrightarrow> caches_view lib (v_cached v) \<and> redis_view lib v \<and> separate (v_zones v)"

section \<open>Coherent states\<close>

definition coherent ::
  "('t, 'w) DnsRequestHandler \<Rightarrow> 'w db_view \<Rightarrow> ('t, 'w) hstate \<Rightarrow> bool" where
  "coherent h v s \<longleftrightarrow>
     (\<forall>q. find_zone (h_lib h) (hs_Zones s) q = v_zone_of v q) \<and>
     (\<forall>key p. (key, Inl p) \<in> v_cached v (hs_world s) \<longrightarrow> p < hs_next s \<and>
        (\<forall>zname \<in> v_zones v. \<forall>location. key = location @ ''.'' @ zname \<longrightarrow>
           stored_record (h_lib h) v zname location = Some (content (hs_heap s p)))) \<and>
     (\<forall>key z. (key, Inr z) \<in> v_cached v (hs_world s) \<longrightarrow> key \<in> v_zones v \<longrightarrow> zone_current h v key z)"

text \<open>Later states keep the content of every record allocated before.\<close>

definition extends :: "('t, 'w) hstate \<Rightarrow> ('t, 'w) hstate \<Rightarrow> bool" where
  "extends s s' \<longleftrightarrow>
     hs_next s \<le> hs_next s' \<and> (\<forall>p < hs_next s. content (hs_heap s' p) = content (hs_heap s p))"

definition points_to :: "('t, 'w) hstate \<Rightarrow> nat \<Rightarrow> Record \<Rightarrow> bool" where
  "points_to s p r \<longleftrightarrow> p < hs_next s \<and> content (hs_heap s p) = r"

text \<open>A pointer, perhaps nil, for a record, perhaps missing.\<close>

definition loads :: "('t, 'w) hstate \<Rightarrow> nat option \<Rightarrow> Record option \<Rightarrow> bool" where
  "loads s p found \<longleftrightarrow>
     (case found of None \<Rightarrow> p = None | Some r \<Rightarrow> \<exists>p'. p = Some p' \<and> points_to s p' r)"

lemma loads_simps [simp]:
  "loads s p None \<longleftrightarrow> p = None" "loads s None found \<longleftrightarrow> found = None"
  "loads s (Some p') found \<longleftrightarrow> (\<exists>r. found = Some r \<and> points_to s p' r)"
  by (auto simp: loads_def split: option.splits)

lemma extends_refl [simp, intro]: "extends s s"
  by (simp add: extends_def)

lemma extends_trans [trans]: "extends s t \<Longrightarrow> extends t u \<Longrightarrow> extends s u"
  by (auto simp: extends_def)

lemma points_to_extends: "points_to s p r \<Longrightarrow> extends s s' \<Longrightarrow> points_to s' p r"
  by (auto simp: points_to_def extends_def)

lemma extends_world [simp]: "extends s (s\<lparr>hs_world := w\<rparr>)"
  by (simp add: extends_def)

text \<open>
  \<open>track h v m Q s\<close>: run from \<open>s\<close>, \<open>m\<close> keeps the state coherent and the records it has, and returns with \<open>Q\<close>.
\<close>

definition track :: "('t, 'w) DnsRequestHandler \<Rightarrow> 'w db_view \<Rightarrow> ('t, 'w, 'a) handler_go \<Rightarrow>
    ('a \<Rightarrow> ('t, 'w) hstate \<Rightarrow> bool) \<Rightarrow> ('t, 'w) hstate \<Rightarrow> bool" where
  "track h v m Q s \<longleftrightarrow>
     (coherent h v s \<longrightarrow> wp AnyPanic m (\<lambda>a s'. coherent h v s' \<and> extends s s' \<and> Q a s') s)"

named_theorems track_intros \<open>introduction rules for operations that keep a state coherent\<close>

lemma track_mono: "track h v m P s \<Longrightarrow> (\<And>a t. P a t \<Longrightarrow> Q a t) \<Longrightarrow> track h v m Q s"
  unfolding track_def by (blast intro: wp_strengthen)

lemma track_Return [track_intros]: "Q x s \<Longrightarrow> track h v (Return x) Q s"
  by (simp add: track_def wp_rules)

lemma track_Panic [track_intros]: "track h v (Panic p) Q s"
  by (simp add: track_def wp_rules)

lemma track_Lift: "(\<And>a. r = Inr a \<Longrightarrow> Q a s) \<Longrightarrow> track h v (Lift r) Q s"
  by (simp add: track_def wp_rules split: sum.splits)

lemma track_Bind_with:
  assumes "track h v m R s" "\<And>a t. extends s t \<Longrightarrow> R a t \<Longrightarrow> track h v (k a) Q t"
  shows "track h v (Bind m k) Q s"
  unfolding track_def wp_Bind
proof (intro impI, rule wp_strengthen)
  assume "coherent h v s"
  then show "wp AnyPanic m (\<lambda>a s'. coherent h v s' \<and> extends s s' \<and> R a s') s"
    using assms(1) by (simp add: track_def)
next
  fix a t
  assume t: "coherent h v t \<and> extends s t \<and> R a t"
  then have "track h v (k a) Q t" by (simp add: assms(2))
  with t show "wp AnyPanic (k a) (\<lambda>b u. coherent h v u \<and> extends s u \<and> Q b u) t"
    unfolding track_def by (auto elim!: wp_strengthen intro: extends_trans)
qed

lemma track_Bind:
  "track h v m (\<lambda>_ _. True) s \<Longrightarrow> (\<And>a t. extends s t \<Longrightarrow> track h v (k a) Q t) \<Longrightarrow>
     track h v (Bind m k) Q s"
  by (rule track_Bind_with)

lemma track_Seq:
  "track h v m (\<lambda>_ _. True) s \<Longrightarrow> (\<And>t. extends s t \<Longrightarrow> track h v k Q t) \<Longrightarrow> track h v (Seq m k) Q s"
  unfolding Seq_def by (rule track_Bind)

lemma track_if [track_intros]:
  "(b \<Longrightarrow> track h v m Q s) \<Longrightarrow> (\<not> b \<Longrightarrow> track h v m' Q s) \<Longrightarrow> track h v (if b then m else m') Q s"
  by simp

lemma track_ForEach:
  assumes "I acc" "\<And>x a t. I a \<Longrightarrow> track h v (body x a) (\<lambda>b _. I b) t"
  shows "track h v (ForEach xs body acc) (\<lambda>b _. I b) s"
  using assms
proof (induction xs arbitrary: acc s)
  case (Cons y ys acc s)
  then show ?case by (auto intro!: track_Bind_with [where R = "\<lambda>b _. I b"])
qed (simp add: track_intros)

lemma track_yields:
  assumes "track h v m Q s" "yields P m"
  shows "track h v m (\<lambda>a t. Q a t \<and> P a) s"
  using assms(1) wp_conj [OF _ yieldsD [OF assms(2)]] unfolding track_def
  by (fastforce elim: wp_strengthen)

section \<open>Primitive operations\<close>

lemma coherent_world:
  "coherent h v s \<Longrightarrow> v_cached v w \<subseteq> v_cached v (hs_world s) \<Longrightarrow> coherent h v (s\<lparr>hs_world := w\<rparr>)"
  by (fastforce simp: coherent_def)

lemma coherent_other [simp]:
  "coherent h v (s\<lparr>hs_connections := c\<rparr>) = coherent h v s"
  by (simp add: coherent_def)

lemma track_World:
  assumes "\<And>w. wp AnyPanic m (\<lambda>a w'. v_cached v w' \<subseteq> v_cached v w \<and> P a) w"
  shows "track h v (World m) (\<lambda>a _. P a) s"
  unfolding track_def World_def wp_Zoom
  by (rule impI, rule wp_strengthen [OF assms]) (auto intro: coherent_world)

lemma track_calm: "calm (v_cached v) P m \<Longrightarrow> track h v (World m) (\<lambda>a _. P a) s"
  by (rule track_World) (auto dest: calmD intro: wp_mono)

lemma track_quiet: "quiet (v_cached v) f \<Longrightarrow> track h v (World (Extern f)) (\<lambda>_ _. True) s"
  by (rule track_calm) (rule quiet_calm)

lemma track_reply:
  assumes "quiet (v_cached v) f" "coherent h v s \<Longrightarrow> P (fst (f (hs_world s)))"
  shows "track h v (World (Extern f)) (\<lambda>a _. P a) s"
proof -
  have "v_cached v (snd (f (hs_world s))) \<subseteq> v_cached v (hs_world s)"
    using assms(1) by (simp add: quiet_def)
  with assms(2) show ?thesis by (simp add: track_def World_def wp_rules coherent_world)
qed

lemma view_lawsD:
  assumes "view_laws (h_lib h) v"
  shows "caches_view (h_lib h) (v_cached v)" "redis_view (h_lib h) v" "separate (v_zones v)"
    "redis_quiet (v_cached v) (h_lib h)" "hc_quiet (v_cached v) (lib_hc (h_lib h))"
    "up_quiet (v_cached v) (lib_up (h_lib h))" "sec_quiet (v_cached v) (lib_sec (h_lib h))"
    "rq_quiet (v_cached v) (lib_rq (h_lib h))"
  using assms by (simp_all add: view_laws_def caches_view_def)

lemma track_Now: "view_laws (h_lib h) v \<Longrightarrow> track h v (Now h) (\<lambda>_ _. True) s"
  unfolding Now_def by (rule track_quiet) (auto dest!: view_lawsD(4) simp: redis_quiet_def)

lemma track_FindZone: "track h v (FindZone h q) (\<lambda>z _. z = v_zone_of v q) s"
  by (simp add: track_def FindZone_def wp_rules coherent_def)

lemma track_Deref: "points_to s p r \<Longrightarrow> track h v (Deref p) (\<lambda>r' t. content r' = r \<and> points_to t p r) s"
  by (simp add: track_def Deref_def wp_rules points_to_def)

lemma track_peek: "track h v (Deref p) (\<lambda>_ _. True) s"
  by (simp add: track_def Deref_def wp_rules)

lemma v_zonesI: "v_zone_of v q \<noteq> [] \<Longrightarrow> v_zone_of v q \<in> v_zones v"
  by (simp add: v_zones_def)

lemma zone_currentD:
  "zone_current h v zname z \<Longrightarrow> zone_Name z = zname"
  "zone_current h v zname z \<Longrightarrow> zone_Locations z = v_locs v zname"
  by (simp_all add: zone_current_def)

lemma FindLocation_loop_plain:
  "FindLocation_loop (plain_zone n (zone_Locations z)) q = FindLocation_loop z q"
proof (induction z q rule: FindLocation_loop.induct)
  case (1 z q)
  have keys: "keyExists (plain_zone n (zone_Locations z)) = keyExists z"
    "keyMatches (plain_zone n (zone_Locations z)) = keyMatches z"
    by (auto simp: keyExists_def keyMatches_def plain_zone_def)
  show ?case
    unfolding FindLocation_loop.simps [of _ q]
    by (auto simp: keys 1 split: prod.splits)
qed

lemma FindLocation_plain:
  "zone_Name z = zname \<Longrightarrow> zone_Locations z = v_locs v zname \<Longrightarrow>
     FindLocation z q = db_FindLocation v zname q"
  using FindLocation_loop_plain [of zname z]
  by (auto simp: FindLocation_def db_FindLocation_def Let_def) (simp_all add: plain_zone_def)

lemma plain_zone_sel [simp]:
  "zone_Name (plain_zone n ls) = n" "zone_Locations (plain_zone n ls) = ls"
  by (simp_all add: plain_zone_def)

section \<open>Contents of records\<close>

lemma content_timeout [simp]: "content (r\<lparr>rec_CacheTimeout := t\<rparr>) = content r"
  by (simp add: content_def)

lemma content_zone:
  "zone_Name z = zone_Name z' \<Longrightarrow> zone_Locations z = zone_Locations z' \<Longrightarrow>
     content (r\<lparr>rec_Zone := Some z\<rparr>) = content (r\<lparr>rec_Zone := Some z'\<rparr>)"
  by (simp add: content_def)

lemma content_sel [simp]:
  "rr_CNAME (content r) = rr_CNAME r" "rr_NS (content r) = rr_NS r" "rr_CAA (content r) = rr_CAA r"
  "rr_ANAME (content r) = rr_ANAME r" "rec_Name (content r) = rec_Name r"
  "rr_TXT (content r) = rr_TXT r" "rr_MX (content r) = rr_MX r" "rr_SRV (content r) = rr_SRV r"
  "rr_PTR (content r) = rr_PTR r" "rr_TLSA (content r) = rr_TLSA r"
  "rr_A (content r) = settled (rr_A r)" "rr_AAAA (content r) = settled (rr_AAAA r)"
  "rec_Zone (content r) = map_option (\<lambda>z. plain_zone (zone_Name z) (zone_Locations z)) (rec_Zone r)"
  by (simp_all add: content_def)

lemma settled_Data [simp]: "ips_Data (settled rrset) = ips_Data rrset"
  by (simp add: settled_def)

lemma record_builders_content [simp]:
  "answer_CNAME f m q (content r) = answer_CNAME f m q r"
  "answer_NS f m q (content r) = answer_NS f m q r"
  "answer_CAA m q (content r) = answer_CAA m q r"
  "record_answer h t q (content r) = record_answer h t q r"
  by (simp_all add: answer_CNAME_def answer_NS_def answer_CAA_def record_answer_def answer_TXT_def
      answer_MX_def answer_SRV_def answer_PTR_def answer_TLSA_def Let_def cong: if_cong)

section \<open>Loading zones\<close>

definition same_data :: "Zone \<Rightarrow> Zone \<Rightarrow> bool" where
  "same_data z z' \<longleftrightarrow> zone_Name z' = zone_Name z \<and> zone_Locations z' = zone_Locations z \<and>
     zone_Config z' \<in> {zone_Config z, (zone_Config z)\<lparr>zc_DnsSec := False\<rparr>}"

lemma LoadZoneKeys_same_data: "yields (same_data z) (LoadZoneKeys h z)"
  unfolding LoadZoneKeys_def Let_def
  by (auto intro!: yields_intros simp: no_dnssec_def same_data_def split: option.splits sum.splits)

lemma sign_quiet:
  assumes "view_laws (h_lib h) v"
  shows "wp AnyPanic (sign (lib_sec (h_lib h)) rrs name key ttl) (\<lambda>_ w'. v_cached v w' \<subseteq> v_cached v w) w"
  using view_lawsD(7) [OF assms]
  by (auto simp: sign_def Let_def wp_rules sec_quiet_def quiet_def
      split: sum.splits key_kind.splits PrivateKey.splits)

lemma track_sign:
  assumes "view_laws (h_lib h) v"
  shows "track h v (World (sign (lib_sec (h_lib h)) rrs name key ttl)) (\<lambda>_ _. True) s"
  using sign_quiet [OF assms] by (intro track_World) simp

lemma track_loadKey:
  assumes "view_laws (h_lib h) v"
  shows "track h v (loadKey h pub priv) (\<lambda>_ _. True) s"
proof -
  have "track h v (World (Extern (lib_Get (h_lib h) key))) (\<lambda>_ _. True) t" for key t
    using view_lawsD(4) [OF assms] by (intro track_quiet) (simp add: redis_quiet_def)
  then show ?thesis
    unfolding loadKey_def
    by (auto intro!: track_intros track_Bind track_Now assms split: sum.splits option.splits rdata.splits)
qed

lemma track_LoadZoneKeys:
  assumes "view_laws (h_lib h) v"
  shows "track h v (LoadZoneKeys h z) (\<lambda>z' _. same_data z z') s"
proof -
  have "track h v (LoadZoneKeys h z) (\<lambda>_ _. True) s"
    unfolding LoadZoneKeys_def Let_def
    by (auto intro!: track_intros track_Bind track_loadKey track_sign assms
        split: option.splits sum.splits)
  from track_yields [OF this LoadZoneKeys_same_data] show ?thesis by (rule track_mono) simp
qed

lemma NewZone_sel:
  "NewZone fqdn decode now name ls config = Inr z \<Longrightarrow> zone_Name z = name \<and> zone_Locations z = set ls"
  by (auto simp: NewZone_def Let_def split: option.splits)

lemma zone_current_built:
  assumes "NewZone (lib_Fqdn (h_lib h)) (lib_decode_config (h_lib h)) now zname ls (v_config v zname) = Inr z0"
    and "set ls = v_locs v zname" "same_data z0 z"
  shows "zone_current h v zname (z\<lparr>zone_CacheTimeout := t\<rparr>)"
proof -
  have "zone_Name z = zname" "zone_Locations z = v_locs v zname"
    using NewZone_sel [OF assms(1)] assms(2,3) by (simp_all add: same_data_def)
  with assms(1,3) show ?thesis unfolding zone_current_def same_data_def by auto
qed

lemma track_ZoneCache_Set:
  assumes "view_laws (h_lib h) v" "zone_current h v key z"
  shows "track h v (World (Modify (lib_ZoneCache_Set (h_lib h) key z))) (\<lambda>_ _. True) s"
proof -
  have "v_cached v (lib_ZoneCache_Set (h_lib h) key z w) \<subseteq> insert (key, Inr z) (v_cached v w)" for w
    using view_lawsD(1) [OF assms(1)] by (simp add: caches_view_def)
  with assms(2) show ?thesis
    by (fastforce simp: track_def World_def wp_rules coherent_def)
qed

lemma track_fetch_zone:
  assumes "view_laws (h_lib h) v" "zname \<in> v_zones v"
  shows "track h v (fetch_zone h zname)
           (\<lambda>z _. \<exists>z'. z = Some z' \<and> zone_current h v zname z') s"
proof -
  note redis = view_lawsD(2,4) [OF assms(1)]
  have keys: "track h v (World (Extern (lib_GetHKeys (h_lib h) (''redins:zones:'' @ zname))))
      (\<lambda>r _. \<exists>ls. r = Inr ls \<and> set ls = v_locs v zname) t" for t
    using redis assms(2) by (intro track_reply) (auto simp: redis_view_def redis_quiet_def)
  have conf: "track h v (World (Extern (lib_Get (h_lib h) (''redins:zones:'' @ zname @ '':config''))))
      (\<lambda>r _. fst r = v_config v zname) t" for t
    using redis assms(2) by (intro track_reply) (auto simp: redis_view_def redis_quiet_def)
  have new: "track h v (Lift (NewZone f d now zname ls c))
      (\<lambda>z _. NewZone f d now zname ls c = Inr z) t" for f d now ls c t
    by (rule track_Lift)
  show ?thesis
    unfolding fetch_zone_def Let_def
    by (auto intro!: track_Return track_Bind_with [OF keys] track_Bind_with [OF conf]
        track_Bind [OF track_Now [OF assms(1)]] track_Bind_with [OF new]
        track_Bind_with [OF track_LoadZoneKeys [OF assms(1)]] track_Seq
        track_ZoneCache_Set [OF assms(1)] simp del: append.simps
        split: prod.splits) (erule zone_current_built; assumption)+
qed

lemma track_LoadZone:
  assumes "view_laws (h_lib h) v" "zname \<in> v_zones v"
  shows "track h v (LoadZone h zname) (\<lambda>z _. \<exists>z'. z = Some z' \<and> zone_current h v zname z') s"
proof -
  have get: "track h v (World (Extern (lib_ZoneCache_Get (h_lib h) zname)))
      (\<lambda>z _. \<forall>z'. z = Some z' \<longrightarrow> zone_current h v zname z') s"
    using view_lawsD(1) [OF assms(1)] assms(2)
    by (intro track_reply) (auto simp: caches_view_def coherent_def)
  show ?thesis
    unfolding LoadZone_def Let_def
    by (rule track_Bind_with [OF get])
      (auto intro!: track_if track_Return track_Bind_with [OF track_fetch_zone [OF assms]]
        track_Bind [OF track_Now [OF assms(1)]] split: option.split)
qed

section \<open>Loading records\<close>

lemma read_value_plain:
  assumes "redis_view lib v" "zone_Name z = zname" "zone_Locations z = v_locs v zname"
  shows "read_value lib val (new_Record name z) =
           read_value lib val (new_Record name (plain_zone zname (v_locs v zname)))"
proof -
  let ?z' = "plain_zone zname (v_locs v zname)"
  let ?r = "new_Record name ?z'"
  have new: "new_Record name z = ?r\<lparr>rec_Zone := Some z\<rparr>" "?r\<lparr>rec_Zone := Some ?z'\<rparr> = ?r"
    by (simp_all add: new_Record_def)
  have decode: "lib_decode_record lib val (?r\<lparr>rec_Zone := y\<rparr>) =
      map_sum (\<lambda>err. err) (\<lambda>r. r\<lparr>rec_Zone := y\<rparr>) (lib_decode_record lib val ?r)" for y
    using assms(1) unfolding redis_view_def by blast
  have zones: "content (r\<lparr>rec_Zone := Some z\<rparr>) = content (r\<lparr>rec_Zone := Some ?z'\<rparr>)" for r
    by (rule content_zone) (simp_all add: assms)
  have kept: "r\<lparr>rec_Zone := Some ?z'\<rparr> = r" if "lib_decode_record lib val ?r = Inr r" for r
    using decode [of "Some ?z'"] that by (simp add: new(2))
  show ?thesis
    using zones [of ?r] decode [of "Some z"]
    by (cases "lib_decode_record lib val ?r") (simp_all add: read_value_def new zones kept)
qed

lemma stored_record_zone:
  assumes "redis_view lib v" "stored_record lib v zname location = Some r"
  shows "rec_Zone r = Some (plain_zone zname (v_locs v zname))"
proof -
  let ?z' = "plain_zone zname (v_locs v zname)"
  have new: "(new_Record name ?z')\<lparr>rec_Zone := Some ?z'\<rparr> = new_Record name ?z'"
    "rec_Zone (content (new_Record name ?z')) = Some ?z'" for name
    by (simp_all add: new_Record_def)
  have "rec_Zone r' = Some ?z'" if "lib_decode_record lib val (new_Record name ?z') = Inr r'" for val name r'
  proof -
    have "Inr r' = map_sum (\<lambda>err. err) (\<lambda>r. r\<lparr>rec_Zone := Some ?z'\<rparr>) (Inr r' :: go_error + Record)"
      using assms(1) new(1) that unfolding redis_view_def by metis
    then have "r' = r'\<lparr>rec_Zone := Some ?z'\<rparr>" by simp
    then show ?thesis by (metis Record.select_convs(1) Record.surjective Record.update_convs(1))
  qed
  then have "rec_Zone r' = Some ?z'"
    if "read_value lib val (new_Record name ?z') = Some r'" for val name r'
    using that new(2) [of name] by (auto simp: read_value_def split: if_splits sum.splits)
  with assms(2) show ?thesis
    by (auto simp: stored_record_def Let_def new(2) simp del: content_sel split: if_splits option.splits)
qed

lemma separateD:
  "separate zones \<Longrightarrow> n \<in> zones \<Longrightarrow> n' \<in> zones \<Longrightarrow> l @ ''.'' @ n = l' @ ''.'' @ n' \<Longrightarrow> n' = n \<and> l' = l"
  unfolding separate_def by (metis append_same_eq)

lemma coherent_alloc:
  assumes "coherent h v s"
  shows "coherent h v (s\<lparr>hs_heap := (hs_heap s)(hs_next s := r), hs_next := Suc (hs_next s)\<rparr>)"
  using assms by (fastforce simp: coherent_def)

lemma coherent_stored:
  assumes "coherent h v s" "v_cached v w \<subseteq> insert (key, Inl p) (v_cached v (hs_world s))"
    and "p < hs_next s" "\<And>zname location. zname \<in> v_zones v \<Longrightarrow> key = location @ ''.'' @ zname \<Longrightarrow>
      stored_record (h_lib h) v zname location = Some (content (hs_heap s p))"
  shows "coherent h v (s\<lparr>hs_world := w\<rparr>)"
proof -
  have "(k, Inl p') \<in> v_cached v (hs_world s) \<or> k = key \<and> p' = p" if "(k, Inl p') \<in> v_cached v w" for k p'
    using assms(2) that by auto
  moreover have "(k, Inr z) \<in> v_cached v (hs_world s)" if "(k, Inr z) \<in> v_cached v w" for k z
    using assms(2) that by auto
  ultimately show ?thesis using assms(1,3,4) unfolding coherent_def by simp blast
qed

text \<open>Storing a fresh record under its key, also after decoding it from a value: parts of \<open>fetch_location\<close>.\<close>

definition put_record ::
  "('t, 'w) DnsRequestHandler \<Rightarrow> string \<Rightarrow> Record \<Rightarrow> ('t, 'w, nat option) handler_go" where
  "put_record h key r = Bind (Alloc r) (\<lambda>p.
     Seq (World (Modify (lib_RecordCache_Set (h_lib h) key p))) (Return (Some p)))"

definition put_value ::
  "('t, 'w) DnsRequestHandler \<Rightarrow> string \<Rightarrow> string \<Rightarrow> Record \<Rightarrow> ('t, 'w, nat option) handler_go" where
  "put_value h key val r0 =
     (case (if val \<noteq> [] then lib_decode_record (h_lib h) val r0 else Inr r0) of
        Inl err \<Rightarrow> Return None
      | Inr r1 \<Rightarrow> Bind (Now h) (\<lambda>now.
          put_record h key (r1\<lparr>rec_CacheTimeout := unix now + cfg_CacheTimeout (h_Config h)\<rparr>)))"

lemma fetch_location_parts:
  "fetch_location h location z key =
     (let label = (if location = zone_Name z then ''@'' else location);
          r0 = new_Record (if location = zone_Name z then zone_Name z else location @ ''.'' @ zone_Name z) z
      in if label \<notin> zone_Locations z then (if label = ''@'' then put_record h key r0 else Return None)
         else Bind (World (Extern (lib_HGet (h_lib h) (''redins:zones:'' @ zone_Name z) label)))
                (\<lambda>x. case x of Inl err \<Rightarrow> Return None | Inr val \<Rightarrow> put_value h key val r0))"
  unfolding fetch_location_def put_value_def put_record_def
  by (cases "location = zone_Name z") (simp_all add: Let_def del: append.simps)

lemma track_put_record:
  assumes "view_laws (h_lib h) v" "zname \<in> v_zones v"
    and "stored_record (h_lib h) v zname location = Some (content r)"
  shows "track h v (put_record h (location @ ''.'' @ zname) r)
           (\<lambda>p t. loads t p (stored_record (h_lib h) v zname location)) s"
proof -
  let ?key = "location @ ''.'' @ zname" and ?p = "hs_next s"
  let ?t = "s\<lparr>hs_heap := (hs_heap s)(?p := r), hs_next := Suc ?p\<rparr>"
  let ?w = "lib_RecordCache_Set (h_lib h) ?key ?p (hs_world s)"
  have cached: "v_cached v ?w \<subseteq> insert (?key, Inl ?p) (v_cached v (hs_world s))"
    using view_lawsD(1) [OF assms(1)] by (simp add: caches_view_def)
  have "stored_record (h_lib h) v zname' location' = Some (content r)"
    if "zname' \<in> v_zones v" "?key = location' @ ''.'' @ zname'" for zname' location'
    using separateD [OF view_lawsD(3) [OF assms(1)] assms(2) that] assms(3) by simp
  then have "coherent h v (?t\<lparr>hs_world := ?w\<rparr>)" if "coherent h v s"
    using coherent_stored [OF coherent_alloc [OF that, of r], of ?w ?key ?p] cached by simp
  then show ?thesis
    by (auto simp: track_def put_record_def Alloc_def World_def wp_rules points_to_def extends_def assms(3))
qed

lemma track_put_value:
  assumes "view_laws (h_lib h) v" "zname \<in> v_zones v"
    and "stored_record (h_lib h) v zname location = read_value (h_lib h) val r0"
  shows "track h v (put_value h (location @ ''.'' @ zname) val r0)
           (\<lambda>p t. loads t p (stored_record (h_lib h) v zname location)) s"
proof (cases "if val \<noteq> [] then lib_decode_record (h_lib h) val r0 else Inr r0")
  case (Inl err)
  then have "stored_record (h_lib h) v zname location = None" unfolding assms(3) read_value_def by simp
  with Inl show ?thesis by (simp add: put_value_def track_Return)
next
  case (Inr r1)
  then have "stored_record (h_lib h) v zname location = Some (content (r1\<lparr>rec_CacheTimeout := e\<rparr>))" for e
    unfolding assms(3) read_value_def by simp
  note put = track_put_record [OF assms(1,2) this]
  show ?thesis
    unfolding put_value_def Inr sum.case by (intro track_Bind [OF track_Now [OF assms(1)]] put)
qed

lemma track_fetch_location:
  assumes "view_laws (h_lib h) v" "zname \<in> v_zones v"
    and "zone_Name z = zname" "zone_Locations z = v_locs v zname"
  shows "track h v (fetch_location h location z (location @ ''.'' @ zname))
           (\<lambda>p t. loads t p (stored_record (h_lib h) v zname location)) s"
proof -
  note redis = view_lawsD(2,4) [OF assms(1)]
  let ?hash = "''redins:zones:'' @ zname" and ?stored = "stored_record (h_lib h) v zname location"
  let ?label = "if location = zname then ''@'' else location"
  let ?r0 = "new_Record (if location = zname then zname else location @ ''.'' @ zname) z"
  have hget: "track h v (World (Extern (lib_HGet (h_lib h) ?hash ?label)))
      (\<lambda>x _. case v_store v ?hash ?label of None \<Rightarrow> \<exists>err. x = Inl err | Some val \<Rightarrow> x = Inr val) t" for t
    using redis assms(2) unfolding redis_view_def redis_quiet_def
    by (intro track_reply) (auto split: option.splits)
  show ?thesis
  proof (cases "?label \<in> v_locs v zname")
    case False
    then have stored: "?stored = (if ?label = ''@'' then Some (content ?r0) else None)"
      using assms(3,4) by (simp add: stored_record_def Let_def content_def new_Record_def)
    show ?thesis
      unfolding fetch_location_parts assms(3,4) Let_def
      by (intro track_if track_put_record [OF assms(1,2)] track_Return)
        (use False in \<open>simp_all add: stored del: append.simps split del: if_split\<close>)
  next
    case True
    then have stored: "?stored = (case v_store v ?hash ?label of None \<Rightarrow> None
        | Some val \<Rightarrow> read_value (h_lib h) val ?r0)"
      by (simp add: stored_record_def Let_def read_value_plain [OF redis(1) assms(3,4)] split: option.split)
    show ?thesis
      unfolding fetch_location_parts assms(3,4) Let_def eqTrueI [OF True] not_True_eq_False if_False
    proof (rule track_Bind_with [OF hget], cases "v_store v ?hash ?label", goal_cases)
      case (1 x t)
      then have "?stored = None" unfolding stored by simp
      with 1 show ?case by (auto intro: track_Return)
    next
      case (2 x t val)
      then have "?stored = read_value (h_lib h) val ?r0" unfolding stored by simp
      from track_put_value [OF assms(1,2) this, of t] 2(2,3) show ?case by (simp only: option.case sum.case)
    qed
  qed
qed

lemma track_LoadLocation:
  assumes "view_laws (h_lib h) v" "zname \<in> v_zones v"
    and "zone_Name z = zname" "zone_Locations z = v_locs v zname"
  shows "track h v (LoadLocation h location z)
           (\<lambda>p t. loads t p (stored_record (h_lib h) v zname location)) s"
proof -
  let ?key = "location @ ''.'' @ zname" and ?stored = "stored_record (h_lib h) v zname location"
  let ?get = "lib_RecordCache_Get (h_lib h) ?key"
  let ?R = "\<lambda>p t. \<forall>p'. p = Some p' \<longrightarrow> (\<exists>r. ?stored = Some r \<and> points_to t p' r)"
  have laws: "quiet (v_cached v) ?get" "\<And>w p. fst (?get w) = Some p \<Longrightarrow> (?key, Inl p) \<in> v_cached v w"
    using view_lawsD(1) [OF assms(1)] by (simp_all add: caches_view_def)
  have found: "p < hs_next t \<and> ?stored = Some (content (hs_heap t p))"
    if "fst (?get (hs_world t)) = Some p" "coherent h v t" for p t
    using laws(2) [OF that(1)] that(2) assms(2) unfolding coherent_def by blast
  have get: "track h v (World (Extern ?get)) ?R s"
    using laws(1) found [of s]
    by (auto simp: track_def World_def wp_rules points_to_def quiet_def coherent_world)
  note fetch = track_fetch_location [OF assms, of location]
  show ?thesis
    unfolding LoadLocation_def Let_def assms(3)
    by (rule track_Bind_with [OF get],
        auto intro!: track_if track_Return track_Bind_with [OF fetch] track_Bind [OF track_Now [OF assms(1)]]
        track_Bind [OF track_peek] simp del: append.simps split: option.splits)
      (blast intro: points_to_extends)
qed

end
