(* ===== verification/Handler_Refine.thy ===== *)
theory Handler_Refine
  imports Coherence
begin

text \<open>
  The request path refines the specification of \<open>Database_Spec\<close>: from every coherent state it returns an
  outcome the specification allows and leaves a coherent state, although it reads through caches and
  writes to records that the cache shares.
\<close>

section \<open>Addresses\<close>

lemma track_keeps: "keeps (\<lambda>s. s) m \<Longrightarrow> track h v m (\<lambda>_ _. True) s"
  unfolding track_def by (rule impI, rule wp_strengthen [OF keepsD [where s = s]]) auto

lemma Filter_addresses:
  "yields (\<lambda>ips. set ips \<subseteq> addresses rrset) (Filter h name src rrset)"
proof -
  let ?n = "length (ips_Data rrset)"
  have health: "yields (\<lambda>m. length m = ?n) (World (FilterHealthcheck lib g name rrset
      (replicate ?n IpMaskWhite)))" for lib :: "'b hc_lib" and g
    unfolding yields_def World_def wp_Zoom
    by (auto intro!: wp_strengthen [OF health_stage.stage_keeps] simp: stage_ok_def)
  have geo: "yields (\<lambda>m'. length m' = ?n) (geo_stage h src rrset m)" if "length m = ?n" for m
    unfolding yields_def using that
    by (auto intro!: wp_strengthen [OF geo.stage_keeps] simp: stage_ok_def)
  have order: "set ips \<subseteq> addresses rrset" if "OrderIps ns rrset m = Inr ips" "length m = ?n" for ns m ips
  proof -
    note run = that
    obtain js where "ips = map (ip_at rrset) js" "set js \<subseteq> set (whites m)"
      by (rule OrderIps_positions [OF run(1)])
    with run(2) show ?thesis by (auto simp: addresses_def ip_at_def set_whites)
  qed
  show ?thesis
    unfolding Filter_def
    by (rule yields_Bind_with [OF health], rule yields_Bind_with [OF geo])
      (auto intro!: yields_Bind yields_Lift dest: order)
qed

lemma track_Filter:
  assumes "view_laws (h_lib h) v"
  shows "track h v (Filter h name src rrset) (\<lambda>ips _. set ips \<subseteq> addresses rrset) s"
proof -
  note hc = calm_FilterHealthcheck [OF view_lawsD(5) [OF assms], of rrset "h_healthcheck h" name]
  have "track h v (Filter h name src rrset) (\<lambda>_ _. True) s"
    unfolding Filter_def
    by (rule track_Bind_with [OF track_calm [OF hc]], rule track_Bind [OF track_keeps [OF keeps_geo_stage]])
      (auto intro!: track_Bind track_if track_Now track_Return track_Lift assms)
  from track_yields [OF this Filter_addresses] show ?thesis by (rule track_mono) simp
qed

lemma track_Upstream_Query:
  assumes "view_laws (h_lib h) v"
  shows "track h v (Upstream_Query h location qtype) (\<lambda>_ _. True) s"
  unfolding track_def Upstream_Query_def wp_Zoom
proof (rule impI, rule wp_mono [OF calmD [OF calm_Query [OF view_lawsD(6) [OF assms]]]])
  fix a and u :: "UpstreamConnection list \<times> 'b"
  assume "coherent h v s"
    and "v_cached v (snd u) \<subseteq> v_cached v (snd (hs_connections s, hs_world s)) \<and> True"
  then have "coherent h v (s\<lparr>hs_world := snd u\<rparr>)" by (auto intro: coherent_world)
  then show "coherent h v (s\<lparr>hs_connections := fst u, hs_world := snd u\<rparr>) \<and>
      extends s (s\<lparr>hs_connections := fst u, hs_world := snd u\<rparr>) \<and> True"
    by (simp add: coherent_def extends_def)
qed simp

lemma addresses_settled [simp]: "addresses (settled rrset) = addresses rrset"
  by (simp add: addresses_def)

lemma address_set_content: "address_set qtype (content r) = settled (address_set qtype r)"
  by (simp add: address_set_def)

lemma settled_nonempty: "ips_Data rrset \<noteq> [] \<Longrightarrow> settled rrset = rrset"
  by (simp add: settled_def)

text \<open>Continuing with the record that was loaded, or without one.\<close>

lemma track_loaded:
  assumes "loads s p found" "found = None \<Longrightarrow> track h v m Q s"
    and "\<And>p r r' t. found = Some r \<Longrightarrow> points_to t p r \<Longrightarrow> content r' = r \<Longrightarrow> track h v (f p r') Q t"
  shows "track h v (case p of None \<Rightarrow> m | Some p \<Rightarrow> Bind (Deref p) (f p)) Q s"
proof (cases found)
  case (Some r)
  then obtain p' where "p = Some p'" "points_to s p' r" using assms(1) by (auto simp: loads_def)
  with Some show ?thesis by (auto intro: track_Bind_with [OF track_Deref] assms(3))
qed (use assms(1,2) in simp)

lemma local_result_content:
  assumes "ips_Data rrset \<noteq> []" "set ips \<subseteq> addresses rrset"
  shows "(ips, RcodeSuccess, ips_Ttl rrset) \<in> local_result (settled rrset)"
  using assms by (simp add: local_result_def settled_nonempty)

lemma track_FindANAME_record:
  fixes h :: "('t, 'w) DnsRequestHandler"
  assumes "view_laws (h_lib h) v" "qtype \<in> {TypeA, TypeAAAA}"
    and onward: "\<And>q s. track h v (FindANAME_loop h ctxt qtype (k + 1) q)
      (\<lambda>x _. x \<in> aname_results (h_lib h) v qtype (k + 1) q) s"
    and found: "k \<le> 10" "v_zone_of v q \<noteq> []" "fst (db_FindLocation v (v_zone_of v q) q) \<noteq> []"
      "stored_record (h_lib h) v (v_zone_of v q) (fst (db_FindLocation v (v_zone_of v q) q)) = Some (content r)"
  shows "track h v
     (case rr_CNAME r of
        Some cname \<Rightarrow> FindANAME_loop h ctxt qtype (k + 1) (cname_Host cname)
      | None \<Rightarrow>
          if qtype = TypeA \<and> ips_Data (rr_A r) \<noteq> []
          then Bind (Filter h (rec_Name r) (rc_SourceIp ctxt) (rr_A r)) (\<lambda>ips.
               Return (ips, RcodeSuccess, ips_Ttl (rr_A r)))
          else if qtype = TypeAAAA \<and> ips_Data (rr_AAAA r) \<noteq> []
          then Bind (Filter h (rec_Name r) (rc_SourceIp ctxt) (rr_AAAA r)) (\<lambda>ips.
               Return (ips, RcodeSuccess, ips_Ttl (rr_AAAA r)))
          else (case rr_ANAME r of
                  Some aname \<Rightarrow> FindANAME_loop h ctxt qtype (k + 1) (aname_Location aname)
                | None \<Rightarrow> Return ([], RcodeSuccess, 0)))
     (\<lambda>x _. x \<in> aname_results (h_lib h) v qtype k q) s"
proof -
  have results: "aname_results (h_lib h) v qtype k q =
     (case rr_CNAME r of
        Some cname \<Rightarrow> aname_results (h_lib h) v qtype (k + 1) (cname_Host cname)
      | None \<Rightarrow>
          if ips_Data (address_set qtype r) \<noteq> [] then local_result (settled (address_set qtype r))
          else (case rr_ANAME r of
                  Some aname \<Rightarrow> aname_results (h_lib h) v qtype (k + 1) (aname_Location aname)
                | None \<Rightarrow> {([], RcodeSuccess, 0)}))"
    using assms(2) found
    by (auto simp: aname_results_def follow_ANAME.simps [of _ _ _ k] address_set_content split: option.split)
  have pick: "(if qtype = TypeA \<and> ips_Data (rr_A r) \<noteq> [] then f (rr_A r)
      else if qtype = TypeAAAA \<and> ips_Data (rr_AAAA r) \<noteq> [] then f (rr_AAAA r) else m) =
     (if ips_Data (address_set qtype r) \<noteq> [] then f (address_set qtype r) else m)"
    for f and m :: "('t, 'w, net_IP list \<times> int \<times> uint32) handler_go"
    using assms(2) by (auto simp: address_set_def TypeA_def TypeAAAA_def)
  note filter = track_Bind_with [OF track_Filter [OF assms(1)]]
  show ?thesis
    unfolding results
    by (subst pick [where f = "\<lambda>rrset. Bind (Filter h (rec_Name r) (rc_SourceIp ctxt) rrset)
          (\<lambda>ips. Return (ips, RcodeSuccess, ips_Ttl rrset))"])
      (auto intro!: onward [simplified] filter track_if track_Return local_result_content split: option.split)
qed

lemma track_FindANAME_loop:
  assumes "view_laws (h_lib h) v" "qtype \<in> {TypeA, TypeAAAA}"
  shows "track h v (FindANAME_loop h ctxt qtype k q) (\<lambda>x _. x \<in> aname_results (h_lib h) v qtype k q) s"
proof (induction k arbitrary: q s rule: loop_count_induct)
  case (stop k)
  then show ?case
    by (simp add: FindANAME_loop.simps [of _ _ _ k] aname_results_def follow_ANAME.simps [of _ _ _ k] track_Return)
next
  case (step k)
  let ?zn = "v_zone_of v q" and ?results = "aname_results (h_lib h) v qtype k q"
  let ?loc = "fst (db_FindLocation v ?zn q)"
  have failed: "([], RcodeServerFailure, 0) \<in> ?results"
    if "?zn = [] \<or> ?loc = [] \<or> stored_record (h_lib h) v ?zn ?loc = None"
    using that step.hyps by (auto simp: aname_results_def follow_ANAME.simps [of _ _ _ k])
  have abroad: "(ips, RcodeSuccess, ttl) \<in> ?results" if "?zn = []" for ips ttl
    using that step.hyps by (auto simp: aname_results_def follow_ANAME.simps [of _ _ _ k])
  have zone: "track h v (LoadLocation h ?loc z) (\<lambda>p t.
      loads t p (stored_record (h_lib h) v ?zn ?loc)) t"
    "fst (FindLocation z q) = ?loc"
    if "zone_current h v ?zn z" "?zn \<noteq> []" for z t
    using track_LoadLocation [OF assms(1) v_zonesI [OF that(2)] zone_currentD [OF that(1)]]
      FindLocation_plain [OF zone_currentD [OF that(1)]] by simp_all
  have onward: "track h v (FindANAME_loop h ctxt qtype (k + 1) q)
      (\<lambda>x _. x \<in> aname_results (h_lib h) v qtype (k + 1) q) s" for q s
    using step.IH by simp
  note at_record = track_FindANAME_record [OF assms onward step.hyps, of q]
  have located: "track h v (case p of None \<Rightarrow> Return ([], RcodeServerFailure, 0) | Some p \<Rightarrow>
      Bind (Deref p) f) (\<lambda>x _. x \<in> ?results) t"
    if "loads t p (stored_record (h_lib h) v ?zn ?loc)" "?zn \<noteq> []" "?loc \<noteq> []"
      and "\<And>r t. stored_record (h_lib h) v ?zn ?loc = Some (content r) \<Longrightarrow> track h v (f r) (\<lambda>x _. x \<in> ?results) t"
    for p t f
    using that failed by (intro track_loaded [OF that(1)]) (auto intro: track_Return)
  show ?case
    unfolding FindANAME_loop.simps [of h ctxt qtype k q] Let_def using step.hyps
    by (auto intro!: track_Return track_if track_Bind_with [OF track_FindZone] abroad
        track_Bind [OF track_Upstream_Query [OF assms(1)]] track_Bind_with [OF zone(1)]
        track_Bind_with [OF track_LoadZone [OF assms(1)]] v_zonesI located at_record
        simp: zone(2) failed split: prod.split)
qed

text \<open>The time to live an ANAME lookup leaves in a record is no part of its content.\<close>

lemma content_ttl:
  assumes "content r' = content r"
  shows "ips_Data (rr_A r) = [] \<Longrightarrow> content (r'\<lparr>rr_A := (rr_A r')\<lparr>ips_Ttl := ttl\<rparr>\<rparr>) = content r"
    "ips_Data (rr_AAAA r) = [] \<Longrightarrow> content (r'\<lparr>rr_AAAA := (rr_AAAA r')\<lparr>ips_Ttl := ttl\<rparr>\<rparr>) = content r"
proof -
  have "ips_Data (rr_A r') = ips_Data (rr_A r)" "ips_Data (rr_AAAA r') = ips_Data (rr_AAAA r)"
    using assms by (metis content_sel(11) settled_Data, metis content_sel(12) settled_Data)
  then show "ips_Data (rr_A r) = [] \<Longrightarrow> content (r'\<lparr>rr_A := (rr_A r')\<lparr>ips_Ttl := ttl\<rparr>\<rparr>) = content r"
    "ips_Data (rr_AAAA r) = [] \<Longrightarrow> content (r'\<lparr>rr_AAAA := (rr_AAAA r')\<lparr>ips_Ttl := ttl\<rparr>\<rparr>) = content r"
    unfolding assms [symmetric] by (simp_all add: content_def settled_def)
qed

lemma track_Assign:
  assumes "points_to s p (content r)"
  shows "track h v (Assign p r) (\<lambda>_ _. True) s"
proof -
  have "content (((hs_heap s)(p := r)) p') = content (hs_heap s p')" for p'
    using assms by (simp add: points_to_def)
  then show ?thesis by (simp add: track_def Assign_def wp_rules coherent_def extends_def)
qed

lemma answer_address:
  "answer_A m ips q r = address_rrs m TypeA q ips (ips_Ttl (rr_A r))"
  "answer_AAAA m ips q r = address_rrs m TypeAAAA q ips (ips_Ttl (rr_AAAA r))"
proof -
  have "TypeAAAA \<noteq> TypeA" by (simp add: type_codes)
  then show "answer_A m ips q r = address_rrs m TypeA q ips (ips_Ttl (rr_A r))"
    "answer_AAAA m ips q r = address_rrs m TypeAAAA q ips (ips_Ttl (rr_AAAA r))"
    by (simp_all add: answer_A_def answer_AAAA_def address_rrs_def cong: if_cong)
qed

lemma address_rrs_local:
  assumes "set ips \<subseteq> addresses rrset"
  shows "\<exists>ips' ttl. address_rrs m t q ips (ips_Ttl rrset) = address_rrs m t q ips' ttl \<and>
           (ips', RcodeSuccess, ttl) \<in> local_result (settled rrset)"
proof (cases "ips_Data rrset = []")
  case True
  then have "ips = []" using assms by (simp add: addresses_def)
  with True show ?thesis
    by (intro exI [of _ "[]"] exI [of _ 0]) (simp add: address_rrs_def local_result_def settled_def)
next
  case False
  with assms local_result_content show ?thesis by blast
qed

definition address_answers :: "('t, 'w) DnsRequestHandler \<Rightarrow> 'w db_view \<Rightarrow> uint16 \<Rightarrow> string \<Rightarrow>
    Record \<Rightarrow> (dns_RR list \<times> int) set" where
  "address_answers h v qtype qname r =
     {(address_rrs (max_ttl h) qtype qname ips ttl, res) | ips res ttl.
        (ips, res, ttl) \<in> address_results (h_lib h) v qtype r}"

lemma address_answers_local:
  assumes "set ips \<subseteq> addresses (address_set qtype r)"
    and "ips_Data (address_set qtype r) \<noteq> [] \<or> rr_ANAME r = None"
  shows "(address_rrs (max_ttl h) qtype qname ips (ips_Ttl (address_set qtype r)), RcodeSuccess)
           \<in> address_answers h v qtype qname (content r)"
proof -
  have "address_results (h_lib h) v qtype (content r) = local_result (settled (address_set qtype r))"
    using assms(2) by (auto simp: address_results_def address_set_content split: list.split option.split)
  with address_rrs_local [OF assms(1), of "max_ttl h" qtype qname] show ?thesis
    by (fastforce simp: address_answers_def)
qed

lemma address_answers_aname:
  assumes "ips_Data (address_set qtype r) = []" "rr_ANAME r = Some aname"
    and "(ips, res, ttl) \<in> aname_results (h_lib h) v qtype 0 (aname_Location aname)"
  shows "(address_rrs (max_ttl h) qtype qname ips ttl, res) \<in> address_answers h v qtype qname (content r)"
  using assms by (fastforce simp: address_answers_def address_results_def address_set_content)

lemma address_set_types [simp]:
  "address_set TypeA r = rr_A r" "address_set TypeAAAA r = rr_AAAA r"
  by (simp_all add: address_set_def type_codes)

text \<open>Writing back the time to live of an ANAME.\<close>

lemma track_write_ttl:
  assumes "points_to s p (content r)" "extends s t"
  shows "ips_Data (rr_A r) = [] \<Longrightarrow> Q (address_rrs m TypeA q ips ttl, res) \<Longrightarrow>
      track h v (Bind (Deref p) (\<lambda>r. Seq (Assign p (r\<lparr>rr_A := (rr_A r)\<lparr>ips_Ttl := ttl\<rparr>\<rparr>))
        (Return (address_rrs m TypeA q ips ttl, res)))) (\<lambda>x _. Q x) t"
    "ips_Data (rr_AAAA r) = [] \<Longrightarrow> Q (address_rrs m TypeAAAA q ips ttl, res) \<Longrightarrow>
      track h v (Bind (Deref p) (\<lambda>r. Seq (Assign p (r\<lparr>rr_AAAA := (rr_AAAA r)\<lparr>ips_Ttl := ttl\<rparr>\<rparr>))
        (Return (address_rrs m TypeAAAA q ips ttl, res)))) (\<lambda>x _. Q x) t"
  by (rule track_Bind_with [OF track_Deref [OF points_to_extends [OF assms]]],
      auto intro!: track_Seq track_Assign track_Return simp: content_ttl)+

lemma track_addresses:
  assumes "view_laws (h_lib h) v" "points_to s p r"
  shows "track h v (address_A h ctxt qname p) (\<lambda>x _. x \<in> address_answers h v TypeA qname r) s"
    "track h v (address_AAAA h ctxt qname p) (\<lambda>x _. x \<in> address_answers h v TypeAAAA qname r) s"
proof -
  note local = address_answers_local [of _ TypeA, simplified] address_answers_local [of _ TypeAAAA, simplified]
  note aname = address_answers_aname [of TypeA, simplified] address_answers_aname [of TypeAAAA, simplified]
  note parts = track_Return track_Bind_with [OF track_Filter [OF assms(1)]]
    track_Bind_with [OF track_FindANAME_loop [OF assms(1)]] track_write_ttl
  show "track h v (address_A h ctxt qname p) (\<lambda>x _. x \<in> address_answers h v TypeA qname r) s"
    unfolding address_A_def FindANAME_def Let_def
    by (rule track_Bind_with [OF track_Deref [OF assms(2)]])
      (auto intro!: parts local(1) aname(1) simp: answer_address split: list.split option.split)
  show "track h v (address_AAAA h ctxt qname p) (\<lambda>x _. x \<in> address_answers h v TypeAAAA qname r) s"
    unfolding address_AAAA_def FindANAME_def Let_def
    by (rule track_Bind_with [OF track_Deref [OF assms(2)]])
      (auto intro!: parts local(2) aname(2) simp: answer_address split: list.split option.split)
qed

section \<open>CAA records\<close>

lemma track_FindCAA_loop:
  assumes "view_laws (h_lib h) v" "zname \<in> v_zones v"
    and "zone_Name z = zname" "zone_Locations z = v_locs v zname" "points_to s p r"
  shows "track h v (FindCAA_loop h z p location) (\<lambda>p t.
           loads t p (climb_CAA (h_lib h) v zname r location)) s"
  using assms(5)
proof (induction "dots location" arbitrary: p r location s rule: less_induct)
  case less
  note load = track_Bind_with [OF track_LoadLocation [OF assms(1-4)]]
  note find = FindLocation_plain [OF assms(3,4)]
  show ?case
    unfolding FindCAA_loop.simps [of h z p location] climb_CAA.simps [of _ _ _ r location]
      FindCAA_apex_def assms(3) find
    by (rule track_Bind_with [OF track_Deref [OF less.prems]])
      (auto intro!: track_Return track_if load less.hyps track_Bind_with [OF track_Deref]
        dest: FindLocation_rest_dots [of _ _ _ z, unfolded find]
        simp: relevant_CAA_def split: list.splits prod.splits option.splits)
qed

lemma track_FindCAA:
  fixes h :: "('t, 'w) DnsRequestHandler"
  assumes "view_laws (h_lib h) v" "zname \<in> v_zones v"
    and "stored_record (h_lib h) v zname location = Some r" "points_to s p r"
  shows "track h v (FindCAA h p) (\<lambda>p t. loads t p
           (climb_CAA (h_lib h) v zname r (TrimSuffix (rec_Name r) (''.'' @ zname)))) s"
  unfolding FindCAA_def
proof (rule track_Bind_with [OF track_Deref [OF assms(4)]], elim conjE)
  fix r' and t :: "('t, 'w) hstate"
  assume r': "content r' = r" "points_to t p r"
  have "rec_Zone (content r') = Some (plain_zone zname (v_locs v zname))"
    using stored_record_zone [OF view_lawsD(2) [OF assms(1)] assms(3)] r'(1) by simp
  then obtain z where z: "rec_Zone r' = Some z" "zone_Name z = zname" "zone_Locations z = v_locs v zname"
    by (auto simp: plain_zone_def)
  have "rec_Name r' = rec_Name r" using r'(1) by auto
  with z track_FindCAA_loop [OF assms(1,2) z(2,3) r'(2)]
  show "track h v (case rec_Zone r' of None \<Rightarrow> Panic NilDereference
      | Some zone \<Rightarrow> FindCAA_loop h zone p (TrimSuffix (rec_Name r') (''.'' @ zone_Name zone)))
     (\<lambda>p t. loads t p (climb_CAA (h_lib h) v zname r (TrimSuffix (rec_Name r) (''.'' @ zname)))) t"
    by simp
qed

section \<open>The answer at a record\<close>

lemma type_answers_address:
  "qtype \<in> {TypeA, TypeAAAA} \<Longrightarrow> type_answers h v z qtype qname r = Some ` address_answers h v qtype qname r"
  by (auto simp: type_answers_def address_answers_def)

lemma Lift_sections:
  "track h v (Lift (zone_SOA z)) (\<lambda>soa _. soa_section z = [soa]) s"
  "zc_DnsSec (zone_Config z) \<Longrightarrow> track h v (Lift (zone_DNSKEYs z)) (\<lambda>keys _. key_records z = keys) s"
  by (rule track_Lift, simp add: soa_section_def key_records_def)+

lemma track_answer_switch:
  assumes "view_laws (h_lib h) v" "zone_Name z \<in> v_zones v"
    and "stored_record (h_lib h) v (zone_Name z) location = Some r" "points_to s p r"
  shows "track h v (answer_switch h z ctxt qname p)
           (\<lambda>x _. x \<in> type_answers h v z (rc_QType ctxt) qname r) s"
proof -
  note addresses = track_addresses [OF assms(1,4)]
  note caa = track_FindCAA [OF assms]
  have distinct: "TypeAAAA \<noteq> TypeA" "TypeCAA \<notin> {TypeA, TypeAAAA}" "TypeSOA \<notin> {TypeA, TypeAAAA, TypeCAA}"
    "TypeDNSKEY \<notin> {TypeA, TypeAAAA, TypeCAA, TypeSOA}"
    by (simp_all add: type_codes)
  have caa_answer: "track h v (case q of None \<Rightarrow> Return (Some ([], RcodeSuccess)) | Some q \<Rightarrow>
      Bind (Deref q) (\<lambda>caa. Return (Some (answer_CAA (max_ttl h) qname caa, RcodeSuccess))))
     (\<lambda>x _. x = Some (case found of None \<Rightarrow> [] | Some caa \<Rightarrow> answer_CAA (max_ttl h) qname caa, RcodeSuccess)) t"
    if "loads t q found" for q found t
    by (rule track_loaded [OF that]) (auto intro!: track_Return)
  show ?thesis
    unfolding answer_switch_def Let_def
    by (intro track_if)
      (auto intro!: track_Return track_Bind_with [OF addresses(1)] track_Bind_with [OF addresses(2)]
        track_Bind_with [OF caa] track_Bind_with [OF track_Deref [OF assms(4)]] caa_answer
        track_Bind_with [OF Lift_sections(1)] track_Bind_with [OF Lift_sections(2)]
        simp: type_answers_def address_answers_def key_records_def)
qed

section \<open>The loop\<close>

fun outcome_of :: "RequestContext \<times> int \<Rightarrow> outcome" where
  "outcome_of (c, res) = (rc_Answer c, rc_Authority c, res)"

lemma track_final_answer:
  assumes "view_laws (h_lib h) v" "zone_Name z \<in> v_zones v"
    and "stored_record (h_lib h) v (zone_Name z) location = Some r" "points_to s p r" "rc_Authority ctxt = []"
  shows "track h v (final_answer h z ctxt q p) (\<lambda>x _. outcome_of x \<in> conclude z (rc_Answer ctxt) `
           type_answers h v z (rc_QType ctxt)
             (if zc_CnameFlattening (zone_Config z) then raw_name ctxt else q) r) s"
  unfolding final_answer_def Let_def
proof (rule track_Bind_with [OF track_answer_switch [OF assms(1-4)]], goal_cases)
  case (1 a t)
  let ?answers = "type_answers h v z (rc_QType ctxt)
    (if zc_CnameFlattening (zone_Config z) then raw_name ctxt else q) r"
  have "track h v (case a of
       None \<Rightarrow> Bind (Lift (zone_SOA z)) (\<lambda>soa.
         Return (ctxt\<lparr>rc_Answer := [], rc_Authority := [soa]\<rparr>, RcodeNotImplemented))
     | Some (rrs, res) \<Rightarrow>
         if rrs = [] \<and> res = RcodeSuccess
         then Bind (Lift (zone_SOA z)) (\<lambda>soa.
              Return (ctxt\<lparr>rc_Answer := rc_Answer ctxt @ rrs, rc_Authority := [soa]\<rparr>, res))
         else Return (ctxt\<lparr>rc_Answer := rc_Answer ctxt @ rrs\<rparr>, res))
     (\<lambda>x _. outcome_of x = conclude z (rc_Answer ctxt) a) t"
    by (auto intro!: track_Return track_if track_Bind_with [OF Lift_sections(1)]
        simp: conclude_def assms(5) split: option.split)
  then show ?case by (rule track_mono) (use 1 in simp)
qed

lemma track_delegate:
  assumes "view_laws (h_lib h) v" "zone_Name z \<in> v_zones v" "zone_Locations z = v_locs v (zone_Name z)"
  shows "track h v (delegate h z q r ctxt) (\<lambda>c _. rc_Answer c = rc_Answer ctxt \<and>
           rc_Authority c = rc_Authority ctxt @ answer_NS (fqdn_of h) (max_ttl h) q r) s"
  unfolding delegate_def
proof (rule track_ForEach)
  fix ns t and c :: RequestContext
  assume c: "rc_Answer c = rc_Answer ctxt \<and>
    rc_Authority c = rc_Authority ctxt @ answer_NS (fqdn_of h) (max_ttl h) q r"
  note load = track_Bind_with [OF track_LoadLocation [OF assms(1,2) refl assms(3)]]
  show "track h v (glue h z ns c) (\<lambda>c _. rc_Answer c = rc_Answer ctxt \<and>
      rc_Authority c = rc_Authority ctxt @ answer_NS (fqdn_of h) (max_ttl h) q r) t"
    unfolding glue_def Let_def using c
    by (auto intro!: track_Return track_if load track_Bind [OF track_peek]
        track_Bind_with [OF track_Filter [OF assms(1)]] split: prod.split option.split)
qed simp

text \<open>A round of the loop at the record that was loaded, and the loop in terms of it.\<close>

definition at_record :: "('t, 'w) DnsRequestHandler \<Rightarrow> Zone \<Rightarrow> RequestContext \<Rightarrow> nat \<Rightarrow> string \<Rightarrow> nat \<Rightarrow>
    Record \<Rightarrow> ('t, 'w, RequestContext \<times> int) handler_go" where
  "at_record h z ctxt k q p r =
     (case (rr_CNAME r, rc_QType ctxt \<noteq> TypeCNAME) of
        (Some cname, True) \<Rightarrow>
          if \<not> zc_CnameFlattening (zone_Config z)
          then HandleRequest_loop h (zone_Name z) z (ctxt\<lparr>rc_Answer := rc_Answer ctxt @
                 answer_CNAME (fqdn_of h) (max_ttl h) q r\<rparr>) (k + 1) (fqdn_of h (cname_Host cname))
          else Bind (FindZone h (cname_Host cname)) (\<lambda>targetZone.
               if targetZone \<noteq> zone_Name z
               then Return (ctxt\<lparr>rc_Answer := rc_Answer ctxt @
                      answer_CNAME (fqdn_of h) (max_ttl h) (raw_name ctxt) r\<rparr>, RcodeSuccess)
               else HandleRequest_loop h (zone_Name z) z ctxt (k + 1) (fqdn_of h (cname_Host cname)))
      | _ \<Rightarrow>
          if nss_Data (rr_NS r) \<noteq> [] \<and> q \<noteq> zone_Name z
          then Bind (delegate h z q r ctxt) (\<lambda>context. Return (context, RcodeSuccess))
          else final_answer h z ctxt q p)"

definition at_location :: "('t, 'w) DnsRequestHandler \<Rightarrow> Zone \<Rightarrow> RequestContext \<Rightarrow> nat \<Rightarrow> string \<Rightarrow>
    string \<times> match \<Rightarrow> ('t, 'w, RequestContext \<times> int) handler_go" where
  "at_location h z ctxt k q found =
     (if snd found = NoMatch
      then Bind (Lift (zone_SOA z)) (\<lambda>soa. Return (ctxt\<lparr>rc_Authority := [soa]\<rparr>, RcodeNameError))
      else Bind (LoadLocation h (fst found) z) (\<lambda>loaded. case loaded of
             None \<Rightarrow> Return (ctxt, RcodeServerFailure) | Some p \<Rightarrow> Bind (Deref p) (at_record h z ctxt k q p)))"

lemma HandleRequest_loop_parts:
  "HandleRequest_loop h (zone_Name z) z ctxt k q =
     (if k > 10 then Return (ctxt\<lparr>rc_Answer := []\<rparr>, RcodeServerFailure)
      else Bind (FindZone h q) (\<lambda>currentZone.
        if currentZone \<noteq> zone_Name z then Return (ctxt, RcodeSuccess)
        else at_location h z ctxt k q (FindLocation z q)))"
proof -
  obtain location match where found: "FindLocation z q = (location, match)" by (cases "FindLocation z q")
  show ?thesis
    unfolding HandleRequest_loop.simps [of h _ z ctxt k q] at_location_def at_record_def found prod.case fst_conv snd_conv
    by (cases match) (simp_all only: match.case match.distinct refl if_True if_False)
qed

lemma track_at_record:
  assumes laws: "view_laws (h_lib h) v" "zone_Name z \<in> v_zones v" "zone_Locations z = v_locs v (zone_Name z)"
    and ctxt: "rc_Authority ctxt = []" "k \<le> 10"
    and onward: "\<And>c q' t. rc_Authority c = [] \<Longrightarrow> track h v (HandleRequest_loop h (zone_Name z) z c (k + 1) q')
      (\<lambda>x _. outcome_of x \<in> resolve h v z (raw_name c) (rc_QType c) (k + 1) q' (rc_Answer c)) t"
    and found: "v_zone_of v q = zone_Name z" "db_FindLocation v (zone_Name z) q = (location, match)"
      "match \<noteq> NoMatch" "stored_record (h_lib h) v (zone_Name z) location = Some (content r)"
    and pt: "points_to t p (content r)"
  shows "track h v (at_record h z ctxt k q p r) (\<lambda>x _. outcome_of x \<in>
           resolve h v z (raw_name ctxt) (rc_QType ctxt) k q (rc_Answer ctxt)) t"
proof -
  have onward': "track h v (HandleRequest_loop h (zone_Name z) z c (Suc k) q') (\<lambda>x _. outcome_of x \<in>
      resolve h v z (raw_name ctxt) (rc_QType ctxt) (Suc k) q' acc) t"
    if "rc_Authority c = []" "raw_name c = raw_name ctxt" "rc_QType c = rc_QType ctxt" "rc_Answer c = acc"
    for c q' t acc
    using onward [OF that(1), of q' t] that(2-4) by simp
  have finale: "track h v (final_answer h z ctxt q' p) (\<lambda>x _. outcome_of x \<in>
      conclude z (rc_Answer ctxt) ` type_answers h v z qtype name (content r)) t"
    if "qtype = rc_QType ctxt" "name = (if zc_CnameFlattening (zone_Config z) then raw_name ctxt else q')"
    for qtype name q'
    using track_final_answer [OF laws(1,2) found(4) pt ctxt(1), of q'] that by simp
  show ?thesis
    unfolding at_record_def resolve.simps [of h v z _ _ k q] using ctxt found
    by (cases "rr_CNAME r"; cases "rc_QType ctxt = TypeCNAME")
      (auto intro!: onward' track_if track_Return track_Bind_with [OF track_FindZone]
        track_Bind_with [OF track_delegate [OF laws]] finale)
qed

lemma track_at_location:
  assumes laws: "view_laws (h_lib h) v" "zone_Name z \<in> v_zones v" "zone_Locations z = v_locs v (zone_Name z)"
    and ctxt: "rc_Authority ctxt = []" "k \<le> 10"
    and onward: "\<And>c q' t. rc_Authority c = [] \<Longrightarrow> track h v (HandleRequest_loop h (zone_Name z) z c (k + 1) q')
      (\<lambda>x _. outcome_of x \<in> resolve h v z (raw_name c) (rc_QType c) (k + 1) q' (rc_Answer c)) t"
    and zone: "v_zone_of v q = zone_Name z"
  shows "track h v (at_location h z ctxt k q (db_FindLocation v (zone_Name z) q)) (\<lambda>x _. outcome_of x \<in>
           resolve h v z (raw_name ctxt) (rc_QType ctxt) k q (rc_Answer ctxt)) s"
proof -
  obtain location match where found: "db_FindLocation v (zone_Name z) q = (location, match)"
    by (cases "db_FindLocation v (zone_Name z) q")
  note load = track_Bind_with [OF track_LoadLocation [OF laws(1,2) refl laws(3)]]
  note record_step = track_at_record [OF laws ctxt onward zone found]
  have missing: "(rc_Answer ctxt, soa_section z, RcodeNameError) \<in>
      resolve h v z (raw_name ctxt) (rc_QType ctxt) k q (rc_Answer ctxt)" if "match = NoMatch"
    using that ctxt(2) zone found by (simp add: resolve.simps [of _ _ _ _ _ k])
  have lost: "(rc_Answer ctxt, [], RcodeServerFailure) \<in>
      resolve h v z (raw_name ctxt) (rc_QType ctxt) k q (rc_Answer ctxt)"
    if "match \<noteq> NoMatch" "stored_record (h_lib h) v (zone_Name z) location = None"
    using that ctxt(2) zone found by (simp add: resolve.simps [of _ _ _ _ _ k])
  show ?thesis
    unfolding at_location_def found fst_conv snd_conv
  proof (rule track_if)
    assume "match = NoMatch"
    then show "track h v (Bind (Lift (zone_SOA z)) (\<lambda>soa.
        Return (ctxt\<lparr>rc_Authority := [soa]\<rparr>, RcodeNameError))) (\<lambda>x _. outcome_of x \<in>
        resolve h v z (raw_name ctxt) (rc_QType ctxt) k q (rc_Answer ctxt)) s"
      using missing by (intro track_Bind_with [OF Lift_sections(1)] track_Return) simp
  next
    assume "match \<noteq> NoMatch"
    then show "track h v (Bind (LoadLocation h location z) (\<lambda>loaded. case loaded of
        None \<Rightarrow> Return (ctxt, RcodeServerFailure) | Some p \<Rightarrow> Bind (Deref p) (at_record h z ctxt k q p)))
        (\<lambda>x _. outcome_of x \<in> resolve h v z (raw_name ctxt) (rc_QType ctxt) k q (rc_Answer ctxt)) s"
      using lost ctxt(1) by (intro load, elim track_loaded) (auto intro!: track_Return record_step)
  qed
qed

lemma track_HandleRequest_loop:
  assumes "view_laws (h_lib h) v" "zone_Name z \<in> v_zones v" "zone_Locations z = v_locs v (zone_Name z)"
    and "rc_Authority ctxt = []"
  shows "track h v (HandleRequest_loop h (zone_Name z) z ctxt k q) (\<lambda>x _. outcome_of x \<in>
           resolve h v z (raw_name ctxt) (rc_QType ctxt) k q (rc_Answer ctxt)) s"
  using assms(4)
proof (induction k arbitrary: ctxt q s rule: loop_count_induct)
  case (stop k)
  then show ?case
    by (simp add: HandleRequest_loop.simps [of _ _ _ _ k] resolve.simps [of _ _ _ _ _ k] track_Return)
next
  case (step k)
  have onward: "rc_Authority c = [] \<Longrightarrow> track h v (HandleRequest_loop h (zone_Name z) z c (k + 1) q')
      (\<lambda>x _. outcome_of x \<in> resolve h v z (raw_name c) (rc_QType c) (k + 1) q' (rc_Answer c)) t" for c q' t
    using step.IH by simp
  have outside: "(rc_Answer ctxt, [], RcodeSuccess) \<in>
      resolve h v z (raw_name ctxt) (rc_QType ctxt) k q (rc_Answer ctxt)" if "v_zone_of v q \<noteq> zone_Name z"
    using that step.hyps by (simp add: resolve.simps [of _ _ _ _ _ k])
  show ?case
    unfolding HandleRequest_loop_parts FindLocation_plain [OF refl assms(3)] using step.hyps step.prems outside
    by (auto intro!: track_Bind_with [OF track_FindZone] track_if track_Return
        track_at_location [OF assms(1-3) step.prems step.hyps onward])
qed

section \<open>The whole request\<close>

text \<open>The outcomes the database allows for a request.\<close>

definition request_outcomes ::
  "('t, 'w) DnsRequestHandler \<Rightarrow> 'w db_view \<Rightarrow> RequestContext \<Rightarrow> outcome set" where
  "request_outcomes h v c =
     (let q = raw_name c; zname = v_zone_of v q
      in if zname = [] then {([], [], RcodeNotAuth)}
         else \<Union>z \<in> {z. zone_current h v zname z}. resolve h v z q (rc_QType c) 0 q [])"

lemma track_keeping:
  assumes "keeps f m" "track h v m R s"
    and "\<And>a t. f t = f s \<Longrightarrow> R a t \<Longrightarrow> track h v (k a) Q t"
  shows "track h v (Bind m k) Q s"
proof -
  have "track h v m (\<lambda>a t. R a t \<and> f t = f s) s"
    using assms(2) wp_conj [OF _ keepsD [OF assms(1), of s]] unfolding track_def
    by (fastforce elim: wp_strengthen)
  then show ?thesis by (rule track_Bind_with) (use assms(3) in blast)
qed

lemma track_Sign:
  assumes "view_laws (h_lib h) v"
  shows "track h v (World (Sign (lib_sec (h_lib h)) rrs name z)) (\<lambda>_ _. True) s"
proof (rule track_World)
  fix w
  let ?lib = "lib_sec (h_lib h)"
  note sec = view_lawsD(7) [OF assms]
  have set: "wp AnyPanic (sign_set ?lib name z rrs) (\<lambda>_ w'. v_cached v w' \<subseteq> v_cached v w) w" for rrs w
    by (auto simp: sign_set_def wp_rules split: list.splits option.splits sum.splits
        intro!: wp_strengthen [OF sign_quiet [OF assms]])
  have walk: "wp AnyPanic (ForEach sets (\<lambda>(_, rrset) res.
      Bind (sign_set ?lib name z rrset) (\<lambda>sigs. Return (res @ rrset @ sigs))) [])
      (\<lambda>_ w'. v_cached v w' \<subseteq> v_cached v w) u" if "v_cached v u \<subseteq> v_cached v w" for sets u
    using that by (intro wp_ForEach)
      (auto simp: wp_rules intro!: wp_strengthen [OF set] split: prod.splits)
  show "wp AnyPanic (Sign ?lib rrs name z) (\<lambda>_ w'. v_cached v w' \<subseteq> v_cached v w \<and> True) w"
    unfolding Sign_def wp_Bind wp_Extern simp_thms
    by (rule walk) (use sec in \<open>simp add: sec_quiet_def quiet_def\<close>)
qed

lemma track_dnssec_stage:
  assumes "view_laws (h_lib h) v"
  shows "track h v (dnssec_stage h z ctxt res) (\<lambda>x _. \<not> rc_Do ctxt \<longrightarrow> x = (ctxt, res)) s"
proof (cases "rc_Do ctxt")
  case True
  have nsec: "track h v (add_NSec z c) (\<lambda>_ _. True) t" for c t
    unfolding add_NSec_def by (intro track_Bind track_Lift track_Return) simp_all
  have signs: "track h v (sign_sections h z c) (\<lambda>_ _. True) t" for c t
    unfolding sign_sections_def Let_def by (intro track_Bind track_Sign assms track_Return) simp
  show ?thesis
    unfolding dnssec_stage_def using True
    by (auto intro!: track_Return track_if track_Bind nsec signs split: prod.split)
qed (simp add: dnssec_stage_def track_Return)

lemma coherent_outputs:
  assumes "hs_Zones s' = hs_Zones s" "hs_heap s' = hs_heap s" "hs_next s' = hs_next s"
    and "v_cached v (hs_world s') \<subseteq> v_cached v (hs_world s)" "coherent h v s"
  shows "coherent h v s' \<and> extends s s'"
  using coherent_world [OF assms(5,4)] assms(1-3) by (simp add: coherent_def extends_def)

lemma track_Respond:
  assumes "view_laws (h_lib h) v"
  shows "track h v (Respond h c res)
           (\<lambda>_ t. hs_sent t = hs_sent s @ [reply_Msg (lib_rq (h_lib h)) c res]) s"
proof -
  have "v_cached v (snd (lib_Now (h_lib h) w)) \<subseteq> v_cached v w"
    "v_cached v (snd (rq_WriteMsg (lib_rq (h_lib h)) m w)) \<subseteq> v_cached v w"
    "v_cached v (rq_Close (lib_rq (h_lib h)) w) \<subseteq> v_cached v w" for m w
    using view_lawsD(4,8) [OF assms]
    by (auto simp: redis_quiet_def rq_quiet_def quiet_def quiet_effect_def)
  then have "wp AnyPanic (Respond h c res) (\<lambda>_ t. hs_Zones t = hs_Zones s \<and> hs_heap t = hs_heap s \<and>
      hs_next t = hs_next s \<and> v_cached v (hs_world t) \<subseteq> v_cached v (hs_world s)) s"
    by (auto simp: Respond_def LogRequest_def Send_def Response_def Now_def World_def Let_def wp_rules)
      (meson subsetD)+
  from wp_conj [OF this wp_Respond] show ?thesis
    unfolding track_def by (intro impI, elim wp_strengthen) (blast dest: coherent_outputs)
qed

text \<open>
  The reply to a request: one message, and without DNSSEC with an outcome the database allows.
\<close>

definition reply_allowed ::
  "('t, 'w) DnsRequestHandler \<Rightarrow> 'w db_view \<Rightarrow> RequestContext \<Rightarrow> dns_Msg \<Rightarrow> bool" where
  "reply_allowed h v c0 m \<longleftrightarrow>
     (\<exists>c res. m = reply_Msg (lib_rq (h_lib h)) c res \<and> rc_Req c = rc_Req c0 \<and>
        (\<not> rc_Do c0 \<longrightarrow> (rc_Answer c, rc_Authority c, res) \<in> request_outcomes h v c0))"

definition answered :: "('t, 'w) DnsRequestHandler \<Rightarrow> 'w db_view \<Rightarrow> RequestContext \<Rightarrow>
    ('t, 'w) hstate \<Rightarrow> ('t, 'w) hstate \<Rightarrow> bool" where
  "answered h v c0 s s' \<longleftrightarrow> (\<exists>m. hs_sent s' = hs_sent s @ [m] \<and> reply_allowed h v c0 m)"

lemma track_Respond_answered:
  assumes "view_laws (h_lib h) v" "outputs t = outputs s" "rc_Req c = rc_Req c0"
    and "\<not> rc_Do c0 \<longrightarrow> outcome_of (c, res) \<in> request_outcomes h v c0"
  shows "track h v (Respond h c res) (\<lambda>_. answered h v c0 s) t"
  by (rule track_mono [OF track_Respond [OF assms(1)]])
    (use assms(2-4) in \<open>auto simp: answered_def reply_allowed_def outputs_def\<close>)

lemma track_answer_tail:
  fixes h :: "('t, 'w) DnsRequestHandler"
  assumes "view_laws (h_lib h) v" "rc_Answer c0 = []" "rc_Authority c0 = []"
    and "zname = v_zone_of v (raw_name c0)" "zname \<noteq> []" "zone_current h v zname z"
    and c: "c = c0\<lparr>rc_LogData := d\<rparr>" and "outputs t = outputs s"
  shows "track h v
     (Bind (HandleRequest_loop h zname z c 0 (raw_name c0)) (\<lambda>(c, res).
      Bind (dnssec_stage h z c res) (\<lambda>(c, res). Respond h c res))) (\<lambda>_. answered h v c0 s) t"
proof -
  let ?q = "raw_name c0"
  have z: "zone_Name z \<in> v_zones v" "zone_Locations z = v_locs v (zone_Name z)" "zone_Name z = zname"
    using zone_currentD [OF assms(6)] assms(4,5) v_zonesI by auto
  have "track h v (HandleRequest_loop h zname z c 0 ?q)
      (\<lambda>x _. outcome_of x \<in> resolve h v z ?q (rc_QType c0) 0 ?q []) t"
    using track_HandleRequest_loop [OF assms(1) z(1,2), of c 0 ?q] assms(2,3) z(3)
    by (simp add: c)
  note loop = track_yields [OF this yields_loop_rcodes]
  show ?thesis
  proof (rule track_keeping [OF keeps_HandleRequest_loop loop], clarify)
    fix c1 res and u :: "('t, 'w) hstate"
    assume u: "outputs u = outputs t" and secs: "sections_of c c1" "res \<in> handler_rcodes"
      and out: "outcome_of (c1, res) \<in> resolve h v z ?q (rc_QType c0) 0 ?q []"
    have c1: "rc_Do c1 = rc_Do c0" "rc_Req c1 = rc_Req c0" using sections_of_facts [OF secs(1)] by (simp_all add: c)
    have allowed: "outcome_of (c1, res) \<in> request_outcomes h v c0"
      using out assms(4-6) by (auto simp: request_outcomes_def Let_def)
    note stage = track_yields [OF track_dnssec_stage [OF assms(1)] yields_dnssec_stage [OF secs(2)]]
    show "track h v (Bind (dnssec_stage h z c1 res) (\<lambda>(c, res). Respond h c res)) (\<lambda>_. answered h v c0 s) u"
    proof (rule track_keeping [OF keeps_dnssec_stage stage], clarify)
      fix c2 res2 and w :: "('t, 'w) hstate"
      assume w: "outputs w = outputs u" and "sections_of c1 c2"
        and same: "\<not> rc_Do c1 \<longrightarrow> (c2, res2) = (c1, res)"
      then have "rc_Req c2 = rc_Req c0" using sections_of_facts(2) c1(2) by simp
      then show "track h v (Respond h c2 res2) (\<lambda>_. answered h v c0 s) w"
        by (rule track_Respond_answered [OF assms(1), rotated]) (use w u assms(8) same c1 allowed in auto)
    qed
  qed
qed

lemma log_source_data: "yields (\<lambda>c. \<exists>d. c = c0\<lparr>rc_LogData := d\<rparr>) (log_source h c0)"
proof -
  have "\<exists>d. c0 = c0\<lparr>rc_LogData := d\<rparr>" by (rule exI [of _ "rc_LogData c0"]) simp
  then show ?thesis
    unfolding log_source_def Let_def by (auto intro!: yields_intros split: prod.splits)
qed

lemma track_HandleRequest:
  fixes h :: "('t, 'w) DnsRequestHandler"
  assumes "view_laws (h_lib h) v" "rc_Answer c0 = []" "rc_Authority c0 = []"
  shows "track h v (HandleRequest h c0) (\<lambda>_. answered h v c0 s) s"
proof -
  note start = track_yields [OF track_keeps [OF keeps_log_source] log_source_data]
  note zone = track_LoadZone [OF assms(1) v_zonesI]
  show ?thesis
    unfolding HandleRequest_def Let_def
  proof (rule track_keeping [OF keeps_log_source [where f = outputs] start], clarify, goal_cases)
    case (1 c t d)
    then have t: "outputs t = outputs s" by simp
    let ?c = "c0\<lparr>rc_LogData := d\<rparr>"
    have refused: "outcome_of (?c, RcodeNotAuth) \<in> request_outcomes h v c0" if "v_zone_of v (raw_name c0) = []"
      using that assms(2,3) by (simp add: request_outcomes_def)
    have tail: "track h v (case loadedZone of None \<Rightarrow> Respond h ?c RcodeServerFailure
        | Some zone \<Rightarrow> Bind (HandleRequest_loop h zname zone (?c\<lparr>rc_LogData := f zone\<rparr>) 0
             (raw_name (?c\<lparr>rc_LogData := f zone\<rparr>)))
           (\<lambda>(c, res). Bind (dnssec_stage h zone c res) (\<lambda>(c, res). Respond h c res)))
        (\<lambda>_. answered h v c0 s) u"
      if "\<exists>z. loadedZone = Some z \<and> zone_current h v zname z" "zname = v_zone_of v (raw_name c0)"
        "zname \<noteq> []" "outputs u = outputs s" for loadedZone f zname u
      using that by (auto intro!: track_answer_tail [OF assms])
    show ?case
    proof (rule track_keeping [OF keeps_FindZone [where f = outputs] track_FindZone], rule track_if, goal_cases)
      case (1 zn u)
      then show ?case
        using refused t by (intro track_Respond_answered [OF assms(1)]) simp_all
    next
      case (2 zn u)
      then have zn: "zn = v_zone_of v (raw_name c0)" "v_zone_of v (raw_name c0) \<noteq> []" by simp_all
      note load = track_keeping [OF keeps_LoadZone zone [OF zn(2), folded zn(1)]]
      show ?case by (rule load, rule tail) (use 2 t in simp_all)
    qed
  qed
qed

end
