(* ===== verification/Database_Runs.thy ===== *)
theory Database_Runs
  imports Handler_Refine
begin

text \<open>
  Runs of requests against a fixed database: whatever requests came before, each is answered as the
  database says. Also what happens when one zone lies below another, which the conditions exclude.
\<close>

section \<open>Runs of requests\<close>

text \<open>The server handling one request after the other.\<close>

definition handle_all ::
  "('t, 'w) DnsRequestHandler \<Rightarrow> RequestContext list \<Rightarrow> ('t, 'w, unit) handler_go" where
  "handle_all h cs = ForEach cs (\<lambda>c _. HandleRequest h c) ()"

lemma HandleRequest_answered:
  assumes "libs_ok held (h_lib h)" "data_ok h" "st_ok h held 0 s"
    and "view_laws (h_lib h) v" "coherent h v s" "rc_Answer c = []" "rc_Authority c = []"
  shows "\<exists>s'. HandleRequest h c s = Inr ((), s') \<and> st_ok h held 0 s' \<and> coherent h v s' \<and> answered h v c s s'"
proof -
  have safe: "wp NoPanic (HandleRequest h c) (\<lambda>_ s'. \<exists>k' \<ge> 0. st_ok h held k' s' \<and> True) s"
    using safe_HandleRequest [OF assms(1,2), of 0 c] assms(3) unfolding safe_def by blast
  have kept: "wp AnyPanic (HandleRequest h c) (\<lambda>_ s'. coherent h v s' \<and> extends s s' \<and> answered h v c s s') s"
    using track_HandleRequest [OF assms(4,6,7), of s] assms(5) by (simp add: track_def)
  obtain s' k' where "HandleRequest h c s = Inr ((), s')" "st_ok h held k' s'"
    "coherent h v s'" "answered h v c s s'"
    using wp_NoPanicD [OF wp_with_frame [OF safe kept]] by auto
  moreover from this have "st_ok h held 0 s'" by (simp add: st_ok_def)
  ultimately show ?thesis by blast
qed

text \<open>A server that starts with empty caches is coherent with the database its zone tree was loaded from.\<close>

lemma coherent_start:
  "v_cached v (hs_world s) = {} \<Longrightarrow> find_zone (h_lib h) (hs_Zones s) = v_zone_of v \<Longrightarrow> coherent h v s"
  by (simp add: coherent_def)

text \<open>Only the choice of addresses is left open: for every other type the database allows one outcome.\<close>

lemma resolve_unique:
  assumes "qtype \<notin> {TypeA, TypeAAAA}"
  shows "is_singleton (resolve h v z raw qtype k q acc)"
proof (induction k arbitrary: q acc rule: loop_count_induct)
  case (stop k)
  then show ?case by (simp add: resolve.simps [of _ _ _ _ _ k])
next
  case (step k)
  have "is_singleton (conclude z acc ` type_answers h v z qtype name r)" for name r
    using assms by (simp add: type_answers_def split del: if_split)
  with step show ?case
    by (auto simp: resolve.simps [of _ _ _ _ _ k] split: option.split bool.split prod.split)
qed

section \<open>Zones below zones\<close>

text \<open>
  Why zones must not be nested: \<open>ns1.b\<close> in \<open>example.com.\<close> and \<open>ns1\<close> in \<open>b.example.com.\<close> have the same key, so a
  record of the one zone (loaded as glue of a delegation) is given for the other while it is current.
\<close>

lemma nested_zones_share_records:
  assumes "location @ ''.'' @ zone_Name z = location' @ ''.'' @ zone_Name z'"
    and "lib_RecordCache_Get (h_lib h) (location @ ''.'' @ zone_Name z) (hs_world s) = (Some p, w)"
    and "unix (fst (lib_Now (h_lib h) w)) \<le> rec_CacheTimeout (hs_heap s p)"
  shows "\<exists>s'. LoadLocation h location z s = Inr (Some p, s') \<and> LoadLocation h location' z' s = Inr (Some p, s')"
proof -
  have "LoadLocation h l y s = Inr (Some p, s\<lparr>hs_world := snd (lib_Now (h_lib h) w)\<rparr>)"
    if "l @ ''.'' @ zone_Name y = location @ ''.'' @ zone_Name z" for l y
    unfolding LoadLocation_def that using assms(2,3)
    by (simp add: Let_def World_def Bind_def Zoom_def Extern_def Deref_def Gets_def Now_def Return_def split_beta)
  with assms(1) show ?thesis by metis
qed

section \<open>An example with a record cache\<close>

text \<open>
  Records are cached under their keys; the address of a record is kept as the length of a string.
\<close>

definition caching_lib :: "((string \<times> string) list, string \<rightharpoonup> string) h_lib" where
  "caching_lib = example_h_lib\<lparr>
     lib_RecordCache_Get := (\<lambda>k w. (map_option length (w k), w)),
     lib_RecordCache_Set := (\<lambda>k p w. w(k \<mapsto> replicate p dot))\<rparr>"

definition caching_handler :: "((string \<times> string) list, string \<rightharpoonup> string) DnsRequestHandler" where
  "caching_handler = example_handler\<lparr>h_lib := caching_lib\<rparr>"

definition example_view :: "(string \<rightharpoonup> string) db_view" where
  "example_view = \<lparr>v_cached = (\<lambda>w. {(k, Inl (length x)) | k x. w k = Some x}),
     v_zone_of = find_zone caching_lib (zone_tree caching_lib [''example.com.'']),
     v_locs = (\<lambda>_. {''www''}), v_store = (\<lambda>_ _. Some ''json''), v_config = (\<lambda>_. [])\<rparr>"

lemma caching_libs_ok: "libs_ok (\<lambda>w. {Inl (length x) | k x. w k = Some x}) caching_lib"
  by (auto simp: quiet_laws quiet_def quiet_effect_def caching_lib_def example_h_lib_def example_sec_lib_def
      example_hc_lib_def example_up_lib_def example_rq_lib_def split: if_splits)

lemma caching_zone: "find_zone caching_lib (zone_tree caching_lib [''example.com.'']) q \<in> {[], ''example.com.''}"
  by (auto simp: find_zone_def zone_tree_def caching_lib_def example_h_lib_def)

lemma caching_view_laws: "view_laws caching_lib example_view"
proof -
  have "v_zones example_view \<subseteq> {''example.com.''}"
    using caching_zone by (auto simp: v_zones_def example_view_def)
  then have "separate (v_zones example_view)" by (auto simp: separate_def)
  moreover have "caches_view caching_lib (v_cached example_view)"
    by (auto simp: caches_view_def quiet_laws quiet_def quiet_effect_def caching_lib_def example_h_lib_def
        example_view_def example_sec_lib_def example_hc_lib_def example_up_lib_def example_rq_lib_def
        split: if_splits)
  moreover have "redis_view caching_lib example_view"
    by (auto simp: redis_view_def caching_lib_def example_h_lib_def example_view_def)
  ultimately show ?thesis by (simp add: view_laws_def)
qed

lemma caching_data_ok: "data_ok caching_handler"
  using example_data_ok
  by (simp add: data_ok_def caching_handler_def caching_lib_def example_handler_def rrset_ok_def)

lemma caching_coherent: "coherent caching_handler example_view example_state"
  by (simp add: coherent_def caching_handler_def example_view_def example_state_def
      caching_lib_def zone_tree_def find_zone_def)

lemma caching_st_ok: "st_ok caching_handler (\<lambda>w. {Inl (length x) | k x. w k = Some x}) 0 example_state"
  by (simp add: st_ok_def example_state_def)

lemma example_outcomes:
  assumes "(ans, auth, res) \<in> request_outcomes caching_handler example_view (example_request ''www.example.com.'' TypeA)"
  shows "res = RcodeSuccess \<and>
    set ans \<subseteq> {RR (mk_Hdr 3600 ''www.example.com.'' TypeA ClassINET 300) (RA (Some [1, 2, 3, 4]))}"
proof -
  have name: "raw_name (example_request ''www.example.com.'' TypeA) = ''www.example.com.''"
    "rc_QType (example_request ''www.example.com.'' TypeA) = TypeA"
    by (simp_all add: example_request_def NewRequestContext_def Let_def split_beta RawName_def new_Msg_def
        ToLower_def lower_char_def)
  have zone: "v_zone_of example_view ''www.example.com.'' = ''example.com.''"
    using example_find_zone(1) by (simp add: example_view_def caching_lib_def find_zone_def zone_tree_def)
  have loc: "db_FindLocation example_view ''example.com.'' ''www.example.com.'' = (''www'', ExactMatch)"
    by (simp add: db_FindLocation_def FindLocation_def example_view_def TrimSuffix_def HasSuffix_def suffix_Cons)
  obtain r where r: "stored_record caching_lib example_view ''example.com.'' ''www'' = Some r" "rr_CNAME r = None"
      "nss_Data (rr_NS r) = []" "ips_Ttl (rr_A r) = 300" "ips_Data (rr_A r) = [zero_IP_RR\<lparr>ip_Ip := Some [1, 2, 3, 4]\<rparr>]"
    by (simp add: stored_record_def read_value_def example_view_def caching_lib_def example_h_lib_def
        new_Record_def content_def zero_Record_def settled_def default_IP_RRSet_def)
  have "max_ttl caching_handler = 3600"
    by (simp add: max_ttl_def caching_handler_def example_handler_def example_config_def)
  moreover obtain z where "zone_Name z = ''example.com.''"
    "(ans, auth, res) \<in> resolve caching_handler example_view z ''www.example.com.'' TypeA 0 ''www.example.com.'' []"
    using assms by (auto simp: request_outcomes_def name zone Let_def dest: zone_currentD)
  moreover have "h_lib caching_handler = caching_lib" by (simp add: caching_handler_def)
  ultimately show ?thesis
    using r by (auto simp: resolve.simps [of _ _ _ _ _ 0] zone loc type_answers_def address_results_def
        local_result_def addresses_def conclude_def address_rrs_def split: if_splits)
qed

section \<open>Properties\<close>



end
