(* ===== verification/Capnp_Lists.thy ===== *)
theory Capnp_Lists
  imports Capnp_Log
begin

text \<open>
  The rest of \<open>handler/logformat/request.capnp.go\<close>: reading a message, the textual form, lists of log
  messages, promised messages and the registration of the schema. The server only writes single
  messages; a reader of the log uses these.
\<close>

section \<open>The library\<close>

text \<open>
  \<open>'m\<close> are messages, \<open>'l\<close> lists, \<open>'p\<close> pipelines, \<open>'r\<close> the registry of schemas. An index outside a list
  panics in the library.
\<close>

record ('s, 'm, 'l, 'p, 'r) capnp_more =
  cap_RootStruct :: "'m \<Rightarrow> 's \<times> go_error option"
  cap_Marshal :: "64 word \<Rightarrow> 's \<Rightarrow> string \<times> go_error option"
  cap_NewCompositeList :: "nat \<Rightarrow> nat \<Rightarrow> int \<Rightarrow> 'l \<times> go_error option"
  cap_list_Struct :: "int \<Rightarrow> 'l \<Rightarrow> go_panic + 's"
  cap_list_SetStruct :: "int \<Rightarrow> 's \<Rightarrow> 'l \<Rightarrow> go_panic + go_error option \<times> 'l"
  cap_MarshalList :: "64 word \<Rightarrow> 'l \<Rightarrow> string \<times> go_error option"
  cap_Pipeline_Struct :: "'p \<Rightarrow> 's \<times> go_error option"
  cap_Register :: "8 word list \<Rightarrow> 64 word list \<Rightarrow> 'r \<Rightarrow> 'r"

section \<open>The generated functions\<close>

definition RequestLog_TypeID :: "64 word" where
  "RequestLog_TypeID = 0xc3dd579d38a573e0"

definition ReadRootRequestLog :: "('s, 'm, 'l, 'p, 'r) capnp_more \<Rightarrow> 'm \<Rightarrow> 's \<times> go_error option" where
  "ReadRootRequestLog lib msg = cap_RootStruct lib msg"

definition RequestLog_String :: "('s, 'm, 'l, 'p, 'r) capnp_more \<Rightarrow> 's \<Rightarrow> string" where
  "RequestLog_String lib s = fst (cap_Marshal lib 0xc3dd579d38a573e0 s)"

definition NewRequestLog_List ::
  "('s, 'm, 'l, 'p, 'r) capnp_more \<Rightarrow> int \<Rightarrow> 'l \<times> go_error option" where
  "NewRequestLog_List lib sz = cap_NewCompositeList lib 16 5 sz"

definition RequestLog_List_At :: "('s, 'm, 'l, 'p, 'r) capnp_more \<Rightarrow> int \<Rightarrow> 'l \<Rightarrow> go_panic + 's" where
  "RequestLog_List_At lib i l = cap_list_Struct lib i l"

definition RequestLog_List_Set ::
  "('s, 'm, 'l, 'p, 'r) capnp_more \<Rightarrow> int \<Rightarrow> 's \<Rightarrow> 'l \<Rightarrow> go_panic + go_error option \<times> 'l" where
  "RequestLog_List_Set lib i v l = cap_list_SetStruct lib i v l"

definition RequestLog_List_String :: "('s, 'm, 'l, 'p, 'r) capnp_more \<Rightarrow> 'l \<Rightarrow> string" where
  "RequestLog_List_String lib l = fst (cap_MarshalList lib 0xc3dd579d38a573e0 l)"

definition RequestLog_Promise_Struct ::
  "('s, 'm, 'l, 'p, 'r) capnp_more \<Rightarrow> 'p \<Rightarrow> 's \<times> go_error option" where
  "RequestLog_Promise_Struct lib p = cap_Pipeline_Struct lib p"

text \<open>The compressed schema, byte by byte.\<close>

definition schema_8d8d9fbdbf80710e :: "8 word list" where
  "schema_8d8d9fbdbf80710e =
    [120, 218, 60, 202, 177, 202, 211, 80, 0, 197, 241, 115, 238, 77, 114, 83, 136, 109, 67, 174,
     32, 78, 34, 78, 130, 66, 55, 233, 162, 56, 59, 120, 147, 193, 185, 166, 23, 137, 208, 36,
     205, 77, 134, 78, 250, 2, 125, 4, 113, 242, 49, 164, 131, 184, 40, 14, 62, 128, 224, 3,
     40, 56, 40, 84, 168, 68, 46, 31, 237, 118, 254, 63, 206, 252, 243, 35, 177, 8, 15, 4,
     140, 14, 163, 241, 187, 123, 247, 224, 205, 179, 111, 31, 96, 166, 20, 227, 116, 251, 250, 240,
     254, 237, 126, 143, 48, 84, 64, 250, 241, 83, 250, 85, 1, 139, 47, 35, 113, 111, 236, 236,
     118, 176, 174, 191, 47, 202, 85, 91, 183, 203, 252, 42, 159, 52, 47, 128, 167, 164, 185, 35,
     3, 32, 32, 144, 254, 204, 1, 243, 67, 210, 28, 5, 73, 77, 111, 127, 238, 2, 230, 151,
     164, 57, 9, 166, 130, 154, 2, 72, 255, 46, 1, 243, 91, 50, 167, 96, 42, 133, 166, 4,
     210, 127, 254, 121, 148, 44, 2, 175, 129, 212, 12, 128, 140, 188, 9, 152, 147, 100, 17, 123,
     14, 3, 205, 16, 200, 66, 62, 6, 114, 74, 22, 137, 231, 72, 104, 70, 64, 54, 225, 109,
     160, 8, 188, 207, 189, 171, 72, 83, 1, 217, 53, 190, 4, 138, 196, 251, 13, 239, 177, 210,
     140, 129, 236, 58, 159, 3, 133, 246, 126, 139, 130, 99, 95, 109, 172, 235, 87, 27, 176, 229,
     4, 130, 19, 112, 54, 12, 213, 154, 9, 4, 19, 240, 97, 103, 203, 166, 187, 228, 172, 223,
     181, 246, 28, 178, 106, 207, 243, 85, 217, 12, 117, 223, 237, 206, 173, 86, 174, 102, 12, 193,
     24, 28, 59, 235, 218, 166, 118, 22, 179, 178, 89, 91, 42, 8, 42, 112, 108, 187, 166, 180,
     206, 245, 80, 213, 230, 162, 255, 3, 0, 0, 255, 255, 83, 38, 81, 59]"

text \<open>The function \<open>init\<close>.\<close>

definition init_schema :: "('s, 'm, 'l, 'p, 'r) capnp_more \<Rightarrow> 'r \<Rightarrow> 'r" where
  "init_schema lib r = cap_Register lib schema_8d8d9fbdbf80710e [0xc3dd579d38a573e0] r"

section \<open>Lists of log messages\<close>

text \<open>
  What the library documents about a list of structs of 16 bytes and five pointers: \<open>len\<close> elements, all
  valid and zero at first; \<open>Set\<close> copies a struct into one element and leaves the others.
\<close>

definition same_struct :: "'s capnp_lib \<Rightarrow> 's \<Rightarrow> 's \<Rightarrow> bool" where
  "same_struct lib s s' \<longleftrightarrow>
     (\<forall>off. cap_Uint64 lib off s = cap_Uint64 lib off s' \<and> cap_Uint32 lib off s = cap_Uint32 lib off s' \<and>
        cap_Uint16 lib off s = cap_Uint16 lib off s' \<and> cap_Ptr lib off s = cap_Ptr lib off s')"

definition list_laws :: "'s capnp_lib \<Rightarrow> ('s, 'm, 'l, 'p, 'r) capnp_more \<Rightarrow> ('s \<Rightarrow> bool) \<Rightarrow> ('l \<Rightarrow> int) \<Rightarrow> bool" where
  "list_laws lib clib valid len \<longleftrightarrow>
     (\<forall>n l. cap_NewCompositeList clib 16 5 n = (l, None) \<longrightarrow> len l = n \<and>
        (\<forall>i. 0 \<le> i \<and> i < n \<longrightarrow> (\<exists>s. cap_list_Struct clib i l = Inr s \<and> fresh_ok lib valid s))) \<and>
     (\<forall>i v l l'. valid v \<longrightarrow> cap_list_SetStruct clib i v l = Inr (None, l') \<longrightarrow> len l' = len l \<and>
        (\<exists>s. cap_list_Struct clib i l' = Inr s \<and> valid s \<and> same_struct lib s v) \<and>
        (\<forall>j. j \<noteq> i \<longrightarrow> cap_list_Struct clib j l' = cap_list_Struct clib j l))"

lemma same_struct_view: "same_struct lib s s' \<Longrightarrow> read_log lib s = read_log lib s'"
  by (simp add: same_struct_def read_log_def accessors)

text \<open>Every element of a new list reads as an empty log message.\<close>

lemma NewRequestLog_List_view:
  assumes "list_laws lib clib valid len" "NewRequestLog_List clib n = (l, None)" "0 \<le> i" "i < n"
  shows "\<exists>s. RequestLog_List_At clib i l = Inr s \<and> valid s \<and> read_log lib s = new_RequestLog"
proof -
  obtain s where "cap_list_Struct clib i l = Inr s" "fresh_ok lib valid s"
    using assms unfolding list_laws_def NewRequestLog_List_def by blast
  then show ?thesis
    by (auto simp: RequestLog_List_At_def fresh_ok_def read_log_def accessors ptr_Text_def new_RequestLog_def)
qed

text \<open>A message put into a list is read back from its place, and the others are unchanged.\<close>

lemma RequestLog_List_Set_At:
  assumes "list_laws lib clib valid len" "valid v" "RequestLog_List_Set clib i v l = Inr (None, l')"
  shows "\<exists>s. RequestLog_List_At clib i l' = Inr s \<and> read_log lib s = read_log lib v"
    "j \<noteq> i \<Longrightarrow> RequestLog_List_At clib j l' = RequestLog_List_At clib j l"
proof -
  have copied: "(\<exists>s. cap_list_Struct clib i l' = Inr s \<and> valid s \<and> same_struct lib s v) \<and>
      (\<forall>j. j \<noteq> i \<longrightarrow> cap_list_Struct clib j l' = cap_list_Struct clib j l)"
    using assms unfolding list_laws_def RequestLog_List_Set_def by blast
  then obtain s where "cap_list_Struct clib i l' = Inr s" "same_struct lib s v" by blast
  then show "\<exists>s. RequestLog_List_At clib i l' = Inr s \<and> read_log lib s = read_log lib v"
    using same_struct_view [of lib s v] by (simp add: RequestLog_List_At_def)
  show "RequestLog_List_At clib j l' = RequestLog_List_At clib j l" if "j \<noteq> i"
    using copied that by (simp add: RequestLog_List_At_def)
qed

text \<open>The conditions hold for plain lists of structs, given a new struct to fill them with.\<close>

definition plain_lists :: "'s \<Rightarrow> ('s, 's, 's list, 's, unit) capnp_more" where
  "plain_lists fresh = \<lparr>cap_RootStruct = (\<lambda>s. (s, None)), cap_Marshal = (\<lambda>_ _. ([], None)),
     cap_NewCompositeList = (\<lambda>_ _ n. if n < 0 then ([], Some ''negative size'') else (replicate (nat n) fresh, None)),
     cap_list_Struct = (\<lambda>i l. if 0 \<le> i \<and> i < int (length l) then Inr (l ! nat i) else Inl IndexOutOfRange),
     cap_list_SetStruct = (\<lambda>i v l. if 0 \<le> i \<and> i < int (length l) then Inr (None, l[nat i := v]) else Inl IndexOutOfRange),
     cap_MarshalList = (\<lambda>_ _. ([], None)), cap_Pipeline_Struct = (\<lambda>s. (s, None)),
     cap_Register = (\<lambda>_ _ r. r)\<rparr>"

lemma plain_lists_laws:
  assumes "capnp_laws lib valid" "NewRootRequestLog lib = Inr fresh"
  shows "list_laws lib (plain_lists fresh) valid (\<lambda>l. int (length l))"
proof -
  have "fresh_ok lib valid fresh" using assms by (simp add: capnp_laws_def NewRootRequestLog_def)
  then show ?thesis
    by (auto simp: list_laws_def plain_lists_def same_struct_def nat_eq_iff2 split: if_splits)
qed

end
