(* ===== verification/Rate_Limiter.thy ===== *)
theory Rate_Limiter
  imports Redins_Prelude
begin

text \<open>
  \<open>handler/limiter.go\<close>: a leaky bucket per client. The bucket lives in an in-memory cache whose
  entries expire after a minute; the cache and the clock are the fields of \<open>rl_lib\<close>, and
  \<open>cache_laws\<close> states what the cache documents about them.
\<close>

section \<open>Definitions\<close>

record RateLimiterConfig =
  rlc_Enable :: bool
  rlc_Burst :: int
  rlc_Rate :: int
  rlc_WhiteList :: "string list"
  rlc_BlackList :: "string list"

record RateLimiter =
  rl_MaxTime :: int
  rl_TimeStep :: int
  rl_Config :: RateLimiterConfig
  rl_WhiteList :: "string set"
  rl_BlackList :: "string set"

record Limiter =
  lim_Size :: int
  lim_LastUpdate :: int

record 'w rl_lib =
  rll_Now :: "'w \<Rightarrow> int \<times> 'w"
  rll_Get :: "string \<Rightarrow> 'w \<Rightarrow> Limiter option \<times> 'w"
  rll_Set :: "string \<Rightarrow> Limiter \<Rightarrow> int \<Rightarrow> 'w \<Rightarrow> 'w"

definition NewRateLimiter :: "RateLimiterConfig \<Rightarrow> go_panic + RateLimiter" where
  "NewRateLimiter config =
     (if rlc_Rate config = 0 then Inl DivideByZero
      else let step = go_div 60000 (rlc_Rate config) * millisecond
           in Inr \<lparr>rl_MaxTime = step * rlc_Burst config, rl_TimeStep = step,
                   rl_Config = config, rl_WhiteList = set (rlc_WhiteList config),
                   rl_BlackList = set (rlc_BlackList config)\<rparr>)"

text \<open>
  The update of a bucket that was found: \<open>now1\<close> is the clock read by \<open>time.Since\<close>, \<open>now2\<close> the one
  stored.
\<close>

definition limiter_update :: "RateLimiter \<Rightarrow> Limiter \<Rightarrow> int \<Rightarrow> int \<Rightarrow> bool \<times> Limiter" where
  "limiter_update rl l now1 now2 =
     (let size = lim_Size l - (now1 - lim_LastUpdate l);
          size = (if size < 0 then 0 else size)
      in if size > rl_MaxTime rl
         then (False, \<lparr>lim_Size = size, lim_LastUpdate = now2\<rparr>)
         else (True, \<lparr>lim_Size = size + rl_TimeStep rl, lim_LastUpdate = now2\<rparr>))"

definition CanHandle :: "'w rl_lib \<Rightarrow> RateLimiter \<Rightarrow> string \<Rightarrow> ('w, bool) go" where
  "CanHandle lib rl key =
     (if \<not> rlc_Enable (rl_Config rl) then Return True
      else if key \<in> rl_BlackList rl then Return False
      else if key \<in> rl_WhiteList rl then Return True
      else Bind (Extern (rll_Get lib key)) (\<lambda>value.
           case value of
             Some l \<Rightarrow>
               Bind (Extern (rll_Now lib)) (\<lambda>now1.
               Bind (Extern (rll_Now lib)) (\<lambda>now2.
               let (res, l') = limiter_update rl l now1 now2
               in Seq (Modify (rll_Set lib key l' minute)) (Return res)))
           | None \<Rightarrow>
               Bind (Extern (rll_Now lib)) (\<lambda>now.
               Seq (Modify (rll_Set lib key
                      \<lparr>lim_Size = rl_TimeStep rl, lim_LastUpdate = now\<rparr> minute))
                   (Return True))))"

section \<open>The contract of the cache and the clock\<close>

text \<open>
  \<open>entry w key\<close> is the stored bucket with its expiry, \<open>clock w\<close> the time. A \<open>Get\<close> returns the bucket
  unless it has expired, a \<open>Set\<close> stores it for the given duration, reading the clock gives a time
  within the call, and time does not run backwards.
\<close>

definition cache_laws ::
  "'w rl_lib \<Rightarrow> ('w \<Rightarrow> string \<Rightarrow> (Limiter \<times> int) option) \<Rightarrow> ('w \<Rightarrow> int) \<Rightarrow> bool" where
  "cache_laws lib entry clock \<longleftrightarrow>
     (\<forall>w. case rll_Now lib w of (now, w') \<Rightarrow>
        clock w \<le> now \<and> now \<le> clock w' \<and> entry w' = entry w) \<and>
     (\<forall>w key. case rll_Get lib key w of (r, w') \<Rightarrow>
        clock w \<le> clock w' \<and> entry w' = entry w \<and>
        (case entry w key of
           None \<Rightarrow> r = None
         | Some (l, expiry) \<Rightarrow> r = Some l \<or> r = None \<and> expiry < clock w')) \<and>
     (\<forall>w key l d. case rll_Set lib key l d w of w' \<Rightarrow>
        clock w \<le> clock w' \<and>
        (\<exists>t. clock w \<le> t \<and> entry w' = (entry w)(key \<mapsto> (l, t + d))))"

text \<open>
  What may happen to a key between two requests: time passes, and the cache may drop an expired
  entry.
\<close>

definition idle_ok ::
  "('w \<Rightarrow> string \<Rightarrow> (Limiter \<times> int) option) \<Rightarrow> ('w \<Rightarrow> int) \<Rightarrow> string \<Rightarrow> ('w \<Rightarrow> 'w) \<Rightarrow> bool" where
  "idle_ok entry clock key env \<longleftrightarrow>
     (\<forall>w. clock w \<le> clock (env w) \<and>
          (entry (env w) key = entry w key \<or>
           entry (env w) key = None \<and>
             (\<exists>l expiry. entry w key = Some (l, expiry) \<and> expiry < clock (env w))))"

text \<open>A run of requests by one client, each after an idle step; the number of accepted ones.\<close>

primrec serve ::
  "'w rl_lib \<Rightarrow> RateLimiter \<Rightarrow> string \<Rightarrow> ('w \<Rightarrow> 'w) list \<Rightarrow> nat \<Rightarrow> ('w, nat) go" where
  "serve lib rl key [] n = Return n"
| "serve lib rl key (env # envs) n =
     Seq (Modify env) (Bind (CanHandle lib rl key) (\<lambda>ok.
       serve lib rl key envs (if ok then Suc n else n)))"

section \<open>The accounting invariant\<close>

text \<open>
  Since time \<open>t0\<close>, \<open>n\<close> requests were accepted: the time steps they took are still in the bucket or
  have run out since.
\<close>

definition bucket_inv ::
  "RateLimiter \<Rightarrow> ('w \<Rightarrow> string \<Rightarrow> (Limiter \<times> int) option) \<Rightarrow> ('w \<Rightarrow> int) \<Rightarrow> string \<Rightarrow>
     int \<Rightarrow> nat \<Rightarrow> 'w \<Rightarrow> bool" where
  "bucket_inv rl entry clock key t0 n w \<longleftrightarrow>
     t0 \<le> clock w \<and>
     (case entry w key of
        None \<Rightarrow> int n * rl_TimeStep rl \<le> clock w - t0
      | Some (l, expiry) \<Rightarrow>
          0 \<le> lim_Size l \<and> lim_Size l \<le> rl_MaxTime rl + rl_TimeStep rl \<and>
          lim_LastUpdate l \<le> clock w \<and> lim_LastUpdate l + minute \<le> expiry \<and>
          (n = 0 \<or> t0 \<le> lim_LastUpdate l \<and>
                   int n * rl_TimeStep rl \<le> lim_Size l + (lim_LastUpdate l - t0)))"

text \<open>A limiter whose buckets run dry within the life of a cache entry.\<close>

definition rl_wf :: "RateLimiter \<Rightarrow> bool" where
  "rl_wf rl \<longleftrightarrow> rlc_Enable (rl_Config rl) \<and> 0 \<le> rl_TimeStep rl \<and> 0 \<le> rl_MaxTime rl \<and>
     rl_MaxTime rl + rl_TimeStep rl \<le> minute"

lemma limiter_update_inv:
  assumes "limiter_update rl l now1 now2 = (ok, l')"
    and "lim_LastUpdate l \<le> now1" "now1 \<le> now2" "0 \<le> rl_TimeStep rl" "0 \<le> rl_MaxTime rl"
    and "0 \<le> lim_Size l" "lim_Size l \<le> rl_MaxTime rl + rl_TimeStep rl"
    and "n = 0 \<or> t0 \<le> lim_LastUpdate l \<and>
           int n * rl_TimeStep rl \<le> lim_Size l + (lim_LastUpdate l - t0)"
    and "t0 \<le> now1"
  shows "lim_LastUpdate l' = now2 \<and> 0 \<le> lim_Size l' \<and>
         lim_Size l' \<le> rl_MaxTime rl + rl_TimeStep rl \<and>
         int (if ok then Suc n else n) * rl_TimeStep rl \<le> lim_Size l' + (now2 - t0)"
proof -
  have "int n * rl_TimeStep rl \<le> max 0 (lim_Size l - (now1 - lim_LastUpdate l)) + (now2 - t0)"
    using assms(2,3,8,9) by auto
  then show ?thesis
    using assms(1-7) by (auto simp: limiter_update_def Let_def distrib_right split: if_splits)
qed

lemma bucket_inv_idle:
  assumes "rl_wf rl" "idle_ok entry clock key env" "bucket_inv rl entry clock key t0 n w"
  shows "bucket_inv rl entry clock key t0 n (env w)"
proof -
  have mono: "clock w \<le> clock (env w)" using assms(2) by (simp add: idle_ok_def)
  consider "entry (env w) key = entry w key"
    | l expiry where "entry (env w) key = None" "entry w key = Some (l, expiry)"
        "expiry < clock (env w)"
    using assms(2) unfolding idle_ok_def by blast
  then show ?thesis
  proof cases
    case 1
    then show ?thesis using assms(3) mono
      by (auto simp: bucket_inv_def split: option.splits)
  next
    case (2 l expiry)
    then show ?thesis using assms(1,3) mono
      by (auto simp: bucket_inv_def rl_wf_def)
  qed
qed

text \<open>The laws, one call at a time.\<close>

lemma cache_Now:
  "cache_laws lib entry clock \<Longrightarrow> rll_Now lib w = (now, w') \<Longrightarrow>
     clock w \<le> now \<and> now \<le> clock w' \<and> entry w' = entry w"
  unfolding cache_laws_def by (drule conjunct1, drule spec [of _ w]) simp

lemma cache_Get:
  "cache_laws lib entry clock \<Longrightarrow> rll_Get lib key w = (r, w') \<Longrightarrow>
     clock w \<le> clock w' \<and> entry w' = entry w \<and>
     (case entry w key of
        None \<Rightarrow> r = None
      | Some (l, expiry) \<Rightarrow> r = Some l \<or> r = None \<and> expiry < clock w')"
  unfolding cache_laws_def
  by (drule conjunct2, drule conjunct1, drule spec [of _ w], drule spec [of _ key]) simp

lemma cache_Set:
  "cache_laws lib entry clock \<Longrightarrow>
     clock w \<le> clock (rll_Set lib key l d w) \<and>
     (\<exists>t. clock w \<le> t \<and> entry (rll_Set lib key l d w) = (entry w)(key \<mapsto> (l, t + d)))"
  unfolding cache_laws_def by (drule conjunct2, drule conjunct2) simp

text \<open>A bucket that is not found took in no more than what has run out since.\<close>

lemma bucket_inv_missing:
  assumes "rl_wf rl" "cache_laws lib entry clock" "bucket_inv rl entry clock key t0 n w"
    and "rll_Get lib key w = (None, w1)"
  shows "t0 \<le> clock w1 \<and> int n * rl_TimeStep rl \<le> clock w1 - t0"
  using cache_Get [OF assms(2,4)] assms(1,3)
  by (auto simp: bucket_inv_def rl_wf_def split: option.splits)

lemma bucket_inv_Set:
  assumes "cache_laws lib entry clock" "t0 \<le> now" "now \<le> clock w"
    and "lim_LastUpdate l = now" "0 \<le> lim_Size l" "lim_Size l \<le> rl_MaxTime rl + rl_TimeStep rl"
    and "int n * rl_TimeStep rl \<le> lim_Size l + (now - t0)"
  shows "bucket_inv rl entry clock key t0 n (rll_Set lib key l minute w)"
  using cache_Set [OF assms(1), of w key l minute] assms(2-)
  by (auto simp: bucket_inv_def)

lemma bucket_inv_CanHandle:
  assumes wf: "rl_wf rl" and laws: "cache_laws lib entry clock"
    and key: "key \<notin> rl_BlackList rl" "key \<notin> rl_WhiteList rl"
    and inv: "bucket_inv rl entry clock key t0 n w"
  shows "wp NoPanic (CanHandle lib rl key)
           (\<lambda>ok. bucket_inv rl entry clock key t0 (if ok then Suc n else n)) w"
proof -
  obtain r w1 where get: "rll_Get lib key w = (r, w1)" by fastforce
  obtain now1 w2 where now1: "rll_Now lib w1 = (now1, w2)" by fastforce
  obtain now2 w3 where now2: "rll_Now lib w2 = (now2, w3)" by fastforce
  note t1 = cache_Now [OF laws now1] and t2 = cache_Now [OF laws now2]
    and g = cache_Get [OF laws get]
  have TS: "0 \<le> rl_TimeStep rl" "0 \<le> rl_MaxTime rl" using wf by (auto simp: rl_wf_def)
  show ?thesis
  proof (cases r)
    case None
    with get have "t0 \<le> clock w1 \<and> int n * rl_TimeStep rl \<le> clock w1 - t0"
      using bucket_inv_missing [OF wf laws inv] by simp
    then have "bucket_inv rl entry clock key t0 (Suc n)
        (rll_Set lib key \<lparr>lim_Size = rl_TimeStep rl, lim_LastUpdate = now1\<rparr> minute w2)"
      using t1 TS by (intro bucket_inv_Set [OF laws, where now = now1]) (auto simp: distrib_right)
    with None get now1 wf key show ?thesis
      by (simp add: CanHandle_def wp_rules rl_wf_def)
  next
    case (Some l)
    with g obtain expiry where "entry w key = Some (l, expiry)"
      by (auto split: option.splits)
    with inv have l: "t0 \<le> clock w" "0 \<le> lim_Size l" "lim_LastUpdate l \<le> clock w"
      "lim_Size l \<le> rl_MaxTime rl + rl_TimeStep rl"
      "n = 0 \<or> t0 \<le> lim_LastUpdate l \<and>
         int n * rl_TimeStep rl \<le> lim_Size l + (lim_LastUpdate l - t0)"
      by (auto simp: bucket_inv_def)
    obtain ok l' where upd: "limiter_update rl l now1 now2 = (ok, l')" by fastforce
    have le: "clock w \<le> now1" "now1 \<le> now2" "now2 \<le> clock w3" using g t1 t2 by auto
    have "lim_LastUpdate l \<le> now1" "t0 \<le> now1" "t0 \<le> now2" using le l(1,3) by auto
    note new = limiter_update_inv [OF upd this(1) le(2) TS l(2,4,5) this(2)]
    have "bucket_inv rl entry clock key t0 (if ok then Suc n else n)
        (rll_Set lib key l' minute w3)"
      by (rule bucket_inv_Set [OF laws \<open>t0 \<le> now2\<close> le(3)]) (use new in blast)+
    with Some get now1 now2 upd wf key show ?thesis
      by (simp add: CanHandle_def wp_rules rl_wf_def)
  qed
qed

lemma serve_bound:
  assumes "rl_wf rl" "cache_laws lib entry clock"
    and "key \<notin> rl_BlackList rl" "key \<notin> rl_WhiteList rl"
    and "\<forall>env \<in> set envs. idle_ok entry clock key env"
    and "bucket_inv rl entry clock key t0 n w"
  shows "wp NoPanic (serve lib rl key envs n) (bucket_inv rl entry clock key t0) w"
  using assms(5,6)
proof (induction envs arbitrary: n w)
  case Nil
  then show ?case by (simp add: wp_rules)
next
  case (Cons env envs)
  have "bucket_inv rl entry clock key t0 n (env w)"
    by (rule bucket_inv_idle [OF assms(1)]) (use Cons.prems in simp_all)
  then have "wp NoPanic (CanHandle lib rl key)
      (\<lambda>ok. bucket_inv rl entry clock key t0 (if ok then Suc n else n)) (env w)"
    by (rule bucket_inv_CanHandle [OF assms(1-4)])
  moreover have "\<And>n w. bucket_inv rl entry clock key t0 n w \<Longrightarrow>
      wp NoPanic (serve lib rl key envs n) (bucket_inv rl entry clock key t0) w"
    using Cons by simp
  ultimately show ?case by (simp add: wp_rules, elim wp_strengthen) simp
qed

lemma bucket_inv_bound:
  "rl_wf rl \<Longrightarrow> bucket_inv rl entry clock key t0 n w \<Longrightarrow>
     int n * rl_TimeStep rl \<le> rl_MaxTime rl + rl_TimeStep rl + (clock w - t0)"
  by (auto simp: bucket_inv_def rl_wf_def split: option.splits)

section \<open>The burst a client may send\<close>

text \<open>Before the request with number \<open>j\<close> of a run the bucket holds at most \<open>j\<close> time steps.\<close>

definition burst_inv ::
  "RateLimiter \<Rightarrow> ('w \<Rightarrow> string \<Rightarrow> (Limiter \<times> int) option) \<Rightarrow> ('w \<Rightarrow> int) \<Rightarrow> string \<Rightarrow>
     nat \<Rightarrow> 'w \<Rightarrow> bool" where
  "burst_inv rl entry clock key j w \<longleftrightarrow>
     (case entry w key of
        None \<Rightarrow> True
      | Some (l, _) \<Rightarrow> lim_Size l \<le> int j * rl_TimeStep rl \<and> lim_LastUpdate l \<le> clock w)"

lemma burst_inv_idle:
  "idle_ok entry clock key env \<Longrightarrow> burst_inv rl entry clock key j w \<Longrightarrow>
     burst_inv rl entry clock key j (env w)"
  unfolding idle_ok_def burst_inv_def by (drule spec [of _ w]) (auto split: option.splits)

lemma burst_inv_Set:
  assumes "cache_laws lib entry clock" "lim_Size l \<le> int j * rl_TimeStep rl"
    "lim_LastUpdate l \<le> clock w"
  shows "burst_inv rl entry clock key j (rll_Set lib key l d w)"
  using cache_Set [OF assms(1), of w key l d] assms(2,3) by (auto simp: burst_inv_def)

lemma burst_CanHandle:
  assumes laws: "cache_laws lib entry clock" and key: "key \<notin> rl_BlackList rl"
    and step: "0 \<le> rl_TimeStep rl" "int j * rl_TimeStep rl \<le> rl_MaxTime rl" "0 \<le> rl_MaxTime rl"
    and inv: "burst_inv rl entry clock key j w"
  shows "wp NoPanic (CanHandle lib rl key)
           (\<lambda>ok w'. ok \<and> burst_inv rl entry clock key (Suc j) w') w"
proof -
  obtain r w1 where get: "rll_Get lib key w = (r, w1)" by fastforce
  obtain now1 w2 where now1: "rll_Now lib w1 = (now1, w2)" by fastforce
  obtain now2 w3 where now2: "rll_Now lib w2 = (now2, w3)" by fastforce
  note t1 = cache_Now [OF laws now1] and t2 = cache_Now [OF laws now2]
    and g = cache_Get [OF laws get]
  have grow: "burst_inv rl entry clock key (Suc j) w"
    using inv step(1) by (auto simp: burst_inv_def distrib_right split: option.splits)
  show ?thesis
  proof (cases r)
    case None
    have "burst_inv rl entry clock key (Suc j)
        (rll_Set lib key \<lparr>lim_Size = rl_TimeStep rl, lim_LastUpdate = now1\<rparr> minute w2)"
      using t1 step(1) by (intro burst_inv_Set [OF laws]) (auto simp: distrib_right)
    with None get now1 key grow show ?thesis by (simp add: CanHandle_def wp_rules)
  next
    case (Some l)
    with g inv have l: "lim_Size l \<le> int j * rl_TimeStep rl" "lim_LastUpdate l \<le> clock w"
      by (auto simp: burst_inv_def split: option.splits)
    let ?size = "if lim_Size l - (now1 - lim_LastUpdate l) < 0 then 0
      else lim_Size l - (now1 - lim_LastUpdate l)"
    let ?l' = "\<lparr>lim_Size = ?size + rl_TimeStep rl, lim_LastUpdate = now2\<rparr>"
    have size: "?size \<le> int j * rl_TimeStep rl" using l step(1) g t1 by auto
    then have "\<not> ?size > rl_MaxTime rl" using step(2) by linarith
    then have "limiter_update rl l now1 now2 = (True, ?l')"
      by (simp only: limiter_update_def Let_def if_False)
    then obtain l' where upd: "limiter_update rl l now1 now2 = (True, l')" "lim_LastUpdate l' = now2"
      "lim_Size l' \<le> int (Suc j) * rl_TimeStep rl"
      using size by (simp add: distrib_right)
    then have "burst_inv rl entry clock key (Suc j) (rll_Set lib key l' minute w3)"
      using t2 by (intro burst_inv_Set [OF laws]) auto
    with Some get now1 now2 upd key grow show ?thesis by (simp add: CanHandle_def wp_rules)
  qed
qed

lemma serve_burst:
  assumes laws: "cache_laws lib entry clock" and key: "key \<notin> rl_BlackList rl"
    and "0 \<le> rl_TimeStep rl" "0 \<le> rl_MaxTime rl"
    and "\<forall>env \<in> set envs. idle_ok entry clock key env"
    and "int (j + length envs) * rl_TimeStep rl \<le> rl_MaxTime rl + rl_TimeStep rl"
    and "burst_inv rl entry clock key j w"
  shows "wp NoPanic (serve lib rl key envs n) (\<lambda>m _. m = n + length envs) w"
  using assms(5-)
proof (induction envs arbitrary: j n w)
  case (Cons env envs)
  have "int j * rl_TimeStep rl \<le> int (j + length envs) * rl_TimeStep rl"
    using assms(3) by (intro mult_right_mono) auto
  moreover have "int (j + length envs) * rl_TimeStep rl \<le> rl_MaxTime rl"
    using Cons.prems(2) by (simp add: distrib_right)
  ultimately have le: "int j * rl_TimeStep rl \<le> rl_MaxTime rl" by linarith
  have "burst_inv rl entry clock key j (env w)"
    by (rule burst_inv_idle) (use Cons.prems in simp_all)
  then have "wp NoPanic (CanHandle lib rl key)
      (\<lambda>ok w'. ok \<and> burst_inv rl entry clock key (Suc j) w') (env w)"
    by (rule burst_CanHandle [OF laws key assms(3) le assms(4)])
  moreover have "burst_inv rl entry clock key (Suc j) w \<Longrightarrow>
      wp NoPanic (serve lib rl key envs (Suc n)) (\<lambda>m _. m = Suc n + length envs) w" for w
    by (rule Cons.IH [of "Suc j"]) (use Cons.prems in auto)
  ultimately show ?case by (simp add: wp_rules, elim wp_strengthen) auto
qed (simp add: wp_rules)

lemma NewRateLimiter_steps:
  assumes "NewRateLimiter config = Inr rl" "0 < rlc_Rate config"
  shows "rl_TimeStep rl = (60000 div rlc_Rate config) * millisecond"
    "rl_MaxTime rl = rl_TimeStep rl * rlc_Burst config" "rl_Config rl = config"
    "rl_BlackList rl = set (rlc_BlackList config)" "rl_WhiteList rl = set (rlc_WhiteList config)"
    "0 \<le> rl_TimeStep rl"
  using assms
  by (auto simp: NewRateLimiter_def Let_def go_div_pos durations pos_imp_zdiv_nonneg_iff
      split: if_splits)

section \<open>Properties\<close>

text \<open>
  C13. The rate limit holds: over any run of requests of a client without a bucket, with idle times
  between them, the number accepted is at most the burst plus one plus the elapsed time divided by
  the time step, provided a full bucket runs dry within the minute the cache keeps it.
\<close>

theorem rate_limit_holds:
  assumes "NewRateLimiter config = Inr rl" "rlc_Enable config" "0 < rlc_Rate config"
    and "0 \<le> rlc_Burst config" "(rlc_Burst config + 1) * (60000 div rlc_Rate config) \<le> 60000"
    and "cache_laws lib entry clock"
    and "key \<notin> set (rlc_BlackList config)" "key \<notin> set (rlc_WhiteList config)"
    and "\<forall>env \<in> set envs. idle_ok entry clock key env" "entry w key = None"
  shows "\<exists>n w'. serve lib rl key envs 0 w = Inr (n, w') \<and>
           int n * rl_TimeStep rl \<le> (rlc_Burst config + 1) * rl_TimeStep rl + (clock w' - clock w)"
proof -
  note rl = NewRateLimiter_steps [OF assms(1,3)]
  have "rl_wf rl"
    using assms(2-5) rl by (auto simp: rl_wf_def durations distrib_right mult.commute)
  moreover have "bucket_inv rl entry clock key (clock w) 0 w"
    using assms(10) by (simp add: bucket_inv_def)
  ultimately obtain n w' where n: "serve lib rl key envs 0 w = Inr (n, w')"
    "bucket_inv rl entry clock key (clock w) n w'"
    using serve_bound [OF _ assms(6) _ _ assms(9)] assms(7,8) rl(4,5) wp_NoPanicD by metis
  with bucket_inv_bound [OF \<open>rl_wf rl\<close> n(2)] rl(2) show ?thesis
    by (auto simp: algebra_simps)
qed

text \<open>A clock that stands still and a cache that forgets nothing, for examples.\<close>

definition example_rl_lib :: "(int \<times> (string \<Rightarrow> (Limiter \<times> int) option)) rl_lib" where
  "example_rl_lib = \<lparr>rll_Now = (\<lambda>w. (fst w, w)),
     rll_Get = (\<lambda>k w. (map_option fst (snd w k), w)),
     rll_Set = (\<lambda>k l d w. (fst w, (snd w)(k \<mapsto> (l, fst w + d))))\<rparr>"

definition example_rl_config :: RateLimiterConfig where
  "example_rl_config = \<lparr>rlc_Enable = True, rlc_Burst = 10, rlc_Rate = 60, rlc_WhiteList = [],
     rlc_BlackList = []\<rparr>"

lemma example_cache_laws: "cache_laws example_rl_lib snd fst"
  by (auto simp: cache_laws_def example_rl_lib_def split: option.splits)

lemma example_idle: "idle_ok snd fst key (\<lambda>w. w)"
  by (simp add: idle_ok_def)

theorem rate_limit_holds_witness:
  "\<exists>rl n w'. NewRateLimiter example_rl_config = Inr rl \<and>
     serve example_rl_lib rl ''1.2.3.4'' (replicate 100 (\<lambda>w. w)) 0 (0, Map.empty) = Inr (n, w') \<and>
     int n * rl_TimeStep rl \<le> 11 * rl_TimeStep rl + fst w'"
proof -
  obtain rl where rl: "NewRateLimiter example_rl_config = Inr rl"
    by (simp add: NewRateLimiter_def example_rl_config_def Let_def)
  then show ?thesis
    using rate_limit_holds [OF rl, of example_rl_lib snd fst "''1.2.3.4''" "replicate 100 (\<lambda>w. w)"
        "(0, Map.empty)"] example_cache_laws example_idle
    by (simp add: example_rl_config_def)
qed

text \<open>
  The limiter serves a burst: a client without a bucket that is not on the black list gets its
  first burst-plus-one requests accepted, however short the pauses between them are.
\<close>

theorem burst_is_served:
  assumes "NewRateLimiter config = Inr rl" "0 < rlc_Rate config" "0 \<le> rlc_Burst config"
    and "cache_laws lib entry clock" "key \<notin> set (rlc_BlackList config)"
    and "\<forall>env \<in> set envs. idle_ok entry clock key env" "entry w key = None"
    and "int (length envs) \<le> rlc_Burst config + 1"
  shows "\<exists>w'. serve lib rl key envs 0 w = Inr (length envs, w')"
proof -
  note rl = NewRateLimiter_steps [OF assms(1,2)]
  have "int (0 + length envs) * rl_TimeStep rl \<le> (rlc_Burst config + 1) * rl_TimeStep rl"
    using assms(8) rl(6) by (intro mult_right_mono) auto
  then have "int (0 + length envs) * rl_TimeStep rl \<le> rl_MaxTime rl + rl_TimeStep rl"
    by (simp add: rl(2) algebra_simps)
  moreover have "0 \<le> rl_MaxTime rl" using rl(2,6) assms(3) by simp
  ultimately have "wp NoPanic (serve lib rl key envs 0) (\<lambda>m _. m = 0 + length envs) w"
    using assms(5,7) rl(4,6)
    by (intro serve_burst [OF assms(4) _ _ _ assms(6), where j = 0]) (auto simp: burst_inv_def)
  then show ?thesis by (auto dest: wp_NoPanicD)
qed

theorem burst_is_served_witness:
  "\<exists>rl w'. NewRateLimiter example_rl_config = Inr rl \<and>
     serve example_rl_lib rl ''1.2.3.4'' (replicate 11 (\<lambda>w. w)) 0 (0, Map.empty) = Inr (11, w')"
proof -
  obtain rl where rl: "NewRateLimiter example_rl_config = Inr rl"
    by (simp add: NewRateLimiter_def example_rl_config_def Let_def)
  then show ?thesis
    using burst_is_served [OF rl, of example_rl_lib snd fst "''1.2.3.4''" "replicate 11 (\<lambda>w. w)"
        "(0, Map.empty)"] example_cache_laws example_idle
    by (simp add: example_rl_config_def)
qed


section \<open>The abstract limiter\<close>

text \<open>
  The specification is the generic cell rate algorithm: the only state is the time \<open>free\<close> at which
  everything accepted so far is worked off. A request is accepted when that lies at most \<open>MaxTime\<close>
  ahead, and moves it by one time step; nothing is ever forgotten.
\<close>

definition gcra :: "RateLimiter \<Rightarrow> int \<Rightarrow> int \<Rightarrow> bool \<times> int" where
  "gcra rl now free =
     (if free - now \<le> rl_MaxTime rl then (True, max free now + rl_TimeStep rl) else (False, free))"

primrec gcra_run :: "RateLimiter \<Rightarrow> int \<Rightarrow> int list \<Rightarrow> bool list" where
  "gcra_run rl free [] = []"
| "gcra_run rl free (now # ts) =
     (let (ok, free') = gcra rl now free in ok # gcra_run rl free' ts)"

text \<open>A run of requests of one client: when each arrived and what was decided.\<close>

primrec decisions ::
  "'w rl_lib \<Rightarrow> RateLimiter \<Rightarrow> ('w \<Rightarrow> int) \<Rightarrow> string \<Rightarrow> ('w \<Rightarrow> 'w) list \<Rightarrow> ('w, (int \<times> bool) list) go" where
  "decisions lib rl clock key [] = Return []"
| "decisions lib rl clock key (env # envs) =
     Seq (Modify env) (Bind (Gets clock) (\<lambda>now. Bind (CanHandle lib rl key) (\<lambda>ok.
       Bind (decisions lib rl clock key envs) (\<lambda>rest. Return ((now, ok) # rest)))))"

text \<open>Time passes between requests, not while one is decided.\<close>

definition steady :: "'w rl_lib \<Rightarrow> ('w \<Rightarrow> int) \<Rightarrow> bool" where
  "steady lib clock \<longleftrightarrow>
     (\<forall>w. clock (snd (rll_Now lib w)) = clock w) \<and>
     (\<forall>w key. clock (snd (rll_Get lib key w)) = clock w) \<and>
     (\<forall>w key l d. clock (rll_Set lib key l d w) = clock w)"

text \<open>
  The simulation relation: a bucket stands for the time it will be empty, no bucket for one that is
  empty now.
\<close>

definition bucket_rel ::
  "RateLimiter \<Rightarrow> ('w \<Rightarrow> string \<Rightarrow> (Limiter \<times> int) option) \<Rightarrow> ('w \<Rightarrow> int) \<Rightarrow> string \<Rightarrow> int \<Rightarrow> 'w \<Rightarrow> bool" where
  "bucket_rel rl entry clock key free w \<longleftrightarrow>
     (case entry w key of
        None \<Rightarrow> free \<le> clock w
      | Some (l, expiry) \<Rightarrow>
          max free (clock w) = max (lim_LastUpdate l + lim_Size l) (clock w) \<and>
          lim_LastUpdate l \<le> clock w \<and> 0 \<le> lim_Size l \<and>
          lim_Size l \<le> rl_MaxTime rl + rl_TimeStep rl \<and> lim_LastUpdate l + minute \<le> expiry)"

lemma bucket_rel_idle:
  assumes "rl_wf rl" "idle_ok entry clock key env" "bucket_rel rl entry clock key free w"
  shows "bucket_rel rl entry clock key free (env w)"
proof -
  have mono: "clock w \<le> clock (env w)" using assms(2) by (simp add: idle_ok_def)
  consider "entry (env w) key = entry w key"
    | l expiry where "entry (env w) key = None" "entry w key = Some (l, expiry)"
        "expiry < clock (env w)"
    using assms(2) unfolding idle_ok_def by blast
  then show ?thesis
  proof cases
    case 1
    then show ?thesis using assms(3) mono
      by (auto simp: bucket_rel_def max_def split: option.splits if_splits)
  next
    case (2 l expiry)
    then show ?thesis using assms(1,3) mono
      by (auto simp: bucket_rel_def rl_wf_def max_def split: if_splits)
  qed
qed

text \<open>A found bucket is updated the way the specification moves its time.\<close>

lemma limiter_update_gcra:
  assumes "max free now = max (lim_LastUpdate l + lim_Size l) now" "lim_LastUpdate l \<le> now"
    and "0 \<le> lim_Size l" "lim_Size l \<le> rl_MaxTime rl + rl_TimeStep rl"
    and "0 \<le> rl_TimeStep rl" "0 \<le> rl_MaxTime rl"
  shows "\<exists>l'. limiter_update rl l now now = (fst (gcra rl now free), l') \<and> lim_LastUpdate l' = now \<and>
    0 \<le> lim_Size l' \<and> lim_Size l' \<le> rl_MaxTime rl + rl_TimeStep rl \<and>
    max (snd (gcra rl now free)) now = now + lim_Size l'"
  using assms by (auto simp: limiter_update_def gcra_def Let_def max_def split: if_splits)

lemma bucket_rel_Set:
  assumes "cache_laws lib entry clock" "steady lib clock" "lim_LastUpdate l = clock w"
    and "0 \<le> lim_Size l" "lim_Size l \<le> rl_MaxTime rl + rl_TimeStep rl"
    and "max free (clock w) = clock w + lim_Size l"
  shows "bucket_rel rl entry clock key free (rll_Set lib key l minute w)"
proof -
  have "clock (rll_Set lib key l minute w) = clock w" using assms(2) by (simp add: steady_def)
  moreover obtain t where "clock w \<le> t" "entry (rll_Set lib key l minute w) = (entry w)(key \<mapsto> (l, t + minute))"
    using cache_Set [OF assms(1), of w key l minute] by blast
  ultimately show ?thesis using assms(3-6) by (simp add: bucket_rel_def)
qed

lemma CanHandle_gcra:
  assumes wf: "rl_wf rl" and laws: "cache_laws lib entry clock" and steady: "steady lib clock"
    and key: "key \<notin> rl_BlackList rl" "key \<notin> rl_WhiteList rl"
    and rel: "bucket_rel rl entry clock key free w"
  shows "wp NoPanic (CanHandle lib rl key)
           (\<lambda>ok w'. ok = fst (gcra rl (clock w) free) \<and>
              bucket_rel rl entry clock key (snd (gcra rl (clock w) free)) w') w"
proof -
  obtain r w1 where get: "rll_Get lib key w = (r, w1)" by fastforce
  obtain now1 w2 where now1: "rll_Now lib w1 = (now1, w2)" by fastforce
  obtain now2 w3 where now2: "rll_Now lib w2 = (now2, w3)" by fastforce
  have clocks: "clock w1 = clock w" "clock w2 = clock w" "clock w3 = clock w"
    using steady get now1 now2 unfolding steady_def by (metis snd_conv)+
  have nows: "now1 = clock w" "now2 = clock w"
    using cache_Now [OF laws now1] cache_Now [OF laws now2] clocks by auto
  note g = cache_Get [OF laws get]
  have TS: "0 \<le> rl_TimeStep rl" "0 \<le> rl_MaxTime rl" using wf by (auto simp: rl_wf_def)
  show ?thesis
  proof (cases r)
    case None
    with g rel wf clocks have "free \<le> clock w"
      by (auto simp: bucket_rel_def rl_wf_def max_def split: option.splits if_splits)
    then have spec: "gcra rl (clock w) free = (True, clock w + rl_TimeStep rl)"
      using TS by (simp add: gcra_def)
    have "bucket_rel rl entry clock key (clock w + rl_TimeStep rl)
        (rll_Set lib key \<lparr>lim_Size = rl_TimeStep rl, lim_LastUpdate = now1\<rparr> minute w2)"
      using TS nows clocks by (intro bucket_rel_Set [OF laws steady]) auto
    with None get now1 wf key spec show ?thesis by (simp add: CanHandle_def wp_rules rl_wf_def)
  next
    case (Some l)
    with g obtain expiry where "entry w key = Some (l, expiry)" by (auto split: option.splits)
    with rel have l: "max free (clock w) = max (lim_LastUpdate l + lim_Size l) (clock w)"
      "lim_LastUpdate l \<le> clock w" "0 \<le> lim_Size l" "lim_Size l \<le> rl_MaxTime rl + rl_TimeStep rl"
      by (simp_all add: bucket_rel_def)
    from limiter_update_gcra [OF this TS] obtain l' where
      upd: "limiter_update rl l (clock w) (clock w) = (fst (gcra rl (clock w) free), l')" and
      l': "lim_LastUpdate l' = clock w3" "0 \<le> lim_Size l'" "lim_Size l' \<le> rl_MaxTime rl + rl_TimeStep rl"
        "max (snd (gcra rl (clock w) free)) (clock w3) = clock w3 + lim_Size l'"
      using clocks by auto
    have "bucket_rel rl entry clock key (snd (gcra rl (clock w) free)) (rll_Set lib key l' minute w3)"
      by (rule bucket_rel_Set [OF laws steady l'])
    with Some get now1 now2 nows upd wf key show ?thesis
      by (simp add: CanHandle_def wp_rules rl_wf_def)
  qed
qed

lemma decisions_gcra:
  assumes "rl_wf rl" "cache_laws lib entry clock" "steady lib clock"
    and "key \<notin> rl_BlackList rl" "key \<notin> rl_WhiteList rl"
    and "\<forall>env \<in> set envs. idle_ok entry clock key env" "bucket_rel rl entry clock key free w"
  shows "wp NoPanic (decisions lib rl clock key envs)
           (\<lambda>trace _. length trace = length envs \<and> map snd trace = gcra_run rl free (map fst trace)) w"
  using assms(6,7)
proof (induction envs arbitrary: free w)
  case (Cons env envs)
  let ?g = "gcra rl (clock (env w)) free"
  have "bucket_rel rl entry clock key free (env w)"
    by (rule bucket_rel_idle [OF assms(1)]) (use Cons.prems in simp_all)
  then have "wp NoPanic (CanHandle lib rl key)
      (\<lambda>ok w'. ok = fst ?g \<and> bucket_rel rl entry clock key (snd ?g) w') (env w)"
    by (rule CanHandle_gcra [OF assms(1-5)])
  moreover have "wp NoPanic (decisions lib rl clock key envs)
      (\<lambda>rest. wp NoPanic (Return ((clock (env w), fst ?g) # rest))
         (\<lambda>trace _. length trace = length (env # envs) \<and>
            map snd trace = gcra_run rl free (map fst trace))) w'"
    if "bucket_rel rl entry clock key (snd ?g) w'" for w'
    by (rule wp_strengthen [OF Cons.IH]) (use Cons.prems that in \<open>auto simp: wp_rules split_beta\<close>)
  ultimately show ?case
    by (simp add: wp_rules, elim wp_strengthen) (auto simp: wp_rules split_beta)
qed (simp add: wp_rules)



end
