(* ===== verification/Redins_Server.thy ===== *)
theory Redins_Server
  imports Handler Rate_Limiter Log_Format
begin

text \<open>
  \<open>handler/server.go\<close>, the listeners built from the configuration, and \<open>handleRequest\<close> of
  \<open>redins.go\<close>, which the DNS library calls for every message: the rate limiter decides whether the
  handler answers or the client is refused.
\<close>

section \<open>Listeners\<close>

record TlsConfig =
  tlsc_Enable :: bool
  tlsc_CertPath :: string
  tlsc_KeyPath :: string
  tlsc_CaPath :: string

record ServerConfig =
  sc_Ip :: string
  sc_Port :: int
  sc_Protocol :: string
  sc_Count :: int
  sc_Tls :: TlsConfig

text \<open>Certificate pools and key pairs are opaque values of the TLS library.\<close>

record tls_Config =
  tls_Certificates :: "nat list"
  tls_RootCAs :: "nat option"

record dns_Server =
  srv_Addr :: string
  srv_Net :: string
  srv_ReusePort :: bool
  srv_TLSConfig :: "tls_Config option"

record tls_lib =
  tl_ReadFile :: "string \<Rightarrow> go_error + string"
  tl_AppendCerts :: "string \<Rightarrow> nat option"
  tl_LoadKeyPair :: "string \<Rightarrow> string \<Rightarrow> go_error + nat"

definition loadRoots :: "tls_lib \<Rightarrow> string \<Rightarrow> nat option" where
  "loadRoots lib caPath =
     (if caPath = [] then None
      else case tl_ReadFile lib caPath of
             Inl err \<Rightarrow> None
           | Inr pem \<Rightarrow> tl_AppendCerts lib pem)"

definition loadTlsConfig :: "tls_lib \<Rightarrow> TlsConfig \<Rightarrow> tls_Config option" where
  "loadTlsConfig lib cfg =
     (let root = loadRoots lib (tlsc_CaPath cfg)
      in if tlsc_KeyPath cfg = [] \<or> tlsc_CertPath cfg = []
         then Some \<lparr>tls_Certificates = [], tls_RootCAs = root\<rparr>
         else case tl_LoadKeyPair lib (tlsc_CertPath cfg) (tlsc_KeyPath cfg) of
                Inl err \<Rightarrow> None
              | Inr cert \<Rightarrow> Some \<lparr>tls_Certificates = [cert], tls_RootCAs = root\<rparr>)"

definition new_dns_Server :: "tls_lib \<Rightarrow> ServerConfig \<Rightarrow> dns_Server" where
  "new_dns_Server lib cfg =
     \<lparr>srv_Addr = sc_Ip cfg @ '':'' @ Itoa (sc_Port cfg), srv_Net = sc_Protocol cfg,
      srv_ReusePort = True,
      srv_TLSConfig = (if tlsc_Enable (sc_Tls cfg) then loadTlsConfig lib (sc_Tls cfg) else None)\<rparr>"

definition NewServer :: "tls_lib \<Rightarrow> ServerConfig list \<Rightarrow> dns_Server list" where
  "NewServer lib config =
     concat (map (\<lambda>cfg.
       let count = (if sc_Count cfg < 1 then 1 else sc_Count cfg)
       in replicate (nat count) (new_dns_Server lib cfg)) config)"

section \<open>A message arrives\<close>

text \<open>What the request library reports about the message and its sender.\<close>

record incoming =
  in_QType :: uint16
  in_Type :: string
  in_Do :: bool
  in_IP :: string
  in_Msg :: dns_Msg

definition handleRequest ::
  "'w rl_lib \<Rightarrow> RateLimiter \<Rightarrow> ('t, 'w) DnsRequestHandler \<Rightarrow> incoming \<Rightarrow>
     ('t, 'w, unit) handler_go" where
  "handleRequest rlib l h r =
     Bind (Now h) (\<lambda>now.
     let context = NewRequestContext (lib_rq (h_lib h)) now (in_QType r) (in_Type r) (in_Do r)
                     (in_IP r) (in_Msg r)
     in Bind (World (CanHandle rlib l (rc_IP context))) (\<lambda>ok.
        if ok then HandleRequest h context
        else Send h context RcodeRefused))"

end
