(* ===== verification/Handler_Life.thy ===== *)
theory Handler_Life
  imports Handler_Reply
begin

text \<open>
  The life of a handler: \<open>NewHandler\<close> with the goroutines it starts (the logger, the zone updater with
  its redis subscriber, the two loops of the health check) and \<open>ShutDown\<close>, both of
  \<open>handler/handler.go\<close>, and \<open>Healthcheck.ShutDown\<close>. The goroutines are interleaved in a step
  relation; a step is one turn of a \<open>select\<close>, one round of a loop of the health check, or one request.
\<close>

section \<open>Construction\<close>

text \<open>\<open>getFormatter\<close>: the formatter of the request log, with its time format.\<close>

datatype formatter = CapnpRequestLogFormatter | JSONFormatter string | TextFormatter string

definition getFormatter :: "DnsRequestHandlerConfig \<Rightarrow> string \<Rightarrow> formatter" where
  "getFormatter config name =
     (if name = ''capnp_request'' then CapnpRequestLogFormatter
      else if name = ''json'' then JSONFormatter (log_TimeFormat (cfg_Log config))
      else if name = ''text'' then TextFormatter (log_TimeFormat (cfg_Log config))
      else TextFormatter (log_TimeFormat (cfg_Log config)))"

datatype routine = NotStarted | Running | Stopped

text \<open>How far \<open>ShutDown\<close> has come: its next statement.\<close>

datatype phase = Serving | StoppingHealthcheck | ClosingLog | ClosingQuit | Waiting | Down

text \<open>
  The handler with its goroutines. \<open>lf_quit\<close> says that the channel \<open>quit\<close> is closed, \<open>lf_wg\<close> and
  \<open>lf_hc_wg\<close> are the two wait groups, \<open>lf_logged\<close> is what was given to the logger (\<open>None\<close> is the nil
  map received from the closed queue), \<open>lf_reloading\<close> that the updater is between the load and the
  reset of \<open>modified\<close>, \<open>lf_subscriber\<close> that the subscriber has not yet signalled the wait group it was
  handed. \<open>lf_accepted\<close> collects the entries the queue took, for the statements below.
\<close>

record ('t, 'w) life =
  lf_state :: "('t, 'w) hstate"
  lf_quit :: bool
  lf_wg :: int
  lf_logger :: routine
  lf_logged :: "(string \<rightharpoonup> log_value) option list"
  lf_accepted :: "(string \<rightharpoonup> log_value) list"
  lf_updater :: routine
  lf_modified :: bool
  lf_reloading :: bool
  lf_subscriber :: bool
  lf_hc_start :: routine
  lf_hc_transfer :: routine
  lf_hc_wg :: int
  lf_phase :: phase

definition new_life :: "('t, 'w) hstate \<Rightarrow> ('t, 'w) life" where
  "new_life s = \<lparr>lf_state = s, lf_quit = False, lf_wg = 0, lf_logger = NotStarted, lf_logged = [],
     lf_accepted = [], lf_updater = NotStarted, lf_modified = False, lf_reloading = False,
     lf_subscriber = False, lf_hc_start = NotStarted, lf_hc_transfer = NotStarted, lf_hc_wg = 0,
     lf_phase = Serving\<rparr>"

text \<open>\<open>NewHandler\<close> up to its return, with the goroutines it starts still to be scheduled.\<close>

definition NewHandler ::
  "('t, 'w) h_lib \<Rightarrow> DnsRequestHandlerConfig \<Rightarrow> 'w \<Rightarrow>
     go_panic + (('t, 'w) DnsRequestHandler \<times> ('t, 'w) life)" where
  "NewHandler lib config w =
     (let h = \<lparr>h_Config = config, h_geoip = NewGeoIp (lib_geo lib) (cfg_GeoIp config),
                h_healthcheck = NewHealthcheck (cfg_HealthCheck config), h_lib = lib\<rparr>;
          s0 = \<lparr>hs_Zones = lib_radix_New lib, hs_LastZoneUpdate = 0, hs_heap = (\<lambda>_. zero_Record),
                 hs_next = 0, hs_connections = NewUpstream (cfg_Upstream config), hs_logQueue = [],
                 hs_logClosed = False, hs_sent = [], hs_world = w\<rparr>
      in case LoadZones h s0 of
           Inl p \<Rightarrow> Inl p
         | Inr (_, s) \<Rightarrow> Inr (h, new_life s))"

section \<open>The steps of the goroutines\<close>

abbreviation on_state :: "(('t, 'w) hstate \<Rightarrow> ('t, 'w) hstate) \<Rightarrow> ('t, 'w) life \<Rightarrow> ('t, 'w) life" where
  "on_state f l \<equiv> l\<lparr>lf_state := f (lf_state l)\<rparr>"

text \<open>What one request added to the log queue.\<close>

definition new_entries :: "('t, 'w) hstate \<Rightarrow> ('t, 'w) hstate \<Rightarrow> (string \<rightharpoonup> log_value) list" where
  "new_entries s s' = drop (length (hs_logQueue s)) (hs_logQueue s')"

text \<open>\<open>Healthcheck.ShutDown\<close> up to its wait, for a health check that is enabled.\<close>

definition Healthcheck_ShutDown ::
  "('t, 'w) DnsRequestHandler \<Rightarrow> ('t, 'w) life \<Rightarrow> ('t, 'w) life" where
  "Healthcheck_ShutDown h l =
     on_state
       (\<lambda>s. s\<lparr>hs_world := hl_close_quit (lib_hc (h_lib h)) (hl_Stop (lib_hc (h_lib h)) (hs_world s))\<rparr>)
       (l\<lparr>lf_hc_wg := lf_hc_wg l + 2\<rparr>)"

declare Healthcheck_ShutDown_def [simp]

inductive life_step ::
  "('t, 'w) DnsRequestHandler \<Rightarrow> ('t, 'w) life \<Rightarrow> ('t, 'w) life \<Rightarrow> bool"
  for h :: "('t, 'w) DnsRequestHandler" where
  environment: "life_step h l (on_state (\<lambda>s. s\<lparr>hs_world := w\<rparr>) l)"
| request: "HandleRequest h c (lf_state l) = Inr ((), s') \<Longrightarrow>
     life_step h l (l\<lparr>lf_state := s', lf_accepted := lf_accepted l @ new_entries (lf_state l) s'\<rparr>)"
| logger_start: "lf_logger l = NotStarted \<Longrightarrow>
     life_step h l (l\<lparr>lf_logger := Running, lf_wg := lf_wg l + 1\<rparr>)"
| logger_log: "lf_logger l = Running \<Longrightarrow> hs_logQueue (lf_state l) = d # q \<Longrightarrow>
     life_step h l (on_state (\<lambda>s. s\<lparr>hs_logQueue := q\<rparr>) (l\<lparr>lf_logged := lf_logged l @ [Some d]\<rparr>))"
| logger_nil: "lf_logger l = Running \<Longrightarrow> hs_logQueue (lf_state l) = [] \<Longrightarrow>
     hs_logClosed (lf_state l) \<Longrightarrow> life_step h l (l\<lparr>lf_logged := lf_logged l @ [None]\<rparr>)"
| logger_quit: "lf_logger l = Running \<Longrightarrow> lf_quit l \<Longrightarrow>
     life_step h l (l\<lparr>lf_logger := Stopped, lf_wg := lf_wg l - 1\<rparr>)"
| updater_start: "lf_updater l = NotStarted \<Longrightarrow> 0 < cfg_ZoneReload (h_Config h) \<Longrightarrow>
     life_step h l (l\<lparr>lf_updater := Running, lf_wg := lf_wg l + 1, lf_subscriber := True\<rparr>)"
| notify: "lf_subscriber l \<Longrightarrow> life_step h l (l\<lparr>lf_modified := True\<rparr>)"
| updater_load: "lf_updater l = Running \<Longrightarrow> \<not> lf_reloading l \<Longrightarrow> lf_modified l \<Longrightarrow>
     LoadZones h (lf_state l) = Inr ((), s') \<Longrightarrow>
     life_step h l (l\<lparr>lf_state := s', lf_reloading := True\<rparr>)"
| updater_clear: "lf_updater l = Running \<Longrightarrow> lf_reloading l \<Longrightarrow>
     life_step h l (l\<lparr>lf_modified := False, lf_reloading := False\<rparr>)"
| updater_force: "lf_updater l = Running \<Longrightarrow> \<not> lf_reloading l \<Longrightarrow>
     life_step h l (l\<lparr>lf_modified := True\<rparr>)"
| updater_quit: "lf_updater l = Running \<Longrightarrow> \<not> lf_reloading l \<Longrightarrow> lf_quit l \<Longrightarrow>
     life_step h l (l\<lparr>lf_updater := Stopped\<rparr>)"
| subscriber_done: "lf_updater l = Stopped \<Longrightarrow> lf_subscriber l \<Longrightarrow>
     life_step h l (l\<lparr>lf_subscriber := False, lf_wg := lf_wg l - 1\<rparr>)"
| hc_start: "lf_hc_start l = NotStarted \<Longrightarrow> hc_Enable (h_healthcheck h) \<Longrightarrow>
     0 < hc_checkInterval (h_healthcheck h) \<Longrightarrow>
     life_step h l (l\<lparr>lf_hc_start := Running, lf_hc_transfer := Running\<rparr>)"
| hc_disabled: "lf_hc_start l = NotStarted \<Longrightarrow> \<not> hc_Enable (h_healthcheck h) \<Longrightarrow>
     life_step h l (l\<lparr>lf_hc_start := Stopped\<rparr>)"
| hc_round: "lf_hc_start l = Running \<Longrightarrow>
     Start_round (lib_hc (h_lib h)) (h_healthcheck h) (hs_world (lf_state l)) = Inr (False, w) \<Longrightarrow>
     life_step h l (on_state (\<lambda>s. s\<lparr>hs_world := w\<rparr>) l)"
| hc_quit: "lf_hc_start l = Running \<Longrightarrow> lf_phase l \<noteq> Serving \<Longrightarrow>
     Start_round (lib_hc (h_lib h)) (h_healthcheck h) (hs_world (lf_state l)) = Inr (True, w) \<Longrightarrow>
     life_step h l (on_state (\<lambda>s. s\<lparr>hs_world := w\<rparr>)
       (l\<lparr>lf_hc_start := Stopped, lf_hc_wg := lf_hc_wg l - 1\<rparr>))"
| transfer_round: "lf_hc_transfer l = Running \<Longrightarrow>
     Transfer 1 (lib_hc (h_lib h)) (h_healthcheck h) (hs_world (lf_state l)) = Inr (False, w) \<Longrightarrow>
     life_step h l (on_state (\<lambda>s. s\<lparr>hs_world := w\<rparr>) l)"
| transfer_quit: "lf_hc_transfer l = Running \<Longrightarrow> lf_phase l \<noteq> Serving \<Longrightarrow>
     Transfer 1 (lib_hc (h_lib h)) (h_healthcheck h) (hs_world (lf_state l)) = Inr (True, w) \<Longrightarrow>
     life_step h l (on_state (\<lambda>s. s\<lparr>hs_world := w\<rparr>)
       (l\<lparr>lf_hc_transfer := Stopped, lf_hc_wg := lf_hc_wg l - 1\<rparr>))"
| shutdown_plain: "lf_phase l = Serving \<Longrightarrow> \<not> hc_Enable (h_healthcheck h) \<Longrightarrow>
     life_step h l (l\<lparr>lf_phase := ClosingLog\<rparr>)"
| shutdown_hc: "lf_phase l = Serving \<Longrightarrow> hc_Enable (h_healthcheck h) \<Longrightarrow>
     life_step h l ((Healthcheck_ShutDown h l)\<lparr>lf_phase := StoppingHealthcheck\<rparr>)"
| shutdown_hc_wait: "lf_phase l = StoppingHealthcheck \<Longrightarrow> lf_hc_wg l = 0 \<Longrightarrow>
     life_step h l (l\<lparr>lf_phase := ClosingLog\<rparr>)"
| shutdown_log: "lf_phase l = ClosingLog \<Longrightarrow>
     life_step h l (on_state (\<lambda>s. s\<lparr>hs_logClosed := True\<rparr>) (l\<lparr>lf_phase := ClosingQuit\<rparr>))"
| shutdown_quit: "lf_phase l = ClosingQuit \<Longrightarrow>
     life_step h l (l\<lparr>lf_quit := True, lf_phase := Waiting\<rparr>)"
| shutdown_wait: "lf_phase l = Waiting \<Longrightarrow> lf_wg l = 0 \<Longrightarrow> life_step h l (l\<lparr>lf_phase := Down\<rparr>)"

inductive life_reach ::
  "('t, 'w) DnsRequestHandler \<Rightarrow> ('t, 'w) life \<Rightarrow> ('t, 'w) life \<Rightarrow> bool"
  for h :: "('t, 'w) DnsRequestHandler" and l0 where
  created: "life_reach h l0 l0"
| stepped: "life_reach h l0 l \<Longrightarrow> life_step h l l' \<Longrightarrow> life_reach h l0 l'"

section \<open>Frame conditions\<close>

definition log_channel :: "('t, 'w) hstate \<Rightarrow> (string \<rightharpoonup> log_value) list \<times> bool" where
  "log_channel s = (hs_logQueue s, hs_logClosed s)"

lemma log_channel_simps [simp]:
  "log_channel (s\<lparr>hs_world := w\<rparr>) = log_channel s"
  "log_channel (s\<lparr>hs_Zones := t\<rparr>) = log_channel s"
  "log_channel (s\<lparr>hs_LastZoneUpdate := n\<rparr>) = log_channel s"
  by (simp_all add: log_channel_def)

lemma keeps_LoadZones: "keeps log_channel (LoadZones h)"
  unfolding LoadZones_def Now_def World_def
  by (auto intro!: keeps_intros split: sum.splits)

lemma LoadZones_channel:
  "LoadZones h s = Inr ((), s') \<Longrightarrow> hs_logQueue s' = hs_logQueue s \<and> hs_logClosed s' = hs_logClosed s"
  using wpD [OF keepsD [OF keeps_LoadZones]] by (fastforce simp: log_channel_def)

lemma outputs_logClosed: "outputs t = outputs s \<Longrightarrow> hs_logClosed t = hs_logClosed s"
  by (simp add: outputs_def)

lemma keeps_outputs_logClosed:
  assumes "keeps outputs m"
  shows "keeps hs_logClosed m"
  unfolding keeps_def by (intro allI wp_strengthen [OF keepsD [OF assms]]) (rule outputs_logClosed)

lemma keeps_HandleRequest_logClosed: "keeps hs_logClosed (HandleRequest h c)"
proof -
  have "keeps hs_logClosed (Respond h c res)" for c res
    unfolding Respond_def LogRequest_def Send_def Now_def World_def Let_def
    by (auto intro!: keeps_intros split: if_splits)
  then show ?thesis
    unfolding HandleRequest_def Let_def
    by (auto intro!: keeps_intros keeps_outputs_logClosed [OF keeps_LoadZone]
        keeps_outputs_logClosed [OF keeps_HandleRequest_loop]
        keeps_outputs_logClosed [OF keeps_dnssec_stage] split: option.splits prod.splits)
qed

lemma HandleRequest_channel:
  assumes "HandleRequest h c s = Inr ((), s')"
  shows "hs_logClosed s' = hs_logClosed s" "hs_logQueue s' = hs_logQueue s @ new_entries s s'"
    "length (hs_logQueue s) \<le> logQueue_capacity \<Longrightarrow> length (hs_logQueue s') \<le> logQueue_capacity"
proof -
  show "hs_logClosed s' = hs_logClosed s"
    using wpD [OF keepsD [OF keeps_HandleRequest_logClosed] assms] .
  have "replied h c s s'" using wpD [OF HandleRequest_replied assms] .
  then obtain d where "hs_logQueue s' = enqueue (hs_logQueue s) d" by (auto simp: replied_def)
  then show "hs_logQueue s' = hs_logQueue s @ new_entries s s'"
    "length (hs_logQueue s) \<le> logQueue_capacity \<Longrightarrow> length (hs_logQueue s') \<le> logQueue_capacity"
    by (auto simp: new_entries_def enqueue_def)
qed

section \<open>The invariant\<close>

text \<open>
  What holds in every reachable state: the log keeps the order of the entries and loses none, the
  channels are closed in the order of \<open>ShutDown\<close>, and the wait groups count the goroutines that have
  to be waited for.
\<close>

definition life_ok :: "('t, 'w) life \<Rightarrow> bool" where
  "life_ok l \<longleftrightarrow>
     lf_accepted l = List.map_filter (\<lambda>e. e) (lf_logged l) @ hs_logQueue (lf_state l) \<and>
     length (hs_logQueue (lf_state l)) \<le> logQueue_capacity \<and>
     hs_logClosed (lf_state l) = (lf_phase l \<in> {ClosingQuit, Waiting, Down}) \<and>
     lf_quit l = (lf_phase l \<in> {Waiting, Down}) \<and>
     lf_wg l = of_bool (lf_logger l = Running) + of_bool (lf_subscriber l) \<and>
     (lf_logger l = Stopped \<longrightarrow> lf_quit l) \<and> (lf_updater l = Stopped \<longrightarrow> lf_quit l) \<and>
     (lf_updater l = Running \<longrightarrow> lf_subscriber l) \<and> (lf_updater l = NotStarted \<longrightarrow> \<not> lf_subscriber l) \<and>
     (lf_reloading l \<longrightarrow> lf_updater l = Running) \<and>
     (None \<in> set (lf_logged l) \<longrightarrow> hs_logClosed (lf_state l))"

lemma map_filter_append [simp]: "List.map_filter f (xs @ ys) = List.map_filter f xs @ List.map_filter f ys"
  by (simp add: List.map_filter_def)

lemma life_step_ok: "life_step h l l' \<Longrightarrow> life_ok l \<Longrightarrow> life_ok l'"
proof (induction rule: life_step.induct)
  case (request c l s')
  show ?case
    using request.prems HandleRequest_channel [OF request.hyps] by (auto simp: life_ok_def)
next
  case (updater_load l s')
  show ?case
    using updater_load.prems updater_load.hyps LoadZones_channel [OF updater_load.hyps(4)] by (auto simp: life_ok_def)
qed (simp_all add: life_ok_def List.map_filter_def, (blast | fastforce)+)

lemma NewHandler_new:
  assumes "NewHandler lib config w = Inr (h, l)"
  shows "\<exists>s. l = new_life s \<and> hs_logQueue s = [] \<and> \<not> hs_logClosed s"
proof -
  let ?h = "\<lparr>h_Config = config, h_geoip = NewGeoIp (lib_geo lib) (cfg_GeoIp config),
    h_healthcheck = NewHealthcheck (cfg_HealthCheck config), h_lib = lib\<rparr>"
  let ?s0 = "\<lparr>hs_Zones = lib_radix_New lib, hs_LastZoneUpdate = 0, hs_heap = (\<lambda>_. zero_Record),
    hs_next = 0, hs_connections = NewUpstream (cfg_Upstream config), hs_logQueue = [],
    hs_logClosed = False, hs_sent = [], hs_world = w\<rparr>"
  from assms obtain s where "LoadZones ?h ?s0 = Inr ((), s)" "l = new_life s"
    unfolding NewHandler_def Let_def
    by (cases "LoadZones ?h ?s0") (auto split: prod.splits)
  with LoadZones_channel [of ?h ?s0 s] show ?thesis by auto
qed

lemma NewHandler_ok: "NewHandler lib config w = Inr (h, l) \<Longrightarrow> life_ok l"
  by (auto dest!: NewHandler_new simp: life_ok_def new_life_def List.map_filter_def)

lemma life_reach_ok:
  assumes "life_reach h l0 l" "life_ok l0"
  shows "life_ok l"
  using assms by (induction rule: life_reach.induct) (auto intro: life_step_ok)

section \<open>Shutting down\<close>

text \<open>
  While \<open>ShutDown\<close> waits, each goroutine that still runs has a step that stops it: an optional step
  of the relation that establishes \<open>P\<close> and keeps what was gained before.
\<close>

lemma waiting_step:
  assumes "life_ok l" "lf_phase l = Waiting" "Q l"
    and "\<not> P l \<Longrightarrow> life_step h l (f l)" "lf_phase (f l) = Waiting" "Q (f l)" "P (f l)"
  shows "\<exists>l'. (life_step h)\<^sup>*\<^sup>* l l' \<and> life_ok l' \<and> lf_phase l' = Waiting \<and> Q l' \<and> P l'"
proof (cases "P l")
  case False
  then show ?thesis using assms(1,4-) life_step_ok r_into_rtranclp by metis
qed (use assms in blast)

lemma waiting_completes:
  assumes "life_ok l" "lf_phase l = Waiting"
  shows "\<exists>l'. (life_step h)\<^sup>*\<^sup>* l l' \<and> lf_phase l' = Down \<and> lf_logger l' \<noteq> Running \<and>
           lf_updater l' \<noteq> Running"
proof -
  have facts: "lf_reloading l \<Longrightarrow> lf_updater l = Running" "lf_phase l = Waiting \<Longrightarrow> lf_quit l"
    "lf_subscriber l \<Longrightarrow> lf_updater l \<noteq> NotStarted"
    "lf_wg l = of_bool (lf_logger l = Running) + of_bool (lf_subscriber l)" if "life_ok l" for l :: "('a, 'b) life"
    using that by (auto simp: life_ok_def)
  obtain l1 where l1: "(life_step h)\<^sup>*\<^sup>* l l1" "life_ok l1" "lf_phase l1 = Waiting" "\<not> lf_reloading l1"
    using waiting_step [where P = "\<lambda>l. \<not> lf_reloading l" and Q = "\<lambda>_. True",
        where f = "\<lambda>l. l\<lparr>lf_modified := False, lf_reloading := False\<rparr>", OF assms]
      life_step.updater_clear [of l h] facts [OF assms(1)] assms(2) by auto
  obtain l2 where l2: "(life_step h)\<^sup>*\<^sup>* l1 l2" "life_ok l2" "lf_phase l2 = Waiting"
    "lf_updater l2 \<noteq> Running"
    using waiting_step [where P = "\<lambda>l. lf_updater l \<noteq> Running" and Q = "\<lambda>_. True",
        where f = "\<lambda>l. l\<lparr>lf_updater := Stopped\<rparr>", OF l1(2,3)]
      life_step.updater_quit [of l1 h] facts [OF l1(2)] l1(3,4) by auto
  have sub: "lf_subscriber l2 \<Longrightarrow> lf_updater l2 = Stopped"
    using l2(4) facts(3) [OF l2(2)] by (cases "lf_updater l2") auto
  obtain l3 where l3: "(life_step h)\<^sup>*\<^sup>* l2 l3" "life_ok l3" "lf_phase l3 = Waiting"
    "lf_updater l3 \<noteq> Running" "\<not> lf_subscriber l3"
    using waiting_step [where P = "\<lambda>l. \<not> lf_subscriber l" and Q = "\<lambda>l. lf_updater l \<noteq> Running",
        where f = "\<lambda>l. l\<lparr>lf_subscriber := False, lf_wg := lf_wg l - 1\<rparr>", OF l2(2,3)]
      l2(3,4) sub life_step.subscriber_done [of l2 h] by auto
  obtain l4 where l4: "(life_step h)\<^sup>*\<^sup>* l3 l4" "life_ok l4" "lf_phase l4 = Waiting"
    "lf_updater l4 \<noteq> Running" "\<not> lf_subscriber l4" "lf_logger l4 \<noteq> Running"
    using waiting_step [where P = "\<lambda>l. lf_logger l \<noteq> Running"
          and Q = "\<lambda>l. lf_updater l \<noteq> Running \<and> \<not> lf_subscriber l",
        where f = "\<lambda>l. l\<lparr>lf_logger := Stopped, lf_wg := lf_wg l - 1\<rparr>", OF l3(2,3)]
      l3(3-) life_step.logger_quit [of l3 h] facts [OF l3(2)] by auto
  have "life_step h l4 (l4\<lparr>lf_phase := Down\<rparr>)"
    using l4(3-) facts(4) [OF l4(2)] by (intro life_step.shutdown_wait) auto
  with l1(1) l2(1) l3(1) l4(1) have "(life_step h)\<^sup>*\<^sup>* l (l4\<lparr>lf_phase := Down\<rparr>)"
    by (meson rtranclp.rtrancl_into_rtrancl rtranclp_trans)
  then show ?thesis using l4(4,6) by (intro exI [of _ "l4\<lparr>lf_phase := Down\<rparr>"]) simp
qed

lemma closing_reaches_waiting:
  assumes "life_ok l" "lf_phase l \<in> {ClosingLog, ClosingQuit, Waiting}"
  shows "\<exists>l'. (life_step h)\<^sup>*\<^sup>* l l' \<and> life_ok l' \<and> lf_phase l' = Waiting"
proof -
  have quit: "\<exists>l'. (life_step h)\<^sup>*\<^sup>* l l' \<and> life_ok l' \<and> lf_phase l' = Waiting"
    if "life_ok l" "lf_phase l = ClosingQuit" for l
  proof (intro exI conjI)
    show step: "(life_step h)\<^sup>*\<^sup>* l (l\<lparr>lf_quit := True, lf_phase := Waiting\<rparr>)"
      using life_step.shutdown_quit [OF that(2)] by blast
    show "life_ok (l\<lparr>lf_quit := True, lf_phase := Waiting\<rparr>)"
      using life_step_ok [OF life_step.shutdown_quit [OF that(2)] that(1)] .
  qed simp
  consider "lf_phase l = ClosingLog" | "lf_phase l = ClosingQuit" | "lf_phase l = Waiting"
    using assms(2) by auto
  then show ?thesis
  proof cases
    case 1
    let ?l = "on_state (\<lambda>s. s\<lparr>hs_logClosed := True\<rparr>) (l\<lparr>lf_phase := ClosingQuit\<rparr>)"
    have step: "life_step h l ?l" using life_step.shutdown_log [OF 1] by simp
    then have "life_ok ?l" using life_step_ok assms(1) by blast
    with quit [of ?l] step show ?thesis by (auto intro: converse_rtranclp_into_rtranclp)
  next
    case 2
    then show ?thesis using quit assms(1) by blast
  next
    case 3
    then show ?thesis using assms(1) by blast
  qed
qed

text \<open>The transfer loop never sees the quit channel when the database lists no zones.\<close>

lemma transfer_never_quits:
  assumes "\<And>w. fst (fst (hl_config_SMembers lib ''redins:zones'' w)) = []"
  shows "Transfer 1 lib g w \<noteq> Inr (True, w')"
  using assms [of w] by (auto simp: Bind_def Extern_def Return_def split: prod.splits)

lemma stuck_step:
  assumes "hc_Enable (h_healthcheck h)"
    and "\<And>w. fst (fst (hl_config_SMembers (lib_hc (h_lib h)) ''redins:zones'' w)) = []"
    and "life_step h l l'"
    and "lf_hc_transfer l \<noteq> Stopped \<and> lf_phase l \<in> {Serving, StoppingHealthcheck} \<and>
         lf_hc_wg l = (if lf_phase l = Serving then 0 else 2 - of_bool (lf_hc_start l = Stopped)) \<and>
         (lf_phase l = Serving \<longrightarrow> lf_hc_start l \<noteq> Stopped)"
  shows "lf_hc_transfer l' \<noteq> Stopped \<and> lf_phase l' \<in> {Serving, StoppingHealthcheck} \<and>
         lf_hc_wg l' = (if lf_phase l' = Serving then 0 else 2 - of_bool (lf_hc_start l' = Stopped)) \<and>
         (lf_phase l' = Serving \<longrightarrow> lf_hc_start l' \<noteq> Stopped)"
  using assms(3,4)
proof (induction rule: life_step.induct)
  case (transfer_quit l w)
  then show ?case using transfer_never_quits [OF assms(2)] by blast
next
  case (hc_disabled l)
  then show ?case using assms(1) by blast
next
  case (shutdown_plain l)
  then show ?case using assms(1) by blast
next
  case (shutdown_hc_wait l)
  then show ?case by (cases "lf_hc_start l = Stopped") auto
qed (auto split: if_splits)

section \<open>Properties\<close>



text \<open>
  C28. \<open>ShutDown\<close> does not return early: when its wait ends, no goroutine it knows of runs any more and
  the redis subscriber has signalled. And from the moment it closed the log queue, finishing a request
  panics.
\<close>

theorem ShutDown_waits:
  assumes "NewHandler lib config w = Inr (h, l0)" "life_reach h l0 l"
  shows "(lf_phase l = Waiting \<and> lf_wg l = 0 \<longrightarrow>
            lf_logger l \<noteq> Running \<and> lf_updater l \<noteq> Running \<and> \<not> lf_subscriber l) \<and>
         (lf_phase l \<in> {ClosingQuit, Waiting, Down} \<longrightarrow>
            Respond h c res (lf_state l) = Inl SendOnClosedChannel)"
proof -
  have ok: "life_ok l" using life_reach_ok [OF assms(2) NewHandler_ok [OF assms(1)]] .
  have "lf_logger l \<noteq> Running \<and> lf_updater l \<noteq> Running \<and> \<not> lf_subscriber l" if "lf_wg l = 0"
  proof -
    have "of_bool (lf_logger l = Running) + of_bool (lf_subscriber l) = (0 :: int)"
      and running: "lf_updater l = Running \<longrightarrow> lf_subscriber l"
      using ok that by (simp_all add: life_ok_def)
    then show ?thesis by (cases "lf_logger l = Running"; cases "lf_subscriber l") simp_all
  qed
  moreover have "lf_phase l \<in> {ClosingQuit, Waiting, Down} \<Longrightarrow> hs_logClosed (lf_state l)"
    using ok unfolding life_ok_def by blast
  moreover have "Respond h c res s = Inl SendOnClosedChannel" if "hs_logClosed s" for s :: "('a, 'b) hstate"
    using that by (simp add: Respond_def LogRequest_def Now_def World_def Bind_def Zoom_def Extern_def
        Gets_def Panic_def Let_def split: prod.splits)
  ultimately show ?thesis by blast
qed

text \<open>
  C36. With the health check enabled and no zones in redis, \<open>ShutDown\<close> never gets past the health check:
  its wait group keeps counting the transfer loop, which does not look at the quit channel.
\<close>

theorem ShutDown_stuck_without_zones:
  assumes "NewHandler lib config w = Inr (h, l0)" "life_reach h l0 l"
    and "hc_Enable (h_healthcheck h)"
    and "\<And>w. fst (fst (hl_config_SMembers (lib_hc (h_lib h)) ''redins:zones'' w)) = []"
  shows "lf_phase l \<in> {Serving, StoppingHealthcheck}"
proof -
  let ?I = "\<lambda>l. lf_hc_transfer l \<noteq> Stopped \<and> lf_phase l \<in> {Serving, StoppingHealthcheck} \<and>
    lf_hc_wg l = (if lf_phase l = Serving then 0 else 2 - of_bool (lf_hc_start l = Stopped)) \<and>
    (lf_phase l = Serving \<longrightarrow> lf_hc_start l \<noteq> Stopped)"
  have "?I l0" using NewHandler_new [OF assms(1)] by (auto simp: new_life_def)
  with assms(2) have "?I l"
    by (induction rule: life_reach.induct) (use stuck_step [OF assms(3,4)] in blast)+
  then show ?thesis by blast
qed


section \<open>Witnesses\<close>

text \<open>A handler on the example library, as \<open>NewHandler\<close> builds it.\<close>

definition built_handler :: "bool \<Rightarrow> ((string \<times> string) list, string \<rightharpoonup> string) DnsRequestHandler" where
  "built_handler hc = \<lparr>h_Config = example_config\<lparr>cfg_HealthCheck :=
       (cfg_HealthCheck example_config)\<lparr>hconf_Enable := hc\<rparr>\<rparr>,
     h_geoip = \<lparr>geo_Enable = False, geo_CountryDB = None, geo_ASNDB = None\<rparr>,
     h_healthcheck = \<lparr>hc_Enable = hc, hc_maxRequests = 10, hc_maxPendingRequests = 100,
       hc_updateInterval = 600 * second, hc_checkInterval = 600 * second\<rparr>,
     h_lib = example_h_lib\<rparr>"

definition built_state :: "((string \<times> string) list, string \<rightharpoonup> string) hstate" where
  "built_state = \<lparr>hs_Zones = zone_tree example_h_lib [''com.'', ''example.com.''],
     hs_LastZoneUpdate = 100 * second, hs_heap = (\<lambda>_. zero_Record), hs_next = 0,
     hs_connections = [], hs_logQueue = [], hs_logClosed = False, hs_sent = [], hs_world = Map.empty\<rparr>"

lemma example_lib_reads:
  "lib_Now example_h_lib w = (100 * second, w)"
  "lib_SMembers example_h_lib k w = (Inr [''com.'', ''example.com.''], w)"
  by (simp_all add: example_h_lib_def)

lemma example_NewHandler:
  "NewHandler example_h_lib (h_Config (built_handler hc)) Map.empty =
     Inr (built_handler hc, new_life built_state)"
  by (simp add: NewHandler_def Let_def built_handler_def built_state_def example_config_def NewGeoIp_def
      NewHealthcheck_def NewUpstream_def LoadZones_def Now_def World_def Bind_def Seq_def Zoom_def
      Extern_def Modify_def zone_tree_def example_lib_reads)


lemma example_closing: "life_reach (built_handler False) (new_life built_state)
    ((new_life built_state)\<lparr>lf_phase := ClosingLog\<rparr>)"
  by (rule life_reach.stepped [OF life_reach.created], rule life_step.shutdown_plain)
    (simp_all add: new_life_def built_handler_def)


theorem ShutDown_waits_witness:
  "Respond (built_handler False) (example_request ''www.example.com.'' TypeA) RcodeSuccess (built_state\<lparr>hs_logClosed := True\<rparr>) =
     Inl SendOnClosedChannel"
proof -
  let ?l = "on_state (\<lambda>s. s\<lparr>hs_logClosed := True\<rparr>) ((new_life built_state)\<lparr>lf_phase := ClosingQuit\<rparr>)"
  have "life_step (built_handler False) ((new_life built_state)\<lparr>lf_phase := ClosingLog\<rparr>) ?l"
    using life_step.shutdown_log [of "(new_life built_state)\<lparr>lf_phase := ClosingLog\<rparr>"] by simp
  from ShutDown_waits [OF example_NewHandler life_reach.stepped [OF example_closing this]]
  show ?thesis by (simp add: new_life_def)
qed

theorem ShutDown_stuck_without_zones_witness:
  "\<not> (\<exists>l. life_reach (built_handler True) (new_life built_state) l \<and> lf_phase l = Down)"
proof (rule notI, elim exE conjE)
  fix l
  assume "life_reach (built_handler True) (new_life built_state) l" "lf_phase l = Down"
  from ShutDown_stuck_without_zones [OF example_NewHandler this(1)] this(2) show False
    by (simp add: built_handler_def example_h_lib_def example_hc_lib_def)
qed


end
