(* ===== verification/Redins_Main.thy ===== *)
theory Redins_Main
  imports Redins_Server Handler_Life
begin

text \<open>
  \<open>redins.go\<close>: the configuration of the server with its defaults, \<open>LoadConfig\<close>, \<open>Start\<close>, \<open>Stop\<close> and the
  loop of \<open>main\<close> that waits for signals, as a step relation over the process.
\<close>

section \<open>Configuration\<close>

record RedinsConfig =
  conf_Server :: "ServerConfig list"
  conf_ErrorLog :: LogConfig
  conf_Handler :: DnsRequestHandlerConfig
  conf_RateLimit :: RateLimiterConfig

definition RFC3339 :: string where
  "RFC3339 = ''2006-01-02T15:04:05Z07:00''"

text \<open>
  The redis client, the kafka client and the log of every part have the same defaults but for the
  path, the target, the format and the address of the system log.
\<close>

definition default_redis :: RedisConfig where
  "default_redis = \<lparr>rdc_Address = ''127.0.0.1:6379'', rdc_Net = ''tcp'', rdc_DB = 0,
     rdc_Password = [], rdc_Prefix = ''redins_'', rdc_Suffix = ''_redins'',
     rdc_Connection = \<lparr>rcc_MaxIdleConnections = 10, rcc_MaxActiveConnections = 10,
       rcc_ConnectTimeout = 500, rcc_ReadTimeout = 500, rcc_IdleKeepAlive = 30,
       rcc_MaxKeepAlive = 0, rcc_WaitForConnection = False\<rparr>\<rparr>"

definition default_log :: "string \<Rightarrow> string \<Rightarrow> string \<Rightarrow> string \<Rightarrow> LogConfig" where
  "default_log tgt path format syslog = \<lparr>log_Enable = True, log_Target = tgt, log_Level = ''info'',
     log_Path = path, log_Format = format, log_TimeFormat = RFC3339,
     log_Sentry = \<lparr>sentry_Enable = False, sentry_DSN = []\<rparr>,
     log_Syslog = \<lparr>syslog_Enable = False, syslog_Protocol = ''tcp'', syslog_Address = syslog\<rparr>,
     log_Kafka = \<lparr>kafka_Enable = False, kafka_Topic = ''redins'', kafka_Brokers = [''127.0.0.1:9092''],
       kafka_Format = ''json'', kafka_Compression = ''none'', kafka_Timeout = 3000,
       kafka_BufferSize = 1000\<rparr>\<rparr>"

definition default_handler_config :: DnsRequestHandlerConfig where
  "default_handler_config = \<lparr>
     cfg_Upstream = [\<lparr>uc_Ip = ''1.1.1.1'', uc_Port = 53, uc_Protocol = ''udp'', uc_Timeout = 400\<rparr>],
     cfg_GeoIp = \<lparr>gc_Enable = False, gc_CountryDB = ''geoCity.mmdb'', gc_ASNDB = ''geoIsp.mmdb''\<rparr>,
     cfg_HealthCheck = \<lparr>hconf_Enable = False, hconf_MaxRequests = 10,
       hconf_MaxPendingRequests = 100, hconf_UpdateInterval = 600, hconf_CheckInterval = 600,
       hconf_RedisStatusServer = default_redis,
       hconf_Log = default_log ''file'' ''/tmp/healthcheck.log'' ''json'' ''localhost:514''\<rparr>,
     cfg_MaxTtl = 3600, cfg_CacheTimeout = 60, cfg_ZoneReload = 600, cfg_LogSourceLocation = False,
     cfg_Redis = default_redis,
     cfg_Log = default_log ''file'' ''/tmp/redins.log'' ''json'' ''localhost:514''\<rparr>"

definition redinsDefaultConfig :: RedinsConfig where
  "redinsDefaultConfig = \<lparr>
     conf_Server = [\<lparr>sc_Ip = ''127.0.0.1'', sc_Port = 1053, sc_Protocol = ''udp'', sc_Count = 1,
       sc_Tls = \<lparr>tlsc_Enable = False, tlsc_CertPath = [], tlsc_KeyPath = [], tlsc_CaPath = []\<rparr>\<rparr>],
     conf_ErrorLog = default_log ''stdout'' ''/tmp/error.log'' ''text'' ''locahost:514'',
     conf_Handler = default_handler_config,
     conf_RateLimit = \<lparr>rlc_Enable = False, rlc_Burst = 10, rlc_Rate = 60, rlc_WhiteList = [],
       rlc_BlackList = []\<rparr>\<rparr>"

text \<open>
  \<open>LoadConfig\<close>. The variable \<open>redinsDefaultConfig\<close> is a pointer, and the decoder writes through it: the
  state is the configuration it points to, and the result is the same pointer. \<open>open_file\<close> reads a file,
  \<open>decode\<close> is the JSON decoder (it may write some fields and still report an error).
\<close>

definition LoadConfig ::
  "(string \<Rightarrow> go_error + string) \<Rightarrow> (string \<Rightarrow> RedinsConfig \<Rightarrow> RedinsConfig \<times> go_error option) \<Rightarrow>
     string \<Rightarrow> (RedinsConfig, go_error option) go" where
  "LoadConfig open_file decode path =
     (case open_file path of
        Inl err \<Rightarrow> Return (Some err)
      | Inr content \<Rightarrow>
          Bind (Gets (\<lambda>config. decode content config)) (\<lambda>(config, err).
          Seq (Modify (\<lambda>_. config)) (Return err)))"

section \<open>The process\<close>

datatype os_signal = SIGINT | SIGHUP

text \<open>
  The globals of the process: the configuration \<open>redinsDefaultConfig\<close> points to, the listeners with
  whether they are up, the handler with its goroutines and the rate limiter. \<open>p_signal\<close> is the signal
  \<open>main\<close> is dealing with (it is inside \<open>Stop\<close>), \<open>p_exited\<close> that \<open>main\<close> returned.
\<close>

record ('t, 'w) process =
  p_config :: RedinsConfig
  p_servers :: "dns_Server list"
  p_up :: bool
  p_handler :: "('t, 'w) DnsRequestHandler"
  p_life :: "('t, 'w) life"
  p_limiter :: RateLimiter
  p_signal :: "os_signal option"
  p_exited :: bool

text \<open>What the process gets from outside: files, the decoder, TLS and the handler's libraries.\<close>

record ('t, 'w) p_lib =
  pl_open :: "string \<Rightarrow> go_error + string"
  pl_decode :: "string \<Rightarrow> RedinsConfig \<Rightarrow> RedinsConfig \<times> go_error option"
  pl_tls :: tls_lib
  pl_handler :: "('t, 'w) h_lib"

text \<open>\<open>Start\<close>, from the configuration in memory and the world; the error of \<open>LoadConfig\<close> is dropped.\<close>

definition redins_Start ::
  "('t, 'w) p_lib \<Rightarrow> string \<Rightarrow> RedinsConfig \<Rightarrow> 'w \<Rightarrow> go_panic + ('t, 'w) process" where
  "redins_Start lib path config w =
     (case LoadConfig (pl_open lib) (pl_decode lib) path config of
        Inl p \<Rightarrow> Inl p
      | Inr (_, cfg) \<Rightarrow>
          (let s = NewServer (pl_tls lib) (conf_Server cfg)
           in case NewHandler (pl_handler lib) (conf_Handler cfg) w of
                Inl p \<Rightarrow> Inl p
              | Inr (h, life) \<Rightarrow>
                  (case NewRateLimiter (conf_RateLimit cfg) of
                     Inl p \<Rightarrow> Inl p
                   | Inr l \<Rightarrow> Inr \<lparr>p_config = cfg, p_servers = s, p_up = True, p_handler = h,
                       p_life = life, p_limiter = l, p_signal = None, p_exited = False\<rparr>)))"

text \<open>
  A step of the process: a step of the goroutines of the handler (those of \<open>ShutDown\<close> only inside
  \<open>Stop\<close>), a signal, which starts \<open>Stop\<close> by shutting the listeners down, and the end of \<open>Stop\<close>, after
  which \<open>main\<close> returns or starts again.
\<close>

inductive main_step ::
  "('t, 'w) p_lib \<Rightarrow> string \<Rightarrow> ('t, 'w) process \<Rightarrow> ('t, 'w) process \<Rightarrow> bool"
  for lib :: "('t, 'w) p_lib" and path where
  goroutine: "\<not> p_exited p \<Longrightarrow> life_step (p_handler p) (p_life p) l \<Longrightarrow>
     lf_phase l = lf_phase (p_life p) \<or> p_signal p \<noteq> None \<Longrightarrow> main_step lib path p (p\<lparr>p_life := l\<rparr>)"
| signal: "\<not> p_exited p \<Longrightarrow> p_signal p = None \<Longrightarrow>
     main_step lib path p (p\<lparr>p_signal := Some sig, p_up := False\<rparr>)"
| interrupt: "\<not> p_exited p \<Longrightarrow> p_signal p = Some SIGINT \<Longrightarrow> lf_phase (p_life p) = Down \<Longrightarrow>
     main_step lib path p (p\<lparr>p_exited := True\<rparr>)"
| hangup: "\<not> p_exited p \<Longrightarrow> p_signal p = Some SIGHUP \<Longrightarrow> lf_phase (p_life p) = Down \<Longrightarrow>
     redins_Start lib path (p_config p) (hs_world (lf_state (p_life p))) = Inr p' \<Longrightarrow>
     main_step lib path p p'"

inductive main_reach ::
  "('t, 'w) p_lib \<Rightarrow> string \<Rightarrow> ('t, 'w) process \<Rightarrow> bool"
  for lib :: "('t, 'w) p_lib" and path where
  started: "redins_Start lib path redinsDefaultConfig w = Inr p \<Longrightarrow> main_reach lib path p"
| continued: "main_reach lib path p \<Longrightarrow> main_step lib path p p' \<Longrightarrow> main_reach lib path p'"

section \<open>Lemmas\<close>

lemma LoadZones_returns: "\<exists>s'. LoadZones h s = Inr ((), s')"
proof -
  have "wp NoPanic (LoadZones h) (\<lambda>_ _. True) s"
    by (auto simp: LoadZones_def Now_def World_def wp_rules split: sum.splits)
  then show ?thesis by (auto dest: wp_NoPanicD)
qed

lemma NewHandler_returns:
  "\<exists>s. NewHandler lib config w = Inr (\<lparr>h_Config = config, h_geoip = NewGeoIp (lib_geo lib) (cfg_GeoIp config),
     h_healthcheck = NewHealthcheck (cfg_HealthCheck config), h_lib = lib\<rparr>, new_life s)"
  unfolding NewHandler_def Let_def
  by (metis (no_types, lifting) LoadZones_returns case_prod_conv sum.case(2))

text \<open>What \<open>Start\<close> leaves: a new handler that serves.\<close>

lemma redins_Start_fresh:
  assumes "redins_Start lib path config w = Inr p"
  shows "\<not> p_exited p \<and> p_signal p = None \<and> p_up p \<and> life_ok (p_life p) \<and> lf_phase (p_life p) = Serving"
proof -
  obtain h life where "NewHandler (pl_handler lib) (conf_Handler (p_config p)) w = Inr (h, life)" "p_life p = life"
    "\<not> p_exited p" "p_signal p = None" "p_up p"
    using assms by (auto simp: redins_Start_def Let_def split: sum.splits prod.splits)
  then show ?thesis using NewHandler_ok NewHandler_new by (fastforce simp: new_life_def)
qed

definition process_ok :: "('t, 'w) process \<Rightarrow> bool" where
  "process_ok p \<longleftrightarrow> life_ok (p_life p) \<and>
     (p_signal p = None \<longrightarrow> lf_phase (p_life p) = Serving \<and> p_up p) \<and>
     (p_signal p \<noteq> None \<longrightarrow> \<not> p_up p) \<and>
     (p_exited p \<longrightarrow> p_signal p = Some SIGINT \<and> lf_phase (p_life p) = Down)"

lemma main_step_ok: "main_step lib path p p' \<Longrightarrow> process_ok p \<Longrightarrow> process_ok p'"
proof (induction rule: main_step.induct)
  case (goroutine p l)
  then show ?case using life_step_ok by (auto simp: process_ok_def)
next
  case (hangup p p')
  then show ?case using redins_Start_fresh [OF hangup.hyps(4)] by (auto simp: process_ok_def)
qed (auto simp: process_ok_def)

lemma main_reach_ok: "main_reach lib path p \<Longrightarrow> process_ok p"
proof (induction rule: main_reach.induct)
  case (started w p)
  then show ?case using redins_Start_fresh by (fastforce simp: process_ok_def)
qed (auto intro: main_step_ok)

section \<open>Properties\<close>


text \<open>
  Without a readable configuration file the process starts with the defaults, whatever redis and
  the other libraries do: one UDP listener on port 1053 of the loopback address, with the health check,
  the geographic databases and the rate limiter off.
\<close>

theorem Start_with_defaults:
  assumes "pl_open lib path = Inl err"
  shows "\<exists>p. redins_Start lib path redinsDefaultConfig w = Inr p \<and>
           p_servers p = [\<lparr>srv_Addr = ''127.0.0.1:1053'', srv_Net = ''udp'', srv_ReusePort = True,
             srv_TLSConfig = None\<rparr>] \<and>
           \<not> hc_Enable (h_healthcheck (p_handler p)) \<and> \<not> geo_Enable (h_geoip (p_handler p)) \<and>
           CanHandle rlib (p_limiter p) client = Return True"
proof -
  let ?cfg = "conf_Handler redinsDefaultConfig"
  obtain s where s: "NewHandler (pl_handler lib) ?cfg w = Inr (\<lparr>h_Config = ?cfg,
      h_geoip = NewGeoIp (lib_geo (pl_handler lib)) (cfg_GeoIp ?cfg),
      h_healthcheck = NewHealthcheck (cfg_HealthCheck ?cfg), h_lib = pl_handler lib\<rparr>, new_life s)"
    using NewHandler_returns [of "pl_handler lib" ?cfg w] by (elim exE)
  have servers: "NewServer (pl_tls lib) (conf_Server redinsDefaultConfig) =
      [\<lparr>srv_Addr = ''127.0.0.1:1053'', srv_Net = ''udp'', srv_ReusePort = True, srv_TLSConfig = None\<rparr>]"
    by (simp add: NewServer_def new_dns_Server_def redinsDefaultConfig_def Itoa_def nat_text.simps digit_char_def)
  obtain l where l: "NewRateLimiter (conf_RateLimit redinsDefaultConfig) = Inr l" "\<not> rlc_Enable (rl_Config l)"
    by (simp add: NewRateLimiter_def redinsDefaultConfig_def Let_def)
  show ?thesis
    using assms s servers l
    by (simp add: redins_Start_def LoadConfig_def Return_def Let_def CanHandle_def)
      (simp add: redinsDefaultConfig_def default_handler_config_def NewGeoIp_def NewHealthcheck_def)
qed

text \<open>
  A reload does not go back to the defaults: the decoder writes into the configuration that is
  loaded, so a setting that the file no longer mentions keeps the value an earlier version of the file
  gave it.
\<close>

theorem reload_keeps_settings:
  assumes "before path = Inr old" "after path = Inr new"
    and "\<And>c. setting (fst (decode new c)) = setting c"
  shows "\<exists>err c. Seq (LoadConfig before decode path) (LoadConfig after decode path) redinsDefaultConfig =
           Inr (err, c) \<and> setting c = setting (fst (decode old redinsDefaultConfig))"
  using assms(1,2) assms(3) [of "fst (decode old redinsDefaultConfig)"]
  by (auto simp: LoadConfig_def Seq_def Bind_def Gets_def Modify_def Return_def split: prod.splits)

section \<open>Witnesses\<close>

definition example_p_lib :: "((string \<times> string) list, string \<rightharpoonup> string) p_lib" where
  "example_p_lib = \<lparr>pl_open = (\<lambda>_. Inl ''no such file''), pl_decode = (\<lambda>_ c. (c, None)),
     pl_tls = \<lparr>tl_ReadFile = (\<lambda>_. Inl ''no such file''), tl_AppendCerts = (\<lambda>_. None),
       tl_LoadKeyPair = (\<lambda>_ _. Inl ''no such file'')\<rparr>, pl_handler = example_h_lib\<rparr>"

theorem Start_with_defaults_witness:
  "\<exists>p. redins_Start example_p_lib ''config.json'' redinsDefaultConfig Map.empty = Inr p \<and>
     length (p_servers p) = 1"
proof -
  have "pl_open example_p_lib ''config.json'' = Inl ''no such file''" by (simp add: example_p_lib_def)
  from Start_with_defaults [OF this, of Map.empty "undefined :: nat rl_lib" "[]"] show ?thesis by auto
qed

lemma example_started:
  "\<exists>p. redins_Start example_p_lib ''config.json'' redinsDefaultConfig Map.empty = Inr p"
proof -
  obtain h life where "NewHandler example_h_lib (conf_Handler redinsDefaultConfig) Map.empty = Inr (h, life)"
    using NewHandler_returns [of example_h_lib "conf_Handler redinsDefaultConfig" Map.empty] by (elim exE)
  moreover obtain l where "NewRateLimiter (conf_RateLimit redinsDefaultConfig) = Inr l"
    by (simp add: NewRateLimiter_def redinsDefaultConfig_def Let_def)
  ultimately show ?thesis
    by (simp add: redins_Start_def LoadConfig_def Return_def Let_def example_p_lib_def)
qed


definition set_burst :: "string \<Rightarrow> RedinsConfig \<Rightarrow> RedinsConfig \<times> go_error option" where
  "set_burst content c = (if content = ''burst''
     then c\<lparr>conf_RateLimit := (conf_RateLimit c)\<lparr>rlc_Burst := 99\<rparr>\<rparr> else c, None)"

theorem reload_keeps_settings_witness:
  "\<exists>err c. Seq (LoadConfig (\<lambda>_. Inr ''burst'') set_burst ''config.json'')
       (LoadConfig (\<lambda>_. Inr ''empty'') set_burst ''config.json'') redinsDefaultConfig = Inr (err, c) \<and>
     rlc_Burst (conf_RateLimit c) = 99 \<and> rlc_Burst (conf_RateLimit redinsDefaultConfig) = 10"
  using reload_keeps_settings [of "\<lambda>_. Inr ''burst''" "''config.json''" "''burst''" "\<lambda>_. Inr ''empty''" "''empty''"
      "\<lambda>c. rlc_Burst (conf_RateLimit c)" set_burst]
  by (auto simp: set_burst_def redinsDefaultConfig_def)

end
