(* ===== verification/Redins_Verify.thy ===== *)
theory Redins_Verify
  imports Redins_Main
begin

text \<open>
  \<open>Verify\<close> of \<open>redins.go\<close>, the check of a configuration file on the command line: what it prints, as a
  list of lines, with the network, the files and the services it tries as the fields of \<open>v_lib\<close>.
\<close>

section \<open>Output\<close>

datatype outcome = OK | FAIL go_error | WARN string

datatype line = Header string | Result string outcome

record 'w vstate =
  v_out :: "line list"
  v_world :: 'w

definition Println :: "string \<Rightarrow> ('w vstate, unit) go" where
  "Println msg = Modify (\<lambda>s. s\<lparr>v_out := v_out s @ [Header msg]\<rparr>)"

definition printResult :: "string \<Rightarrow> go_error option \<Rightarrow> ('w vstate, unit) go" where
  "printResult msg err = Modify (\<lambda>s. s\<lparr>v_out := v_out s @
     [Result msg (case err of None \<Rightarrow> OK | Some e \<Rightarrow> FAIL e)]\<rparr>)"

definition printWarning :: "string \<Rightarrow> string \<Rightarrow> ('w vstate, unit) go" where
  "printWarning msg warning = Modify (\<lambda>s. s\<lparr>v_out := v_out s @ [Result msg (WARN warning)]\<rparr>)"

section \<open>The world\<close>

text \<open>
  \<open>v_Capture\<close> gives the event identifier and what is then received from the channel; clients of
  services are handles.
\<close>

record 'w v_lib =
  v_ParseIP :: "string \<Rightarrow> net_IP"
  v_Ping :: "RedisConfig \<Rightarrow> 'w \<Rightarrow> go_error option \<times> 'w"
  v_GetConfig :: "RedisConfig \<Rightarrow> string \<Rightarrow> 'w \<Rightarrow> (go_error + string) \<times> 'w"
  v_OpenFile :: "string \<Rightarrow> 'w \<Rightarrow> go_error option \<times> 'w"
  v_ResolveUDPAddr :: "string \<Rightarrow> 'w \<Rightarrow> (go_error + string) \<times> 'w"
  v_DialUDP :: "string \<Rightarrow> 'w \<Rightarrow> go_error option \<times> 'w"
  v_time_Parse :: "string \<Rightarrow> string \<Rightarrow> int \<times> go_error option"
  v_time_Format :: "int \<Rightarrow> string \<Rightarrow> string"
  v_NewSyncProducer :: "KafkaConfig \<Rightarrow> 'w \<Rightarrow> (go_error + nat) \<times> 'w"
  v_SendMessages :: "nat \<Rightarrow> string \<Rightarrow> 'w \<Rightarrow> go_error option \<times> 'w"
  v_raven_New :: "string \<Rightarrow> 'w \<Rightarrow> (go_error + nat) \<times> 'w"
  v_Capture :: "nat \<Rightarrow> 'w \<Rightarrow> (string \<times> go_error option) \<times> 'w"
  v_syslog_Dial :: "string \<Rightarrow> string \<Rightarrow> 'w \<Rightarrow> (go_error + nat) \<times> 'w"
  v_syslog_Err :: "nat \<Rightarrow> 'w \<Rightarrow> go_error option \<times> 'w"
  v_ListenPacket :: "string \<Rightarrow> string \<Rightarrow> 'w \<Rightarrow> go_error option \<times> 'w"
  v_Listen :: "string \<Rightarrow> string \<Rightarrow> 'w \<Rightarrow> go_error option \<times> 'w"
  v_Exchange :: "UpstreamConnection \<Rightarrow> string \<Rightarrow> uint16 \<Rightarrow> 'w \<Rightarrow> (go_error + dns_Reply) \<times> 'w"
  v_Stat :: "string \<Rightarrow> 'w \<Rightarrow> go_error option \<times> 'w"
  v_mm_Open :: "string \<Rightarrow> 'w \<Rightarrow> (go_error + nat) \<times> 'w"
  v_mm_Lookup :: "nat \<Rightarrow> net_IP \<Rightarrow> 'w \<Rightarrow> go_error option \<times> 'w"

definition Try :: "('w \<Rightarrow> 'a \<times> 'w) \<Rightarrow> ('w vstate, 'a) go" where
  "Try f = Zoom v_world (\<lambda>w s. s\<lparr>v_world := w\<rparr>) (Extern f)"

text \<open>The error of a call that gives a value, followed by a call on the value if there was none.\<close>

definition Then_try ::
  "('w \<Rightarrow> (go_error + 'a) \<times> 'w) \<Rightarrow> ('a \<Rightarrow> 'w \<Rightarrow> go_error option \<times> 'w) \<Rightarrow>
     ('w vstate, go_error option) go" where
  "Then_try f g =
     Bind (Try f) (\<lambda>r. case r of Inl err \<Rightarrow> Return (Some err) | Inr a \<Rightarrow> Try (g a))"

section \<open>The checks\<close>

definition address_errors :: "'w v_lib \<Rightarrow> string \<Rightarrow> string \<Rightarrow> int \<Rightarrow> go_error option list" where
  "address_errors lib protocol ip port =
     [if protocol \<noteq> ''tcp'' \<and> protocol \<noteq> ''udp'' then Some ''invalid protocol'' else None,
      if v_ParseIP lib ip = None then Some ''invalid ip address'' else None,
      if port > 65535 \<or> port < 1 then Some ''invalid port number'' else None]"

definition checkAddress :: "'w v_lib \<Rightarrow> string \<Rightarrow> string \<Rightarrow> int \<Rightarrow> ('w vstate, unit) go" where
  "checkAddress lib protocol ip port =
     ForEach (zip [''checking protocol : '' @ protocol, ''checking ip address : '' @ ip,
                   ''checking port number : '' @ Itoa port] (address_errors lib protocol ip port))
       (\<lambda>(msg, err) _. printResult msg err) ()"

definition notify_error :: "string \<Rightarrow> go_error option" where
  "notify_error nkse =
     (if CHR ''K'' \<notin> set nkse then Some ''keyspace in not active''
      else if CHR ''A'' \<notin> set nkse \<and> CHR ''s'' \<notin> set nkse then Some ''A or s should be active''
      else None)"

definition checkRedis :: "'w v_lib \<Rightarrow> RedisConfig \<Rightarrow> ('w vstate, unit) go" where
  "checkRedis lib config =
     Seq (Println ''checking redis...'')
     (Bind (Try (v_Ping lib config)) (\<lambda>err.
      Seq (printResult (''checking whether '' @ rdc_Net config @ ''://'' @ rdc_Address config @
             '' is available'') err)
      (Bind (Try (v_GetConfig lib config ''notify-keyspace-events'')) (\<lambda>r.
       printResult ''checking notify-keyspace-events''
         (case r of Inl err \<Rightarrow> Some err | Inr nkse \<Rightarrow> notify_error nkse)))))"

definition log_errors :: "LogConfig \<Rightarrow> go_error option \<times> go_error option \<times> go_error option" where
  "log_errors config =
     (if log_Target config \<notin> {''stdout'', ''stderr'', ''file'', ''udp''}
      then Some (''invalid target : '' @ log_Target config) else None,
      if log_Level config \<notin> {''debug'', ''info'', ''warning'', ''error''}
      then Some (''invalid log level : '' @ log_Level config) else None,
      if log_Format config \<notin> {''text'', ''json'', ''capnp_request''}
      then Some (''invalid log format : '' @ log_Format config) else None)"

text \<open>The time format must survive printing and parsing a time.\<close>

definition time_format_error :: "'w v_lib \<Rightarrow> string \<Rightarrow> go_error option" where
  "time_format_error lib format =
     (let t1 = fst (v_time_Parse lib RFC3339 RFC3339);
          timeStr = v_time_Format lib t1 format
      in case v_time_Parse lib format timeStr of
           (_, Some err) \<Rightarrow> Some err
         | (t2, None) \<Rightarrow> if t2 \<noteq> t1 then Some ''invalid time format'' else None)"

text \<open>The services a log can be sent to.\<close>

definition checkKafka :: "'w v_lib \<Rightarrow> KafkaConfig \<Rightarrow> ('w vstate, unit) go" where
  "checkKafka lib kafka =
     (if \<not> kafka_Enable kafka then Return ()
      else Seq (Println (''checking kafka at  ['' @ join_with '' '' (kafka_Brokers kafka) @ '']''))
        (Bind (Then_try (v_NewSyncProducer lib kafka)
                 (\<lambda>producer. v_SendMessages lib producer (kafka_Topic kafka)))
           (printResult ''checking kafka'')))"

definition checkSentry :: "'w v_lib \<Rightarrow> SentryConfig \<Rightarrow> ('w vstate, unit) go" where
  "checkSentry lib sentry =
     (if \<not> sentry_Enable sentry then Return ()
      else Bind (Try (v_raven_New lib (sentry_DSN sentry))) (\<lambda>r.
           Bind (case r of
                   Inl err \<Rightarrow> Return (Some err)
                 | Inr client \<Rightarrow>
                     Bind (Try (v_Capture lib client)) (\<lambda>(eventID, received).
                     Return (if eventID \<noteq> [] then received else Some ''sentry test failed'')))
             (printResult (''checking sentry at '' @ sentry_DSN sentry))))"

definition checkSyslog :: "'w v_lib \<Rightarrow> SyslogConfig \<Rightarrow> ('w vstate, unit) go" where
  "checkSyslog lib syslog =
     (if \<not> syslog_Enable syslog then Return ()
      else Bind (Then_try (v_syslog_Dial lib (syslog_Protocol syslog) (syslog_Address syslog))
                   (v_syslog_Err lib))
             (printResult (''checking syslog at '' @ syslog_Address syslog)))"

definition checkLog :: "'w v_lib \<Rightarrow> LogConfig \<Rightarrow> ('w vstate, unit) go" where
  "checkLog lib config =
     (case log_errors config of (target_err, level_err, format_err) \<Rightarrow>
        Seq (Println ''checking log...'')
        (Seq (printResult (''checking target : '' @ log_Path config) target_err)
        (Seq (if log_Target config = ''file''
              then Bind (Try (v_OpenFile lib (log_Target config)))
                     (printResult (''checking file target : '' @ log_Path config))
              else Return ())
        (Seq (if log_Target config = ''udp''
              then Bind (Then_try (v_ResolveUDPAddr lib (log_Path config)) (v_DialUDP lib))
                     (printResult (''checking udp target : '' @ log_Target config))
              else Return ())
        (Seq (printResult (''checking log level : '' @ log_Level config) level_err)
        (Seq (printResult (''checking format : '' @ log_Format config) format_err)
        (Seq (printResult (''checking time format : '' @ log_TimeFormat config)
                (time_format_error lib (log_TimeFormat config)))
        (Seq (checkKafka lib (log_Kafka config))
        (Seq (checkSentry lib (log_Sentry config))
             (checkSyslog lib (log_Syslog config)))))))))))"

definition checkListener :: "'w v_lib \<Rightarrow> ServerConfig \<Rightarrow> ('w vstate, unit) go" where
  "checkListener lib server =
     Seq (checkAddress lib (sc_Protocol server) (sc_Ip server) (sc_Port server))
     (let msg = ''checking port number : '' @ Itoa (sc_Port server);
          address = sc_Ip server @ '':'' @ Itoa (sc_Port server)
      in Seq (if sc_Port server \<noteq> 53 then printWarning msg ''using non-standard port''
              else printResult msg None)
         (Bind (Try (if sc_Protocol server = ''udp'' then v_ListenPacket lib (sc_Protocol server) address
                     else v_Listen lib (sc_Protocol server) address))
           (printResult (''checking whether '' @ sc_Protocol server @ ''://'' @ address @
              '' is available''))))"

definition upstream_error :: "go_error + dns_Reply \<Rightarrow> go_error option" where
  "upstream_error r =
     (case r of
        Inl err \<Rightarrow> Some err
      | Inr resp \<Rightarrow>
          (case reply_Answer resp of
             [] \<Rightarrow> Some ''empty response''
           | a # _ \<Rightarrow>
               (case rr_Data a of
                  RA ip \<Rightarrow> if IP_String ip \<noteq> ''131.107.255.255'' then Some ''incorrect response'' else None
                | _ \<Rightarrow> Some ''bad response'')))"

definition checkUpstream :: "'w v_lib \<Rightarrow> UpstreamConfig \<Rightarrow> ('w vstate, unit) go" where
  "checkUpstream lib upstream =
     Seq (checkAddress lib (uc_Protocol upstream) (uc_Ip upstream) (uc_Port upstream))
     (let address = uc_Ip upstream @ '':'' @ Itoa (uc_Port upstream)
      in Bind (Try (v_Exchange lib \<lparr>conn_Net = uc_Protocol upstream,
                 conn_Timeout = uc_Timeout upstream * millisecond, conn_Str = address\<rparr>
                 ''dns.msftncsi.com.'' TypeA)) (\<lambda>r.
         printResult (''checking whether '' @ uc_Protocol upstream @ ''://'' @ address @
           '' is available'') (upstream_error r)))"

definition checkDb :: "'w v_lib \<Rightarrow> string \<Rightarrow> ('w vstate, unit) go" where
  "checkDb lib dbFile =
     Bind (Try (v_Stat lib dbFile)) (\<lambda>err.
     Seq (printResult (''checking file stat : '' @ dbFile) err)
     (if err \<noteq> None then Return ()
      else Bind (Try (v_mm_Open lib dbFile)) (\<lambda>r.
           case r of
             Inl err \<Rightarrow> printResult (''checking db : '' @ dbFile) (Some err)
           | Inr db \<Rightarrow>
               Seq (printResult (''checking db : '' @ dbFile) None)
               (Bind (Try (v_mm_Lookup lib db (v_ParseIP lib ''46.19.36.12'')))
                  (printResult ''checking db query results'')))))"

definition checkGeoIp :: "'w v_lib \<Rightarrow> GeoIpConfig \<Rightarrow> ('w vstate, unit) go" where
  "checkGeoIp lib geo =
     (if \<not> gc_Enable geo then Return ()
      else Seq (Println ''checking geoip...'')
             (ForEach [gc_CountryDB geo, gc_ASNDB geo] (\<lambda>dbFile _. checkDb lib dbFile) ()))"

definition Verify_config :: "'w v_lib \<Rightarrow> RedinsConfig \<Rightarrow> ('w vstate, unit) go" where
  "Verify_config lib config =
     Seq (Println ''checking listeners...'')
     (Seq (ForEach (conf_Server config) (\<lambda>server _. checkListener lib server) ())
     (Seq (Println ''checking upstreams...'')
     (Seq (ForEach (cfg_Upstream (conf_Handler config)) (\<lambda>upstream _. checkUpstream lib upstream) ())
     (Seq (checkRedis lib (cfg_Redis (conf_Handler config)))
     (Seq (checkGeoIp lib (cfg_GeoIp (conf_Handler config)))
     (Seq (if log_Enable (conf_ErrorLog config) then checkLog lib (conf_ErrorLog config)
           else Return ())
          (if log_Enable (cfg_Log (conf_Handler config)) then checkLog lib (cfg_Log (conf_Handler config))
           else Return ())))))))"

text \<open>\<open>Verify\<close>; \<open>defaults\<close> is the configuration \<open>redinsDefaultConfig\<close> points to.\<close>

definition Verify ::
  "'w v_lib \<Rightarrow> (string \<Rightarrow> go_error + string) \<Rightarrow>
     (string \<Rightarrow> RedinsConfig \<Rightarrow> RedinsConfig \<times> go_error option) \<Rightarrow> RedinsConfig \<Rightarrow> string \<Rightarrow>
     ('w vstate, unit) go" where
  "Verify lib open_file decode defaults configFile =
     Seq (Println ''Starting Config Verification'')
     (case LoadConfig open_file decode configFile defaults of
        Inl p \<Rightarrow> Panic p
      | Inr (err, config) \<Rightarrow>
          Seq (printResult (''loading config file : '' @ configFile) err) (Verify_config lib config))"

section \<open>What a clean report vouches for\<close>

definition clean :: "line list \<Rightarrow> bool" where
  "clean ls \<longleftrightarrow> list_all (\<lambda>l. case l of Result _ (FAIL _) \<Rightarrow> False | _ \<Rightarrow> True) ls"

text \<open>
  \<open>vouches P m\<close>: when the report is clean after \<open>m\<close>, it was clean before and \<open>P\<close> holds. The rules
  follow the structure of a check.
\<close>

definition vouches :: "bool \<Rightarrow> ('w vstate, 'a) go \<Rightarrow> bool" where
  "vouches P m \<longleftrightarrow> (\<forall>s. wp AnyPanic m (\<lambda>_ s'. clean (v_out s') \<longrightarrow> clean (v_out s) \<and> P) s)"

lemma vouchesD: "vouches P m \<Longrightarrow> wp AnyPanic m (\<lambda>_ s'. clean (v_out s') \<longrightarrow> clean (v_out s) \<and> P) s"
  by (simp add: vouches_def)

lemma vouches_mono: "vouches P m \<Longrightarrow> (P \<Longrightarrow> Q) \<Longrightarrow> vouches Q m"
  unfolding vouches_def by (blast intro: wp_strengthen)

lemma vouches_Bind:
  fixes m :: "('w vstate, 'a) go"
  assumes "vouches P m" "\<And>a. vouches Q (k a)"
  shows "vouches (P \<and> Q) (Bind m k)"
  unfolding vouches_def wp_Bind
proof (intro allI wp_strengthen [OF vouchesD [OF assms(1)]])
  fix s t :: "'w vstate" and a
  assume "clean (v_out t) \<longrightarrow> clean (v_out s) \<and> P"
  then show "wp AnyPanic (k a) (\<lambda>_ s'. clean (v_out s') \<longrightarrow> clean (v_out s) \<and> P \<and> Q) t"
    by (auto intro: wp_strengthen [OF vouchesD [OF assms(2)]])
qed

lemma vouches_Seq: "vouches P m \<Longrightarrow> vouches Q k \<Longrightarrow> vouches (P \<and> Q) (Seq m k)"
  unfolding Seq_def by (rule vouches_Bind)

text \<open>A step that shows nothing is skipped.\<close>

lemma vouches_Return: "vouches True (Return x)"
  by (simp add: vouches_def wp_rules)

lemma vouches_Try: "vouches True (Try f)"
  by (simp add: vouches_def Try_def wp_rules)

lemma vouches_Println: "vouches True (Println msg)"
  by (simp add: vouches_def Println_def wp_rules clean_def)

lemma vouches_printWarning: "vouches True (printWarning msg w)"
  by (simp add: vouches_def printWarning_def wp_rules clean_def)

lemma vouches_printResult: "vouches (err = None) (printResult msg err)"
  by (cases err) (simp_all add: vouches_def printResult_def wp_rules clean_def)

lemma vouches_if_True:
  "vouches True m \<Longrightarrow> vouches True k \<Longrightarrow> vouches True (if b then m else k)"
  by simp

lemma vouches_weaken:
  "vouches P m \<Longrightarrow> vouches True m"
  by (rule vouches_mono) simp_all

lemma vouches_Bind_True: "vouches True m \<Longrightarrow> (\<And>a. vouches True (k a)) \<Longrightarrow> vouches True (Bind m k)"
  using vouches_Bind [of True m True k] by simp

lemma vouches_Seq_True: "vouches True m \<Longrightarrow> vouches True k \<Longrightarrow> vouches True (Seq m k)"
  using vouches_Seq [of True m True k] by simp

lemma vouches_ForEach:
  assumes "\<And>x a. x \<in> set xs \<Longrightarrow> vouches (P x) (body x a)"
  shows "vouches (\<forall>x \<in> set xs. P x) (ForEach xs body acc)"
  using assms
proof (induction xs arbitrary: acc)
  case (Cons y ys acc)
  have "vouches (P y \<and> (\<forall>x \<in> set ys. P x)) (Bind (body y acc) (ForEach ys body))"
    by (rule vouches_Bind) (use Cons in simp_all)
  then show ?case by simp
qed (simp add: vouches_Return)

section \<open>The checks, one by one\<close>

definition address_ok :: "'w v_lib \<Rightarrow> string \<Rightarrow> string \<Rightarrow> int \<Rightarrow> bool" where
  "address_ok lib protocol ip port \<longleftrightarrow>
     protocol \<in> {''tcp'', ''udp''} \<and> v_ParseIP lib ip \<noteq> None \<and> 1 \<le> port \<and> port \<le> 65535"

lemma vouches_checkAddress:
  "vouches (address_ok lib protocol ip port) (checkAddress lib protocol ip port)"
  unfolding checkAddress_def
  by (rule vouches_mono [OF vouches_ForEach [where P = "\<lambda>(msg, err). err = None"]])
    (auto simp: address_errors_def address_ok_def intro: vouches_printResult split: if_splits)

lemma vouches_after_True: "vouches P m \<Longrightarrow> vouches True k \<Longrightarrow> vouches P (Seq m k)"
  using vouches_Seq [of P m True k] by simp

lemma vouches_before_True: "vouches True m \<Longrightarrow> vouches P k \<Longrightarrow> vouches P (Seq m k)"
  using vouches_Seq [of True m P k] by simp

lemma vouches_checkListener:
  "vouches (address_ok lib (sc_Protocol server) (sc_Ip server) (sc_Port server)) (checkListener lib server)"
  unfolding checkListener_def Let_def
  by (intro vouches_after_True vouches_checkAddress vouches_Seq_True vouches_Bind_True vouches_if_True
      vouches_Try vouches_printWarning vouches_weaken [OF vouches_printResult])

lemma vouches_checkUpstream:
  "vouches (address_ok lib (uc_Protocol u) (uc_Ip u) (uc_Port u)) (checkUpstream lib u)"
  unfolding checkUpstream_def Let_def
  by (intro vouches_after_True vouches_checkAddress vouches_Bind_True vouches_Try
      vouches_weaken [OF vouches_printResult])

text \<open>The rest of the report shows something too, but nothing that depends on the configuration alone.\<close>

lemma vouches_Then_try: "vouches True (Then_try f g)"
  unfolding Then_try_def
  by (rule vouches_Bind_True [OF vouches_Try]) (auto intro: vouches_Return vouches_Try split: sum.split)

lemmas vouches_steps = vouches_Return vouches_Try vouches_Println vouches_Then_try
  vouches_weaken [OF vouches_printResult]

definition log_ok_config :: "LogConfig \<Rightarrow> bool" where
  "log_ok_config config \<longleftrightarrow>
     log_Target config \<in> {''stdout'', ''stderr'', ''file'', ''udp''} \<and>
     log_Level config \<in> {''debug'', ''info'', ''warning'', ''error''} \<and>
     log_Format config \<in> {''text'', ''json'', ''capnp_request''}"

lemma vouches_services:
  "vouches True (checkKafka lib k)" "vouches True (checkSentry lib s)" "vouches True (checkSyslog lib l)"
  unfolding checkKafka_def checkSentry_def checkSyslog_def
  by (auto intro!: vouches_if_True vouches_Seq_True vouches_Bind_True vouches_steps split: sum.split prod.split)

lemma vouches_checkLog: "vouches (log_ok_config config) (checkLog lib config)"
proof -
  obtain a b c where e: "log_errors config = (a, b, c)" by (cases "log_errors config")
  have optional: "vouches True (if p then Bind m (printResult msg) else Return ())"
    if "vouches True m" for p and m :: "('a vstate, go_error option) go" and msg
    by (intro vouches_if_True vouches_Bind_True that vouches_steps)
  have "vouches (True \<and> a = None \<and> True \<and> True \<and> b = None \<and> c = None \<and>
      (time_format_error lib (log_TimeFormat config) = None) \<and> True \<and> True \<and> True) (checkLog lib config)"
    unfolding checkLog_def e prod.case
    by (intro vouches_Seq vouches_printResult vouches_Println vouches_services optional vouches_Try
        vouches_Then_try)
  then show ?thesis
    by (rule vouches_mono) (use e in \<open>auto simp: log_errors_def log_ok_config_def split: if_splits\<close>)
qed

lemma vouches_checkRedis: "vouches True (checkRedis lib config)"
  unfolding checkRedis_def by (intro vouches_Seq_True vouches_Bind_True vouches_steps)

lemma vouches_checkGeoIp: "vouches True (checkGeoIp lib geo)"
proof -
  have "vouches True (checkDb lib f)" for f
    unfolding checkDb_def
    by (auto intro!: vouches_Seq_True vouches_Bind_True vouches_if_True vouches_steps split: sum.split)
  then have dbs: "vouches True (ForEach fs (\<lambda>dbFile _. checkDb lib dbFile) ())" for fs
    by (intro vouches_weaken [OF vouches_ForEach [where P = "\<lambda>_. True"]])
  show ?thesis
    unfolding checkGeoIp_def by (intro vouches_if_True vouches_Seq_True vouches_steps dbs)
qed

lemma vouches_if_log:
  "vouches (log_Enable c \<longrightarrow> log_ok_config c) (if log_Enable c then checkLog lib c else Return ())"
  using vouches_checkLog [of c lib] by (simp add: vouches_Return)

section \<open>Properties\<close>


text \<open>A world in which everything the defaults ask for is available.\<close>

definition example_v_lib :: "nat v_lib" where
  "example_v_lib = \<lparr>v_ParseIP = (\<lambda>_. Some [127, 0, 0, 1]), v_Ping = (\<lambda>_. Pair None),
     v_GetConfig = (\<lambda>_ _. Pair (Inr ''KA'')), v_OpenFile = (\<lambda>_. Pair None),
     v_ResolveUDPAddr = (\<lambda>a. Pair (Inr a)), v_DialUDP = (\<lambda>_. Pair None),
     v_time_Parse = (\<lambda>_ _. (0, None)), v_time_Format = (\<lambda>_ f. f),
     v_NewSyncProducer = (\<lambda>_. Pair (Inr 0)), v_SendMessages = (\<lambda>_ _. Pair None),
     v_raven_New = (\<lambda>_. Pair (Inr 0)), v_Capture = (\<lambda>_. Pair (''id'', None)),
     v_syslog_Dial = (\<lambda>_ _. Pair (Inr 0)), v_syslog_Err = (\<lambda>_. Pair None),
     v_ListenPacket = (\<lambda>_ _. Pair None), v_Listen = (\<lambda>_ _. Pair None),
     v_Exchange = (\<lambda>_ _ _. Pair (Inr \<lparr>reply_Rcode = 0, reply_Answer = [RR \<lparr>hdr_Name = ''dns.msftncsi.com.'',
       hdr_Rrtype = TypeA, hdr_Class = ClassINET, hdr_Ttl = 60\<rparr> (RA (Some [131, 107, 255, 255]))]\<rparr>)),
     v_Stat = (\<lambda>_. Pair None), v_mm_Open = (\<lambda>_. Pair (Inr 0)), v_mm_Lookup = (\<lambda>_ _. Pair None)\<rparr>"

lemma example_upstream_reply:
  "upstream_error (Inr \<lparr>reply_Rcode = 0, reply_Answer = [RR hdr (RA (Some [131, 107, 255, 255]))]\<rparr>) = None"
  by (simp add: upstream_error_def IP_String_def v4_in_v6_def ipv4_text_def Itoa_def nat_text.simps digit_char_def)


end
