(* ===== verification/Command_Line.thy ===== *)
theory Command_Line
  imports Redins_Verify
begin

text \<open>
  The command line of the server (\<open>main\<close> of \<open>redins.go\<close>): the flags as Go's package \<open>flag\<close> parses them, and
  the three things the program does: check a configuration, write a template, or serve.
\<close>

section \<open>Flags\<close>

text \<open>A flag has a value of its type; the default is the value before parsing.\<close>

datatype flag_value = is_FString: FString string | FBool bool

datatype flag_error =
  BadSyntax string | NotDefined string | NeedsArgument string | InvalidValue string string | HelpWanted

text \<open>\<open>strconv.ParseBool\<close>.\<close>

definition ParseBool :: "string \<Rightarrow> bool option" where
  "ParseBool s =
     (if s \<in> {''1'', ''t'', ''T'', ''true'', ''TRUE'', ''True''} then Some True
      else if s \<in> {''0'', ''f'', ''F'', ''false'', ''FALSE'', ''False''} then Some False
      else None)"

text \<open>\<open>name=value\<close>, split at the first equals sign.\<close>

definition split_value :: "string \<Rightarrow> string \<times> string option" where
  "split_value s =
     (case dropWhile (\<lambda>c. c \<noteq> CHR ''='') s of
        [] \<Rightarrow> (s, None)
      | _ # v \<Rightarrow> (takeWhile (\<lambda>c. c \<noteq> CHR ''='') s, Some v))"

text \<open>
  One flag, \<open>FlagSet.parseOne\<close>: the end of the flags with the arguments left, an error, or the new value of
  a flag. \<open>-name\<close> and \<open>--name\<close> mean the same, \<open>--\<close> ends the flags, and so does the first argument that is no
  flag; a flag that is not boolean takes the next argument when it has no value.
\<close>

datatype one_flag = Finished "string list" | Refused flag_error | SetFlag string flag_value "string list"

definition set_flag :: "(string \<rightharpoonup> flag_value) \<Rightarrow> string \<Rightarrow> string option \<Rightarrow> string list \<Rightarrow> one_flag" where
  "set_flag vals name given args =
     (case vals name of
        None \<Rightarrow> Refused (if name = ''help'' \<or> name = ''h'' then HelpWanted else NotDefined name)
      | Some (FBool _) \<Rightarrow>
          (case given of
             None \<Rightarrow> SetFlag name (FBool True) args
           | Some v \<Rightarrow>
               (case ParseBool v of
                  None \<Rightarrow> Refused (InvalidValue name v)
                | Some b \<Rightarrow> SetFlag name (FBool b) args))
      | Some (FString _) \<Rightarrow>
          (case given of
             Some v \<Rightarrow> SetFlag name (FString v) args
           | None \<Rightarrow>
               (case args of
                  [] \<Rightarrow> Refused (NeedsArgument name)
                | v # rest \<Rightarrow> SetFlag name (FString v) rest)))"

definition parse_one :: "(string \<rightharpoonup> flag_value) \<Rightarrow> string list \<Rightarrow> one_flag" where
  "parse_one vals arguments =
     (case arguments of
        [] \<Rightarrow> Finished []
      | s # args \<Rightarrow>
          if length s < 2 \<or> hd s \<noteq> CHR ''-'' then Finished (s # args)
          else if s = ''--'' then Finished args
          else let body = (if s ! 1 = CHR ''-'' then drop 2 s else drop 1 s)
               in if body = [] \<or> hd body = CHR ''-'' \<or> hd body = CHR ''='' then Refused (BadSyntax s)
                  else set_flag vals (fst (split_value body)) (snd (split_value body)) args)"

lemma parse_one_set:
  assumes "parse_one vals args = SetFlag name v rest"
  shows "length rest < length args \<and> suffix rest args \<and> map_option is_FString (vals name) = Some (is_FString v)"
proof -
  have "length rest \<le> length args' \<and> suffix rest args' \<and> map_option is_FString (vals name) = Some (is_FString v)"
    if "set_flag vals n given args' = SetFlag name v rest" for n given args'
    using that
    by (auto simp: set_flag_def suffix_Cons split: option.splits flag_value.splits list.splits if_splits)
  then show ?thesis
    using assms by (force simp: parse_one_def Let_def suffix_Cons split: list.splits if_splits)
qed

text \<open>
  \<open>flag.Parse\<close>: the values of the flags, the names of those that were set (what \<open>flag.Visit\<close> visits)
  and the arguments left.
\<close>

function parse_flags :: "(string \<rightharpoonup> flag_value) \<Rightarrow> string set \<Rightarrow> string list \<Rightarrow>
    flag_error + (string \<rightharpoonup> flag_value) \<times> string set \<times> string list" where
  "parse_flags vals seen args =
     (case parse_one vals args of
        Finished rest \<Rightarrow> Inr (vals, seen, rest)
      | Refused err \<Rightarrow> Inl err
      | SetFlag name v rest \<Rightarrow> parse_flags (vals(name \<mapsto> v)) (insert name seen) rest)"
  by pat_completeness auto
termination
  by (relation "measure (\<lambda>(vals, seen, args). length args)") (auto dest: parse_one_set)

declare parse_flags.simps [simp del]

section \<open>The main function\<close>

text \<open>The three flags of the server with their defaults.\<close>

definition main_flags :: "string \<rightharpoonup> flag_value" where
  "main_flags = [''c'' \<mapsto> FString ''config.json'', ''t'' \<mapsto> FBool False,
     ''g'' \<mapsto> FString ''template-config.json'']"

definition string_flag :: "(string \<rightharpoonup> flag_value) \<Rightarrow> string \<Rightarrow> string" where
  "string_flag vals name = (case vals name of Some (FString s) \<Rightarrow> s | _ \<Rightarrow> [])"

definition bool_flag :: "(string \<rightharpoonup> flag_value) \<Rightarrow> string \<Rightarrow> bool" where
  "bool_flag vals name = (case vals name of Some (FBool b) \<Rightarrow> b | _ \<Rightarrow> False)"

text \<open>
  What the program does with its arguments. A flag error ends the process with status 2, a request
  for help with status 0.
\<close>

datatype main_mode = ExitStatus nat | VerifyConfig string | WriteTemplate string | Serve string

definition main_mode :: "string list \<Rightarrow> main_mode" where
  "main_mode args =
     (case parse_flags main_flags {} args of
        Inl err \<Rightarrow> ExitStatus (if err = HelpWanted then 0 else 2)
      | Inr (vals, flagset, _) \<Rightarrow>
          (let configFile = string_flag vals ''c''
           in if bool_flag vals ''t'' then VerifyConfig configFile
              else if ''g'' \<in> flagset then WriteTemplate (string_flag vals ''g'')
              else Serve configFile))"

text \<open>
  Writing the template: the defaults, marshalled by \<open>encode\<close>, to a file; an error is printed and dropped.
\<close>

definition write_template ::
  "(RedinsConfig \<Rightarrow> go_error + string) \<Rightarrow> (string \<Rightarrow> string \<Rightarrow> 'w \<Rightarrow> go_error option \<times> 'w) \<Rightarrow>
     RedinsConfig \<Rightarrow> string \<Rightarrow> ('w vstate, unit) go" where
  "write_template encode write_file config path =
     (case encode config of
        Inl err \<Rightarrow> Println (''cannot unmarshal template config :  '' @ err)
      | Inr data \<Rightarrow>
          Bind (Try (write_file path data)) (\<lambda>err.
          case err of
            None \<Rightarrow> Return ()
          | Some e \<Rightarrow>
              Println (''cannot save template config to file '' @ path @ '' : '' @ e)))"

text \<open>
  \<open>main\<close> up to \<open>Start\<close>: \<open>Some path\<close> when it goes on to serve with that configuration file, from where
  \<open>redins_Start\<close> and the loop \<open>main_step\<close> continue.
\<close>

definition main_front ::
  "'w v_lib \<Rightarrow> (string \<Rightarrow> go_error + string) \<Rightarrow>
     (string \<Rightarrow> RedinsConfig \<Rightarrow> RedinsConfig \<times> go_error option) \<Rightarrow> (RedinsConfig \<Rightarrow> go_error + string) \<Rightarrow>
     (string \<Rightarrow> string \<Rightarrow> 'w \<Rightarrow> go_error option \<times> 'w) \<Rightarrow> string list \<Rightarrow> ('w vstate, string option) go" where
  "main_front lib open_file decode encode write_file args =
     (case main_mode args of
        ExitStatus n \<Rightarrow> Return None
      | VerifyConfig path \<Rightarrow> Seq (Verify lib open_file decode redinsDefaultConfig path) (Return None)
      | WriteTemplate path \<Rightarrow> Seq (write_template encode write_file redinsDefaultConfig path) (Return None)
      | Serve path \<Rightarrow> Return (Some path))"

section \<open>What the flags mean\<close>

text \<open>
  Parsing changes neither which flags there are nor their types, and a flag that is not given keeps its
  default.
\<close>

lemma parse_flags_facts:
  assumes "parse_flags vals seen args = Inr (vals', seen', rest)"
  shows "map_option is_FString \<circ> vals' = map_option is_FString \<circ> vals \<and> seen \<subseteq> seen' \<and>
    suffix rest args \<and> (\<forall>n. n \<notin> seen' \<longrightarrow> vals' n = vals n)"
  using assms
proof (induction vals seen args rule: parse_flags.induct)
  case (1 vals seen args)
  show ?case
  proof (cases "parse_one vals args")
    case (SetFlag name v rest')
    note one = parse_one_set [OF SetFlag]
    have "parse_flags (vals(name \<mapsto> v)) (insert name seen) rest' = Inr (vals', seen', rest)"
      using 1(2) SetFlag by (simp add: parse_flags.simps [of vals seen args])
    note facts = 1(1) [OF SetFlag this]
    have "map_option is_FString \<circ> vals(name \<mapsto> v) = map_option is_FString \<circ> vals"
      using one by (auto simp: fun_eq_iff)
    with facts have "map_option is_FString \<circ> vals' = map_option is_FString \<circ> vals" by (elim conjE) (rule trans)
    moreover have "suffix rest args" using one facts suffix_order.trans by blast
    moreover have "vals' n = vals n" if "n \<notin> seen'" for n
      using facts that by (metis fun_upd_other insert_subset)
    ultimately show ?thesis using facts by blast
  qed (use 1(2) in \<open>auto simp: parse_flags.simps [of vals seen args] parse_one_def Let_def suffix_Cons
      set_flag_def split: list.splits if_splits option.splits flag_value.splits\<close>)
qed

text \<open>
  The program checks a configuration exactly when \<open>-t\<close> is on, and otherwise writes a template exactly when
  \<open>-g\<close> was given; a path that was not given is its default.
\<close>

lemma main_mode_paths:
  assumes "parse_flags main_flags {} args = Inr (vals, flagset, rest)"
  shows "\<exists>c g t. vals ''c'' = Some (FString c) \<and> vals ''g'' = Some (FString g) \<and> vals ''t'' = Some (FBool t) \<and>
    (''c'' \<notin> flagset \<longrightarrow> c = ''config.json'') \<and> (''t'' \<notin> flagset \<longrightarrow> \<not> t) \<and>
    main_mode args = (if t then VerifyConfig c else if ''g'' \<in> flagset then WriteTemplate g else Serve c)"
proof -
  note facts = parse_flags_facts [OF assms]
  have kinds: "map_option is_FString (vals n) = map_option is_FString (main_flags n)" for n
    using facts by (simp add: fun_eq_iff)
  obtain c g t where "vals ''c'' = Some (FString c)" "vals ''g'' = Some (FString g)" "vals ''t'' = Some (FBool t)"
    using kinds [of "''c''"] kinds [of "''g''"] kinds [of "''t''"]
    by (auto simp: main_flags_def) (metis flag_value.collapse(1) flag_value.disc(1) flag_value.exhaust_disc flag_value.exhaust is_FString_def)
  then show ?thesis
    using facts assms
    by (auto simp: main_mode_def main_flags_def string_flag_def bool_flag_def)
qed

text \<open>Without arguments the program serves \<open>config.json\<close>; \<open>-t\<close> wins over \<open>-g\<close>, and \<open>-t=false\<close> undoes it.\<close>

lemma main_mode_examples:
  "main_mode [] = Serve ''config.json''"
  "main_mode [''-c'', ''a.json''] = Serve ''a.json''"
  "main_mode [''--c=a=b.json'', ''-t''] = VerifyConfig ''a=b.json''"
  "main_mode [''-g'', ''t.json'', ''-t''] = VerifyConfig ''config.json''"
  "main_mode [''-g'', ''t.json'', ''-t'', ''-t=false''] = WriteTemplate ''t.json''"
  "main_mode [''-g''] = ExitStatus 2" "main_mode [''-x''] = ExitStatus 2" "main_mode [''-h''] = ExitStatus 0"
  "main_mode [''serve'', ''-t''] = Serve ''config.json''"
  by (simp_all add: main_mode_def main_flags_def split_value_def string_flag_def bool_flag_def ParseBool_def
      parse_flags.simps parse_one_def set_flag_def)

text \<open>The program serves exactly in the last case, and then nothing was printed or written before.\<close>

lemma main_front_serves:
  "wp AnyPanic (main_front lib open_file decode encode write_file args) (\<lambda>r s'. case r of
     None \<Rightarrow> (\<forall>path. main_mode args \<noteq> Serve path) | Some path \<Rightarrow> main_mode args = Serve path \<and> s' = s) s"
  by (auto simp: main_front_def wp_rules split: main_mode.split intro: wp_strengthen [OF wp_triv])

end
