(* ===== verification/Limiter_Race.thy ===== *)
theory Limiter_Race
  imports Rate_Limiter
begin

text \<open>
  \<open>CanHandle\<close> of \<open>handler/limiter.go\<close> under concurrency: many requests of one client at once, each first
  looking for the bucket in the cache and then, in a second step, updating it under its mutex or, when
  it was not found, storing a new one. Buckets are objects on a heap and the cache holds a pointer, so
  a request goes on with the bucket it found even if the cache was given another one meanwhile.
\<close>

section \<open>Interleaved requests\<close>

datatype thread = Idle | Got "nat option" | Done bool

text \<open>
  The heap of buckets with its next free address, the cache entry of the client with its expiry, the
  clock, the requests, and how many were accepted.
\<close>

record shared =
  sh_heap :: "nat \<Rightarrow> Limiter"
  sh_next :: nat
  sh_entry :: "(nat \<times> int) option"
  sh_clock :: int
  sh_threads :: "nat \<Rightarrow> thread"
  sh_accepted :: nat

text \<open>\<open>Limiters.Get\<close>: a pointer, unless there is none or it has expired.\<close>

definition lookup :: "shared \<Rightarrow> nat option" where
  "lookup s = (case sh_entry s of None \<Rightarrow> None | Some (p, expiry) \<Rightarrow> if expiry < sh_clock s then None else Some p)"

definition decide :: "nat \<Rightarrow> bool \<Rightarrow> nat \<Rightarrow> Limiter \<Rightarrow> shared \<Rightarrow> shared" where
  "decide t res p l s = s\<lparr>sh_heap := (sh_heap s)(p := l), sh_entry := Some (p, sh_clock s + minute),
     sh_threads := (sh_threads s)(t := Done res), sh_accepted := sh_accepted s + (if res then 1 else 0)\<rparr>"

inductive race_step :: "RateLimiter \<Rightarrow> shared \<Rightarrow> shared \<Rightarrow> bool" for rl where
  tick: "0 \<le> d \<Longrightarrow> race_step rl s (s\<lparr>sh_clock := sh_clock s + d\<rparr>)"
| expire: "sh_entry s = Some (p, expiry) \<Longrightarrow> expiry < sh_clock s \<Longrightarrow> race_step rl s (s\<lparr>sh_entry := None\<rparr>)"
| arrive: "sh_threads s t = Done res \<Longrightarrow> race_step rl s (s\<lparr>sh_threads := (sh_threads s)(t := Idle)\<rparr>)"
| look: "sh_threads s t = Idle \<Longrightarrow> race_step rl s (s\<lparr>sh_threads := (sh_threads s)(t := Got (lookup s))\<rparr>)"
| update: "sh_threads s t = Got (Some p) \<Longrightarrow>
     limiter_update rl (sh_heap s p) (sh_clock s) (sh_clock s) = (res, l) \<Longrightarrow>
     race_step rl s (decide t res p l s)"
| create: "sh_threads s t = Got None \<Longrightarrow>
     race_step rl s ((decide t True (sh_next s) \<lparr>lim_Size = rl_TimeStep rl, lim_LastUpdate = sh_clock s\<rparr> s)
       \<lparr>sh_next := sh_next s + 1\<rparr>)"

definition fresh_shared :: "int \<Rightarrow> shared" where
  "fresh_shared t0 = \<lparr>sh_heap = (\<lambda>_. \<lparr>lim_Size = 0, lim_LastUpdate = 0\<rparr>), sh_next = 0, sh_entry = None,
     sh_clock = t0, sh_threads = (\<lambda>_. Idle), sh_accepted = 0\<rparr>"

section \<open>A race at the first requests\<close>

text \<open>
  Requests that all look before the first bucket is stored are all accepted, at one instant and
  whatever the burst: each stores a bucket of its own with one time step in it.
\<close>

lemma all_look:
  "(race_step rl)\<^sup>*\<^sup>* (fresh_shared t0)
     ((fresh_shared t0)\<lparr>sh_threads := (\<lambda>t. if t < n then Got None else Idle)\<rparr>)"
proof (induction n)
  case 0
  then show ?case by (simp add: fresh_shared_def)
next
  case (Suc n)
  let ?s = "(fresh_shared t0)\<lparr>sh_threads := (\<lambda>t. if t < n then Got None else Idle)\<rparr>"
  have "race_step rl ?s (?s\<lparr>sh_threads := (sh_threads ?s)(n := Got (lookup ?s))\<rparr>)"
    by (rule look) simp
  moreover have "(sh_threads ?s)(n := Got (lookup ?s)) = (\<lambda>t. if t < Suc n then Got None else Idle)"
    by (auto simp: lookup_def fresh_shared_def fun_eq_iff)
  ultimately have "race_step rl ?s ((fresh_shared t0)\<lparr>sh_threads := (\<lambda>t. if t < Suc n then Got None else Idle)\<rparr>)"
    by simp
  with Suc show ?case by (rule rtranclp.rtrancl_into_rtrancl)
qed

lemma all_create:
  assumes "\<forall>t<n. sh_threads s t = Got None"
  shows "\<exists>s'. (race_step rl)\<^sup>*\<^sup>* s s' \<and> sh_accepted s' = sh_accepted s + n \<and> sh_clock s' = sh_clock s"
  using assms
proof (induction n arbitrary: s)
  case (Suc n)
  let ?s = "(decide n True (sh_next s) \<lparr>lim_Size = rl_TimeStep rl, lim_LastUpdate = sh_clock s\<rparr> s)\<lparr>sh_next := sh_next s + 1\<rparr>"
  have step: "race_step rl s ?s" using Suc.prems by (intro create) simp
  obtain s' where "(race_step rl)\<^sup>*\<^sup>* ?s s'" "sh_accepted s' = sh_accepted ?s + n" "sh_clock s' = sh_clock ?s"
    using Suc.IH [of ?s] Suc.prems by (auto simp: decide_def)
  then show ?case using converse_rtranclp_into_rtranclp [of "race_step rl", OF step]
    by (auto simp: decide_def)
qed auto

lemma first_requests_race:
  "\<exists>s. (race_step rl)\<^sup>*\<^sup>* (fresh_shared t0) s \<and> sh_accepted s = n \<and> sh_clock s = t0"
proof -
  let ?s = "(fresh_shared t0)\<lparr>sh_threads := (\<lambda>t. if t < n then Got None else Idle)\<rparr>"
  obtain s where s: "(race_step rl)\<^sup>*\<^sup>* ?s s" "sh_accepted s = sh_accepted ?s + n" "sh_clock s = sh_clock ?s"
    using all_create [of n ?s rl] by auto
  from rtranclp_trans [OF all_look s(1)] s(2,3) show ?thesis by (auto simp: fresh_shared_def)
qed

section \<open>Concurrent requests for a bucket\<close>

text \<open>
  As long as every request finds the bucket, however the requests are interleaved, the bucket accounts
  for all of them: all work on the bucket \<open>p\<close> the cache holds, and the time steps accepted since \<open>t0\<close>
  beyond the \<open>n0\<close> accepted before are still in it or have run out.
\<close>

definition race_inv :: "RateLimiter \<Rightarrow> nat \<Rightarrow> int \<Rightarrow> nat \<Rightarrow> shared \<Rightarrow> bool" where
  "race_inv rl p t0 n0 s \<longleftrightarrow>
     (\<exists>expiry. sh_entry s = Some (p, expiry)) \<and>
     (\<forall>t q. sh_threads s t = Got q \<longrightarrow> q = Some p) \<and>
     t0 \<le> lim_LastUpdate (sh_heap s p) \<and> lim_LastUpdate (sh_heap s p) \<le> sh_clock s \<and> n0 \<le> sh_accepted s \<and>
     0 \<le> lim_Size (sh_heap s p) \<and> lim_Size (sh_heap s p) \<le> rl_MaxTime rl + rl_TimeStep rl \<and>
     int (sh_accepted s - n0) * rl_TimeStep rl \<le>
       lim_Size (sh_heap s p) + (lim_LastUpdate (sh_heap s p) - t0)"

text \<open>A step in which nobody misses the bucket.\<close>

definition found :: "shared \<Rightarrow> bool" where
  "found s \<longleftrightarrow> (\<exists>p. lookup s = Some p)"

definition hit_step :: "RateLimiter \<Rightarrow> shared \<Rightarrow> shared \<Rightarrow> bool" where
  "hit_step rl s s' \<longleftrightarrow> race_step rl s s' \<and> found s \<and> found s'"

lemma found_entry: "found s \<longleftrightarrow> (\<exists>p expiry. sh_entry s = Some (p, expiry) \<and> sh_clock s \<le> expiry)"
  by (auto simp: found_def lookup_def not_less split: option.splits if_splits)

lemma race_inv_update:
  assumes "0 \<le> rl_TimeStep rl" "0 \<le> rl_MaxTime rl" "race_inv rl p t0 n0 s" "sh_threads s t = Got (Some p)"
    and upd: "limiter_update rl (sh_heap s p) (sh_clock s) (sh_clock s) = (res, l)"
  shows "race_inv rl p t0 n0 (decide t res p l s)"
proof -
  let ?n = "sh_accepted s - n0"
  have inv: "t0 \<le> lim_LastUpdate (sh_heap s p)" "lim_LastUpdate (sh_heap s p) \<le> sh_clock s" "n0 \<le> sh_accepted s"
    "0 \<le> lim_Size (sh_heap s p)" "lim_Size (sh_heap s p) \<le> rl_MaxTime rl + rl_TimeStep rl"
    "int ?n * rl_TimeStep rl \<le> lim_Size (sh_heap s p) + (lim_LastUpdate (sh_heap s p) - t0)"
    "\<forall>t q. sh_threads s t = Got q \<longrightarrow> q = Some p"
    using assms(3) by (auto simp: race_inv_def)
  have "t0 \<le> sh_clock s" using inv(1,2) by simp
  from limiter_update_inv [OF upd inv(2) order_refl assms(1,2) inv(4,5) disjI2 this, of ?n] inv(1,6)
  have "lim_LastUpdate l = sh_clock s" "0 \<le> lim_Size l" "lim_Size l \<le> rl_MaxTime rl + rl_TimeStep rl"
    "int (if res then Suc ?n else ?n) * rl_TimeStep rl \<le> lim_Size l + (sh_clock s - t0)"
    by auto
  then show ?thesis
    using inv(1-3,7) by (auto simp: race_inv_def decide_def Suc_diff_le algebra_simps)
qed

lemma race_inv_step:
  assumes "0 \<le> rl_TimeStep rl" "0 \<le> rl_MaxTime rl" "race_inv rl p t0 n0 s" "hit_step rl s s'"
  shows "race_inv rl p t0 n0 s'"
proof -
  have step: "race_step rl s s'" and found: "found s" "found s'" using assms(4) by (auto simp: hit_step_def)
  from step show ?thesis
  proof cases
    case (update t q res l)
    then have "sh_threads s t = Got (Some p)" "q = p" using assms(3) by (auto simp: race_inv_def)
    with update race_inv_update [OF assms(1-3)] show ?thesis by simp
  next
    case (look t)
    have "lookup s = Some p" using found(1) assms(3) by (auto simp: found_def lookup_def race_inv_def split: if_splits)
    with look assms(3) show ?thesis by (auto simp: race_inv_def)
  next
    case (create t)
    then show ?thesis using assms(3) by (auto simp: race_inv_def)
  next
    case (expire q expiry)
    then show ?thesis using found(2) by (simp add: found_entry)
  qed (use assms(3) in \<open>auto simp: race_inv_def\<close>)
qed


text \<open>
  C14. Concurrent requests cannot overrun a bucket: whatever the interleaving of the looking and the
  updating of any number of requests, while each of them finds the bucket of the client in the cache,
  the number accepted since the bucket was created stays within the burst plus one plus the elapsed
  time divided by the time step. (Requests that all miss the bucket are not held back: see
  \<open>first_requests_race\<close>.)
\<close>

theorem concurrent_rate_limit:
  assumes "NewRateLimiter config = Inr rl" "0 < rlc_Rate config" "0 \<le> rlc_Burst config"
    and created: "s = (decide t True p \<lparr>lim_Size = rl_TimeStep rl, lim_LastUpdate = sh_clock s0\<rparr> s0)\<lparr>sh_next := k\<rparr>"
    and alone: "\<forall>u q. sh_threads s u \<noteq> Got q"
    and run: "(hit_step rl)\<^sup>*\<^sup>* s s'"
  shows "int (sh_accepted s' - sh_accepted s0) * rl_TimeStep rl \<le>
    (rlc_Burst config + 1) * rl_TimeStep rl + (sh_clock s' - sh_clock s0)"
proof -
  note rl = NewRateLimiter_steps [OF assms(1,2)]
  have pos: "0 \<le> rl_TimeStep rl" "0 \<le> rl_MaxTime rl" using rl assms(3) by auto
  have start: "race_inv rl p (sh_clock s0) (sh_accepted s0) s"
    using pos alone by (auto simp: race_inv_def created decide_def)
  have "race_inv rl p (sh_clock s0) (sh_accepted s0) s'"
    using run by induction (use start race_inv_step [OF pos] in blast)+
  then show ?thesis by (auto simp: race_inv_def rl(2) algebra_simps)
qed

text \<open>Two requests that come after the first one, both looking before either is decided.\<close>

lemma two_more_requests:
  assumes rl: "NewRateLimiter example_rl_config = Inr rl"
  shows "\<exists>s s'. s = (decide 0 True 0 \<lparr>lim_Size = rl_TimeStep rl, lim_LastUpdate = 0\<rparr> (fresh_shared 0))\<lparr>sh_next := 1\<rparr> \<and>
    (hit_step rl)\<^sup>*\<^sup>* s s' \<and> sh_accepted s' = 3 \<and> sh_clock s' = 0"
proof -
  define s where "s = (decide 0 True 0 \<lparr>lim_Size = rl_TimeStep rl, lim_LastUpdate = 0\<rparr> (fresh_shared 0))\<lparr>sh_next := 1\<rparr>"
  define s1 where "s1 = s\<lparr>sh_threads := (sh_threads s)(1 := Got (lookup s))\<rparr>"
  define s2 where "s2 = s1\<lparr>sh_threads := (sh_threads s1)(2 := Got (lookup s1))\<rparr>"
  define u1 where "u1 = limiter_update rl (sh_heap s2 0) (sh_clock s2) (sh_clock s2)"
  define s3 where "s3 = decide 1 (fst u1) 0 (snd u1) s2"
  define u2 where "u2 = limiter_update rl (sh_heap s3 0) (sh_clock s3) (sh_clock s3)"
  define s4 where "s4 = decide 2 (fst u2) 0 (snd u2) s3"
  have step: "rl_TimeStep rl = 1000000000" "rl_MaxTime rl = 10000000000"
    using rl by (auto simp: NewRateLimiter_def example_rl_config_def Let_def go_div_pos durations)
  note defs = s_def s1_def s2_def s3_def s4_def u1_def u2_def decide_def fresh_shared_def lookup_def
    limiter_update_def Let_def durations step
  have "race_step rl s s1" unfolding s1_def by (rule look) (simp add: defs)
  moreover have "race_step rl s1 s2" unfolding s2_def by (rule look) (simp add: defs)
  moreover have "race_step rl s2 s3" unfolding s3_def by (rule update) (simp_all add: defs)
  moreover have "race_step rl s3 s4" unfolding s4_def by (rule update) (simp_all add: defs)
  moreover have "found s" "found s1" "found s2" "found s3" "found s4" by (simp_all add: found_entry defs)
  ultimately have "hit_step rl s s1" "hit_step rl s1 s2" "hit_step rl s2 s3" "hit_step rl s3 s4"
    by (simp_all add: hit_step_def)
  then have "(hit_step rl)\<^sup>*\<^sup>* s s4" by (meson converse_rtranclp_into_rtranclp rtranclp.rtrancl_refl)
  moreover have "sh_accepted s4 = 3" "sh_clock s4 = 0" by (simp_all add: defs)
  ultimately show ?thesis using s_def by blast
qed

theorem concurrent_rate_limit_witness:
  "\<exists>rl s s'. NewRateLimiter example_rl_config = Inr rl \<and> (hit_step rl)\<^sup>*\<^sup>* s s' \<and> sh_accepted s' = 3 \<and>
     int (sh_accepted s') * rl_TimeStep rl \<le> 11 * rl_TimeStep rl"
proof -
  obtain rl where rl: "NewRateLimiter example_rl_config = Inr rl"
    by (simp add: NewRateLimiter_def example_rl_config_def Let_def)
  from two_more_requests [OF rl] obtain s s' where
    s: "s = (decide 0 True 0 \<lparr>lim_Size = rl_TimeStep rl, lim_LastUpdate = 0\<rparr> (fresh_shared 0))\<lparr>sh_next := 1\<rparr>"
    and run: "(hit_step rl)\<^sup>*\<^sup>* s s'" "sh_accepted s' = 3" "sh_clock s' = 0" by blast
  have "int (sh_accepted s' - sh_accepted (fresh_shared 0)) * rl_TimeStep rl \<le>
      (rlc_Burst example_rl_config + 1) * rl_TimeStep rl + (sh_clock s' - sh_clock (fresh_shared 0))"
    by (rule concurrent_rate_limit [OF rl _ _ _ _ run(1), where t = 0 and p = 0 and k = 1])
      (simp_all add: s example_rl_config_def fresh_shared_def decide_def)
  then have "int (sh_accepted s') * rl_TimeStep rl \<le> 11 * rl_TimeStep rl"
    using run by (simp add: example_rl_config_def fresh_shared_def)
  with rl run show ?thesis by blast
qed

end
