(* ===== verification/Query_Tools.thy ===== *)
theory Query_Tools
  imports Complex_Main Redins_Prelude
begin

text \<open>
  The measuring tools under \<open>tools/\<close>: the two query generators behind the interface
  \<open>source.QueryGenerator\<close>, the loop that queues their queries, the statistics of the bench tool, and
  the random names of the load generator. Redis, the random number source and the text scanner are
  parameters; 64-bit floating-point numbers are reals.
\<close>

section \<open>Query generators\<close>

record Query =
  q_QName :: string
  q_QType :: string

text \<open>\<open>source/redis.go\<close>: twelve queries for every location of every zone.\<close>

record RedisDumpQueryGenerator =
  rg_queries :: "Query list"
  rg_pos :: nat

definition dump_types :: "string list" where
  "dump_types = [''A'', ''AAAA'', ''CNAME'', ''NS'', ''MX'', ''SRV'', ''TXT'', ''PTR'', ''CAA'', ''TLSA'',
     ''SOA'', ''DNSKEY'']"

definition location_queries :: "string \<Rightarrow> string \<Rightarrow> Query list" where
  "location_queries zone location =
     (let qname = (if location = ''@'' then zone else location @ ''.'' @ zone)
      in map (\<lambda>t. \<lparr>q_QName = qname, q_QType = t\<rparr>) dump_types)"

definition NewRedisDumpQueryGenerator ::
  "(string \<Rightarrow> 'w \<Rightarrow> string list \<times> 'w) \<Rightarrow> (string \<Rightarrow> 'w \<Rightarrow> string list \<times> 'w) \<Rightarrow>
     ('w, RedisDumpQueryGenerator) go" where
  "NewRedisDumpQueryGenerator SMembers GetHKeys =
     Bind (Extern (SMembers ''redins:zones'')) (\<lambda>zones.
     Bind (ForEach zones (\<lambda>zone queries.
             Bind (Extern (GetHKeys (''redins:zones:'' @ zone))) (\<lambda>locations.
             Return (queries @ concat (map (location_queries zone) locations)))) []) (\<lambda>queries.
     Return \<lparr>rg_queries = queries, rg_pos = 0\<rparr>))"

definition redis_Count :: "RedisDumpQueryGenerator \<Rightarrow> int" where
  "redis_Count g = int (length (rg_queries g))"

definition redis_GetQuery :: "(RedisDumpQueryGenerator, Query) go" where
  "redis_GetQuery g =
     (if rg_pos g < length (rg_queries g)
      then Inr (rg_queries g ! rg_pos g, g\<lparr>rg_pos := rg_pos g + 1\<rparr>)
      else Inl IndexOutOfRange)"

text \<open>
  \<open>source/file.go\<close>: a query per line of a file, drawn at random. \<open>scan\<close> is the scanner of a line (it
  leaves what it did not read empty), \<open>zipf imax\<close> draws a number up to \<open>imax\<close> from the source \<open>'r\<close>.
\<close>

record 'r FileQueryGenerator =
  fg_queries :: "Query list"
  fg_count :: int
  fg_imax :: "64 word"
  fg_source :: 'r

definition NewFileQueryGenerator ::
  "(string \<Rightarrow> Query) \<Rightarrow> string list \<Rightarrow> int \<Rightarrow> 'r \<Rightarrow> 'r FileQueryGenerator" where
  "NewFileQueryGenerator scan lns cnt src =
     (let queries = map scan lns
      in \<lparr>fg_queries = queries, fg_count = cnt, fg_imax = word_of_int (int (length queries) - 1),
          fg_source = src\<rparr>)"

definition file_Count :: "'r FileQueryGenerator \<Rightarrow> int" where
  "file_Count g = fg_count g"

definition file_GetQuery ::
  "('r \<Rightarrow> 64 word \<Rightarrow> 64 word \<times> 'r) \<Rightarrow> ('r FileQueryGenerator, Query) go" where
  "file_GetQuery zipf g =
     (case zipf (fg_source g) (fg_imax g) of
        (z, src) \<Rightarrow>
          if unat z < length (fg_queries g)
          then Inr (fg_queries g ! unat z, g\<lparr>fg_source := src\<rparr>)
          else Inl IndexOutOfRange)"

text \<open>
  \<open>query.go\<close>: \<open>for i := 0; i < g.Count(); i++ { dispatcher.Queue(g.GetQuery()) }\<close>; neither generator
  changes its count. The result is what was queued.
\<close>

primrec dispatch_loop :: "nat \<Rightarrow> ('g, Query) go \<Rightarrow> ('g, Query list) go" where
  "dispatch_loop 0 GetQuery = Return []"
| "dispatch_loop (Suc n) GetQuery =
     Bind GetQuery (\<lambda>q. Bind (dispatch_loop n GetQuery) (\<lambda>qs. Return (q # qs)))"

definition dispatch :: "('g \<Rightarrow> int) \<Rightarrow> ('g, Query) go \<Rightarrow> ('g, Query list) go" where
  "dispatch Count GetQuery g = dispatch_loop (nat (Count g)) GetQuery g"

text \<open>
  The contract the loop relies on: \<open>ready k g\<close> says that \<open>g\<close> can be asked \<open>k\<close> times.
\<close>

locale query_generator =
  fixes Count :: "'g \<Rightarrow> int" and GetQuery :: "('g, Query) go" and ready :: "nat \<Rightarrow> 'g \<Rightarrow> bool"
  assumes GetQuery_ready: "ready (Suc k) g \<Longrightarrow> \<exists>q g'. GetQuery g = Inr (q, g') \<and> ready k g'"
    and GetQuery_Count: "GetQuery g = Inr (q, g') \<Longrightarrow> Count g' = Count g"
begin

lemma dispatch_loop_ready:
  "ready k g \<Longrightarrow> \<exists>qs g'. dispatch_loop k GetQuery g = Inr (qs, g') \<and> length qs = k \<and> Count g' = Count g"
proof (induction k arbitrary: g)
  case (Suc k)
  then obtain q g' where g': "GetQuery g = Inr (q, g')" "ready k g'" using GetQuery_ready by blast
  with Suc.IH [of g'] GetQuery_Count [OF g'(1)] show ?case by (auto simp: Bind_def Return_def)
qed (simp add: Return_def)

lemma dispatch_ready:
  "ready (nat (Count g)) g \<Longrightarrow>
     \<exists>qs g'. dispatch Count GetQuery g = Inr (qs, g') \<and> length qs = nat (Count g) \<and> Count g' = Count g"
  unfolding dispatch_def by (rule dispatch_loop_ready)

end

interpretation redis_dump: query_generator redis_Count redis_GetQuery
  "\<lambda>k g. rg_pos g + k \<le> length (rg_queries g)"
  by unfold_locales (auto simp: redis_GetQuery_def redis_Count_def split: if_splits)

text \<open>The number a Zipf source draws is at most its bound.\<close>

definition file_ready :: "('r \<Rightarrow> 64 word \<Rightarrow> 64 word \<times> 'r) \<Rightarrow> 'r FileQueryGenerator \<Rightarrow> bool" where
  "file_ready zipf g \<longleftrightarrow> (\<forall>r m. fst (zipf r m) \<le> m) \<and> unat (fg_imax g) < length (fg_queries g)"

interpretation file_source: query_generator file_Count "file_GetQuery zipf" "\<lambda>_. file_ready zipf"
  for zipf :: "'r \<Rightarrow> 64 word \<Rightarrow> 64 word \<times> 'r"
proof
  fix g :: "'r FileQueryGenerator"
  assume ready: "file_ready zipf g"
  then have "unat (fst (zipf (fg_source g) (fg_imax g))) \<le> unat (fg_imax g)"
    by (simp add: file_ready_def word_le_nat_alt)
  with ready show "\<exists>q g'. file_GetQuery zipf g = Inr (q, g') \<and> file_ready zipf g'"
    by (auto simp: file_GetQuery_def file_ready_def split: prod.split)
qed (auto simp: file_GetQuery_def file_Count_def split: prod.splits if_splits)

section \<open>Statistics of the bench tool\<close>

text \<open>\<open>tool/bench.go\<close>; durations in nanoseconds.\<close>

record BenchTool =
  bt_count :: int
  bt_totalTime :: int
  bt_min :: int
  bt_max :: int
  bt_mean :: real
  bt_stdev :: real
  bt_serverAddress :: string

definition NewBenchTool :: "string \<Rightarrow> BenchTool" where
  "NewBenchTool serverAddress =
     \<lparr>bt_count = 0, bt_totalTime = 0, bt_min = 1000, bt_max = 0, bt_mean = 0, bt_stdev = 0,
      bt_serverAddress = serverAddress\<rparr>"

definition Seconds :: "int \<Rightarrow> real" where
  "Seconds rtt = of_int rtt / of_int second"

text \<open>What \<open>Act\<close> does with the round-trip time of an exchange, under its mutex.\<close>

definition bench_record :: "BenchTool \<Rightarrow> int \<Rightarrow> BenchTool" where
  "bench_record t rtt =
     (let prevMean = bt_mean t;
          count = bt_count t + 1;
          x = Seconds rtt;
          mean = bt_mean t + (x - bt_mean t) / of_int count;
          stdev = bt_stdev t + (x - mean) * (x - prevMean)
      in \<lparr>bt_count = count, bt_totalTime = bt_totalTime t + rtt,
          bt_min = (if rtt < bt_min t then rtt else bt_min t),
          bt_max = (if rtt > bt_max t then rtt else bt_max t), bt_mean = mean, bt_stdev = stdev,
          bt_serverAddress = bt_serverAddress t\<rparr>)"

text \<open>
  The exchange with the server, a parameter, gives the round-trip time; its error is printed and the
  time counted all the same.
\<close>

definition bench_Act ::
  "(Query \<Rightarrow> string \<Rightarrow> 'w \<Rightarrow> int \<times> 'w) \<Rightarrow> Query \<Rightarrow> BenchTool \<times> 'w \<Rightarrow> BenchTool \<times> 'w" where
  "bench_Act Exchange q = (\<lambda>(t, w).
     case Exchange q (bt_serverAddress t) w of (rtt, w') \<Rightarrow> (bench_record t rtt, w'))"

definition bench :: "string \<Rightarrow> int list \<Rightarrow> BenchTool" where
  "bench serverAddress rtts = foldl bench_record (NewBenchTool serverAddress) rtts"

text \<open>The round-trip times of a run of queries.\<close>

primrec rtts_of :: "(Query \<Rightarrow> string \<Rightarrow> 'w \<Rightarrow> int \<times> 'w) \<Rightarrow> string \<Rightarrow> Query list \<Rightarrow> 'w \<Rightarrow> int list" where
  "rtts_of Exchange addr [] w = []"
| "rtts_of Exchange addr (q # qs) w =
     (case Exchange q addr w of (rtt, w') \<Rightarrow> rtt # rtts_of Exchange addr qs w')"

section \<open>Random names\<close>

text \<open>
  \<open>RandomString\<close> of \<open>perf/gen/gen.go\<close>: six bits of a random number at a time, ten times, choose a letter
  or are thrown away. The letters are written from the last to the first. The loop may run forever,
  so a run that does not return is \<open>None\<close>.
\<close>

definition letterBytes :: string where
  "letterBytes = ''abcdefghijklmnopqrstuvwxyz''"

partial_function (option) random_loop ::
  "('r \<Rightarrow> int \<times> 'r) \<Rightarrow> nat \<Rightarrow> int \<Rightarrow> nat \<Rightarrow> string \<Rightarrow> 'r \<Rightarrow> (string \<times> 'r) option" where
  "random_loop Int63 n cache remain b src =
     (if n = 0 then Some (b, src)
      else if remain = 0
      then (case Int63 src of (fresh, src') \<Rightarrow>
              if fresh mod 64 < int (length letterBytes)
              then random_loop Int63 (n - 1) (fresh div 64) 9 (letterBytes ! nat (fresh mod 64) # b) src'
              else random_loop Int63 n (fresh div 64) 9 b src')
      else if cache mod 64 < int (length letterBytes)
      then random_loop Int63 (n - 1) (cache div 64) (remain - 1)
             (letterBytes ! nat (cache mod 64) # b) src
      else random_loop Int63 n (cache div 64) (remain - 1) b src)"

definition RandomString :: "('r \<Rightarrow> int \<times> 'r) \<Rightarrow> nat \<Rightarrow> 'r \<Rightarrow> (string \<times> 'r) option" where
  "RandomString Int63 n src = (case Int63 src of (cache, src') \<Rightarrow> random_loop Int63 n cache 10 [] src')"


section \<open>Every stored name is asked once\<close>

lemma dump_loop:
  "ForEach zones (\<lambda>zone queries.
       Bind (Extern (\<lambda>w. (keys zone, w))) (\<lambda>locations.
       Return (queries @ concat (map (location_queries zone) locations)))) acc w =
     Inr (acc @ concat (map (\<lambda>zone. concat (map (location_queries zone) (keys zone))) zones), w)"
  by (induction zones arbitrary: acc) (simp_all add: Bind_def Return_def Extern_def)

lemma redis_dispatch_loop:
  "rg_pos g + k \<le> length (rg_queries g) \<Longrightarrow>
     dispatch_loop k redis_GetQuery g =
       Inr (take k (drop (rg_pos g) (rg_queries g)), g\<lparr>rg_pos := rg_pos g + k\<rparr>)"
proof (induction k arbitrary: g)
  case (Suc k)
  have pos: "rg_pos g < length (rg_queries g)" using Suc.prems by simp
  then have "redis_GetQuery g = Inr (rg_queries g ! rg_pos g, g\<lparr>rg_pos := rg_pos g + 1\<rparr>)"
    by (simp add: redis_GetQuery_def)
  moreover have "drop (rg_pos g) (rg_queries g) =
      rg_queries g ! rg_pos g # drop (Suc (rg_pos g)) (rg_queries g)"
    using pos by (simp add: Cons_nth_drop_Suc)
  ultimately show ?case using Suc by (simp add: Bind_def Return_def)
qed (simp add: Return_def)

text \<open>
  A redis dump asks everything once: from a redis that answers with the stored zones and locations,
  the generator is built without a panic, and the dispatch loop queues, without ever indexing past
  the end, exactly the twelve queries of every location of every zone, zone by zone in the order
  redis lists them, and then the generator is used up.
\<close>

theorem redis_dump_complete:
  "\<exists>g. NewRedisDumpQueryGenerator (\<lambda>key w. (members key, w)) (\<lambda>key w. (hkeys key, w)) w = Inr (g, w) \<and>
     dispatch redis_Count redis_GetQuery g =
       Inr (concat (map (\<lambda>zone. concat (map (location_queries zone) (hkeys (''redins:zones:'' @ zone))))
              (members ''redins:zones'')),
            g\<lparr>rg_pos := nat (redis_Count g)\<rparr>)"
proof -
  let ?qs = "concat (map (\<lambda>zone. concat (map (location_queries zone) (hkeys (''redins:zones:'' @ zone))))
    (members ''redins:zones''))"
  let ?g = "\<lparr>rg_queries = ?qs, rg_pos = 0\<rparr>"
  have "NewRedisDumpQueryGenerator (\<lambda>key w. (members key, w)) (\<lambda>key w. (hkeys key, w)) w = Inr (?g, w)"
    by (simp add: NewRedisDumpQueryGenerator_def Bind_def [of "Extern _"] Bind_def [of "ForEach _ _ _"]
      Extern_def dump_loop) (simp add: Return_def)
  moreover have "dispatch redis_Count redis_GetQuery ?g = Inr (?qs, ?g\<lparr>rg_pos := nat (redis_Count ?g)\<rparr>)"
    using redis_dispatch_loop [of ?g "length ?qs"] by (simp add: dispatch_def redis_Count_def)
  ultimately show ?thesis by blast
qed

section \<open>Running mean and deviation\<close>

lemma bench_snoc: "bench addr (rtts @ [rtt]) = bench_record (bench addr rtts) rtt"
  by (simp add: bench_def)

text \<open>The running updates keep the sum and the sum of squares recoverable.\<close>

lemma bench_moments:
  "bt_count (bench addr rtts) = int (length rtts) \<and>
   bt_mean (bench addr rtts) * real (length rtts) = sum_list (map Seconds rtts) \<and>
   bt_stdev (bench addr rtts) =
     (\<Sum>x\<leftarrow>map Seconds rtts. x\<^sup>2) - real (length rtts) * (bt_mean (bench addr rtts))\<^sup>2"
proof (induction rtts rule: rev_induct)
  case Nil
  show ?case by (simp add: bench_def NewBenchTool_def)
next
  case (snoc rtt rtts)
  define n m x where "n = real (length rtts)" and "m = bt_mean (bench addr rtts)" and "x = Seconds rtt"
  define m' where "m' = m + (x - m) / (n + 1)"
  have n: "n + 1 \<noteq> 0" by (simp add: n_def add_nonneg_eq_0_iff)
  then have m': "m' * (n + 1) = m * n + x" by (simp add: m'_def field_simps)
  have fields: "bt_mean (bench addr (rtts @ [rtt])) = m'"
    "bt_stdev (bench addr (rtts @ [rtt])) = bt_stdev (bench addr rtts) + (x - m') * (x - m)"
    "bt_count (bench addr (rtts @ [rtt])) = int (length rtts) + 1"
    using snoc by (simp_all add: bench_snoc bench_record_def Let_def m'_def m_def n_def x_def)
  have "(n + 1) * m'\<^sup>2 = m' * (m * n + x)" by (simp flip: m' add: power2_eq_square)
  moreover have "m * (m' * (n + 1)) = m * (m * n + x)" by (simp add: m')
  ultimately have "x\<^sup>2 - (n + 1) * m'\<^sup>2 = (x - m') * (x - m) - n * m\<^sup>2"
    by (simp add: algebra_simps power2_eq_square)
  with snoc fields m' show ?case
    by (simp add: n_def m_def x_def algebra_simps)
qed

lemma bench_record_extremes:
  "bt_totalTime (bench_record t rtt) = bt_totalTime t + rtt" "bt_min (bench_record t rtt) = min rtt (bt_min t)"
  "bt_max (bench_record t rtt) = max rtt (bt_max t)"
  by (simp_all add: bench_record_def Let_def)

lemma bench_extremes:
  "bt_totalTime (bench addr rtts) = sum_list rtts \<and> bt_min (bench addr rtts) = Min (insert 1000 (set rtts)) \<and>
     bt_max (bench addr rtts) = Max (insert 0 (set rtts))"
proof (induction rtts rule: rev_induct)
  case (snoc rtt rtts)
  have "Min (insert 1000 (set (rtts @ [rtt]))) = min rtt (Min (insert 1000 (set rtts)))"
    "Max (insert 0 (set (rtts @ [rtt]))) = max rtt (Max (insert 0 (set rtts)))"
    by (simp_all add: insert_commute [of _ rtt])
  with snoc show ?case by (simp only: bench_snoc bench_record_extremes) simp
qed (simp add: bench_def NewBenchTool_def)

lemma record_serverAddress [simp]: "bt_serverAddress (bench_record t rtt) = bt_serverAddress t"
  by (simp add: bench_record_def Let_def)

lemma bench_serverAddress: "bt_serverAddress (bench addr rtts) = addr"
  by (induction rtts rule: rev_induct) (simp_all add: bench_snoc, simp add: bench_def NewBenchTool_def)

lemma bench_run:
  "fst (fold (bench_Act Exchange) qs (t, w)) =
     foldl bench_record t (rtts_of Exchange (bt_serverAddress t) qs w)"
  by (induction qs arbitrary: t w) (simp_all add: bench_Act_def split: prod.split)

lemma sum_squared_deviations:
  "(\<Sum>x\<leftarrow>xs. (x - c)\<^sup>2) = (\<Sum>x\<leftarrow>xs. x\<^sup>2) - 2 * c * sum_list xs + real (length xs) * c\<^sup>2"
  for c :: real
  by (induction xs) (simp_all add: power2_diff algebra_simps)

lemma bench_result:
  assumes "rtts \<noteq> []"
  defines "mean \<equiv> sum_list (map Seconds rtts) / real (length rtts)"
  shows "bench addr rtts = \<lparr>bt_count = int (length rtts), bt_totalTime = sum_list rtts,
     bt_min = min 1000 (Min (set rtts)), bt_max = max 0 (Max (set rtts)),
     bt_mean = mean, bt_stdev = (\<Sum>x\<leftarrow>map Seconds rtts. (x - mean)\<^sup>2), bt_serverAddress = addr\<rparr>"
proof -
  define n where "n = real (length rtts)"
  have n: "n \<noteq> 0" using assms(1) by (simp add: n_def)
  have mean: "bt_mean (bench addr rtts) = mean"
    using bench_moments [of addr rtts] n by (simp add: mean_def n_def field_simps)
  have "(\<Sum>x\<leftarrow>map Seconds rtts. (x - mean)\<^sup>2) = (\<Sum>x\<leftarrow>map Seconds rtts. x\<^sup>2) - n * mean\<^sup>2"
    using n sum_squared_deviations [where c = mean and xs = "map Seconds rtts"]
    by (simp add: mean_def n_def power2_eq_square)
  then have stdev: "bt_stdev (bench addr rtts) = (\<Sum>x\<leftarrow>map Seconds rtts. (x - mean)\<^sup>2)"
    using bench_moments [of addr rtts] by (simp add: mean n_def)
  have "Min (insert 1000 (set rtts)) = min 1000 (Min (set rtts))"
    "Max (insert 0 (set rtts)) = max 0 (Max (set rtts))"
    using assms(1) by simp_all
  with bench_moments [of addr rtts] bench_extremes [of addr rtts] mean stdev show ?thesis
    using bench_serverAddress [of addr rtts] by (cases "bench addr rtts") simp
qed

text \<open>
  The statistics of a bench run, whatever the server answers: after the queries \<open>qs\<close> the count, the
  total, the arithmetic mean in seconds and the largest round-trip time are right; the smallest is
  right only below the initial 1000 nanoseconds, and the field that is printed as the standard
  deviation holds the sum of the squared deviations from the mean, neither divided nor rooted.
\<close>

theorem bench_statistics:
  fixes Exchange :: "Query \<Rightarrow> string \<Rightarrow> 'w \<Rightarrow> int \<times> 'w" and addr :: string and w :: 'w
  assumes "qs \<noteq> []"
  defines "rtts \<equiv> rtts_of Exchange addr qs w"
  defines "mean \<equiv> sum_list (map Seconds rtts) / real (length rtts)"
  shows "fst (fold (bench_Act Exchange) qs (NewBenchTool addr, w)) =
    \<lparr>bt_count = int (length rtts), bt_totalTime = sum_list rtts,
     bt_min = min 1000 (Min (set rtts)), bt_max = max 0 (Max (set rtts)),
     bt_mean = mean, bt_stdev = (\<Sum>x\<leftarrow>map Seconds rtts. (x - mean)\<^sup>2), bt_serverAddress = addr\<rparr>"
proof -
  have "rtts \<noteq> []" using assms(1) by (cases qs) (auto simp: rtts_def split: prod.split)
  moreover have "fst (fold (bench_Act Exchange) qs (NewBenchTool addr, w)) = bench addr rtts"
    by (simp add: bench_run bench_def rtts_def NewBenchTool_def)
  ultimately show ?thesis using bench_result [of rtts addr] by (simp add: mean_def)
qed

text \<open>A server that answers after one, then after three seconds.\<close>

definition slow_server :: "Query \<Rightarrow> string \<Rightarrow> int \<Rightarrow> int \<times> int" where
  "slow_server q addr w = (w, w + 2000000000)"

theorem bench_statistics_witness:
  "let t = fst (fold (bench_Act slow_server) (location_queries ''z.'' ''@'' ! 0 # [location_queries ''z.'' ''w'' ! 1])
             (NewBenchTool ''s'', 1000000000))
   in bt_mean t = 2 \<and> bt_stdev t = 2 \<and> bt_min t = 1000"
  using bench_statistics [of "location_queries ''z.'' ''@'' ! 0 # [location_queries ''z.'' ''w'' ! 1]" slow_server
    "''s''" 1000000000]
  by (simp add: Seconds_def second_def slow_server_def del: fold_simps)

section \<open>Random names end\<close>

text \<open>A number of the source is usable when one of its ten groups of six bits is a letter.\<close>

definition usable :: "int \<Rightarrow> nat \<Rightarrow> bool" where
  "usable v remain \<longleftrightarrow> (\<exists>k<remain. v div 64 ^ k mod 64 < int (length letterBytes))"

lemma random_loop_0 [simp]: "random_loop Int63 0 cache remain b src = Some (b, src)"
  by (subst random_loop.simps) simp

lemma random_loop_draw:
  "random_loop Int63 (Suc n) cache 0 b src =
     random_loop Int63 (Suc n) (fst (Int63 src)) 10 b (snd (Int63 src))"
  by (subst (1 2) random_loop.simps) (simp split: prod.split)

lemma random_loop_hit:
  "0 < remain \<Longrightarrow> cache mod 64 < int (length letterBytes) \<Longrightarrow>
     random_loop Int63 (Suc n) cache remain b src =
       random_loop Int63 n (cache div 64) (remain - 1) (letterBytes ! nat (cache mod 64) # b) src"
  by (subst random_loop.simps) simp

lemma random_loop_miss:
  "0 < remain \<Longrightarrow> \<not> cache mod 64 < int (length letterBytes) \<Longrightarrow>
     random_loop Int63 (Suc n) cache remain b src = random_loop Int63 (Suc n) (cache div 64) (remain - 1) b src"
  by (subst random_loop.simps) simp


lemma letter_in: "cache mod 64 < int (length letterBytes) \<Longrightarrow> letterBytes ! nat (cache mod 64) \<in> set letterBytes"
  by (rule nth_mem) simp

lemma usable_Suc:
  "usable v (Suc r) \<longleftrightarrow> v mod 64 < int (length letterBytes) \<or> usable (v div 64) r"
proof -
  have "v div 64 ^ Suc k = v div 64 div 64 ^ k" for k by (simp add: zdiv_zmult2_eq)
  then show ?thesis unfolding usable_def by (subst Ex_less_Suc2) simp
qed

text \<open>A number either gives the next letter or, when none of its groups is one, is used up.\<close>

lemma random_loop_scan:
  "(\<exists>c \<in> set letterBytes. \<exists>cache' remain'.
      random_loop Int63 (Suc n) cache remain b src = random_loop Int63 n cache' remain' (c # b) src) \<or>
   (\<not> usable cache remain \<and>
      (\<exists>cache'. random_loop Int63 (Suc n) cache remain b src = random_loop Int63 (Suc n) cache' 0 b src))"
proof (induction remain arbitrary: cache)
  case 0
  show ?case by (auto simp: usable_def)
next
  case (Suc remain)
  show ?case
  proof (cases "cache mod 64 < int (length letterBytes)")
    case True
    have "random_loop Int63 (Suc n) cache (Suc remain) b src =
        random_loop Int63 n (cache div 64) remain (letterBytes ! nat (cache mod 64) # b) src"
      using random_loop_hit [OF _ True, of "Suc remain" Int63 n b src] by simp
    with letter_in [OF True] show ?thesis by blast
  next
    case False
    then have "random_loop Int63 (Suc n) cache (Suc remain) b src =
        random_loop Int63 (Suc n) (cache div 64) remain b src"
      using random_loop_miss [of "Suc remain" cache Int63 n b src] by simp
    with Suc.IH [of "cache div 64"] False show ?thesis by (simp add: usable_Suc)
  qed
qed

text \<open>The source after \<open>k\<close> numbers were drawn, and the number it draws then.\<close>

definition after :: "('r \<Rightarrow> int \<times> 'r) \<Rightarrow> nat \<Rightarrow> 'r \<Rightarrow> 'r" where
  "after Int63 k src = ((snd \<circ> Int63) ^^ k) src"

lemma after_0 [simp]: "after Int63 0 src = src"
  by (simp add: after_def)

lemma after_Suc: "after Int63 (Suc k) src = after Int63 k (snd (Int63 src))"
  by (simp add: after_def funpow_swap1)

lemma after_after: "after Int63 j (after Int63 k src) = after Int63 (j + k) src"
  by (simp add: after_def funpow_add)

lemma next_letter:
  assumes "usable (fst (Int63 (after Int63 k src))) 10"
  shows "\<exists>c \<in> set letterBytes. \<exists>cache' remain' j.
    random_loop Int63 (Suc n) cache remain b src = random_loop Int63 n cache' remain' (c # b) (after Int63 j src)"
  using assms
proof (induction k arbitrary: cache remain src)
  case 0
  from 0 random_loop_scan [of Int63 n "fst (Int63 src)" 10 b "snd (Int63 src)"]
  have "\<exists>c \<in> set letterBytes. \<exists>cache' remain'.
      random_loop Int63 (Suc n) x 0 b src = random_loop Int63 n cache' remain' (c # b) (after Int63 1 src)" for x
    using random_loop_draw [of Int63 n x b src] after_Suc [of Int63 0 src] by auto
  with random_loop_scan [of Int63 n cache remain b src] show ?case by (metis after_0)
next
  case (Suc k)
  from Suc.prems have "usable (fst (Int63 (after Int63 k (snd (Int63 src))))) 10" by (simp add: after_Suc)
  from Suc.IH [OF this]
  have "\<exists>c \<in> set letterBytes. \<exists>cache' remain' j.
      random_loop Int63 (Suc n) x 0 b src = random_loop Int63 n cache' remain' (c # b) (after Int63 j src)" for x
    using random_loop_draw [of Int63 n x b src] by (metis after_Suc)
  with random_loop_scan [of Int63 n cache remain b src] show ?case by (metis after_0)
qed

lemma random_loop_ends:
  assumes "\<And>j. \<exists>k. usable (fst (Int63 (after Int63 (j + k) src))) 10"
  shows "\<exists>s j. random_loop Int63 n cache remain b src = Some (s @ b, after Int63 j src) \<and>
    length s = n \<and> set s \<subseteq> set letterBytes"
  using assms
proof (induction n arbitrary: cache remain b src)
  case 0
  then show ?case by (metis append_Nil after_0 empty_subsetI list.set(1) list.size(3) random_loop_0)
next
  case (Suc n)
  obtain k where "usable (fst (Int63 (after Int63 k src))) 10" using Suc.prems [of 0] by auto
  from next_letter [of Int63 k src, OF this, of n cache remain b] obtain c cache' remain' j where
    c: "c \<in> set letterBytes" and
    step: "random_loop Int63 (Suc n) cache remain b src =
      random_loop Int63 n cache' remain' (c # b) (after Int63 j src)" by blast
  have "\<exists>k. usable (fst (Int63 (after Int63 (i + k) (after Int63 j src)))) 10" for i
    using Suc.prems [of "i + j"] by (simp add: after_after ac_simps)
  from Suc.IH [OF this, of cache' remain' "c # b"] obtain s j' where
    s: "random_loop Int63 n cache' remain' (c # b) (after Int63 j src) =
        Some (s @ c # b, after Int63 (j' + j) src)" "length s = n" "set s \<subseteq> set letterBytes"
    by (auto simp: after_after)
  with c step show ?case
    by (intro exI [of _ "s @ [c]"] exI [of _ "j' + j"]) simp
qed

text \<open>
  A random name is always produced from a source that keeps drawing usable numbers (at every later
  moment one more comes whose ten groups of six bits contain a letter): the loop ends, whatever groups
  are thrown away on the way, and the name has the requested length and consists of the letters a to z.
\<close>

theorem RandomString_returns:
  assumes "\<And>j. \<exists>k. usable (fst (Int63 (after Int63 (j + k) src))) 10"
  shows "\<exists>s src'. RandomString Int63 n src = Some (s, src') \<and> length s = n \<and> set s \<subseteq> set letterBytes"
proof -
  have "\<exists>k. usable (fst (Int63 (after Int63 (j + k) (snd (Int63 src))))) 10" for j
    using assms [of "Suc j"] by (simp add: after_Suc)
  from random_loop_ends [OF this, of n "fst (Int63 src)" 10 "[]"] show ?thesis
    by (auto simp: RandomString_def split: prod.split)
qed

text \<open>A source that draws 0, 1, 2, \<dots>: half of its numbers are useless in their lowest group.\<close>

definition counter_source :: "int \<Rightarrow> int \<times> int" where
  "counter_source x = (x, x + 1)"

theorem RandomString_returns_witness:
  "\<exists>s src'. RandomString counter_source 15 40 = Some (s, src') \<and> length s = 15 \<and> set s \<subseteq> set letterBytes"
proof (rule RandomString_returns)
  fix j
  have "after counter_source k x = x + int k" for k x
    by (induction k arbitrary: x) (simp_all add: after_Suc counter_source_def)
  moreover have "(64 * int j + 64) mod 64 = 0" by (simp add: mod_eq_0_iff_dvd)
  ultimately show "\<exists>k. usable (fst (counter_source (after counter_source (j + k) 40))) 10"
    by (intro exI [of _ "63 * j + 24"])
      (auto simp: counter_source_def usable_def letterBytes_def algebra_simps intro!: exI [of _ 0])
qed


text \<open>Whenever the loop returns, it has put letters in front of what was there.\<close>

lemma random_loop_result:
  fixes Int63 :: "'r \<Rightarrow> int \<times> 'r"
  assumes "random_loop Int63 n cache remain b src = Some y"
  shows "\<exists>p. fst y = p @ b \<and> length p = n \<and> set p \<subseteq> set letterBytes"
proof (rule random_loop.raw_induct [where P = "\<lambda>(Int63 :: 'r \<Rightarrow> int \<times> 'r) n cache remain b src y.
    \<exists>p. fst y = p @ b \<and> length p = n \<and> set p \<subseteq> set letterBytes", OF _ assms])
  fix loop and Int63 :: "'r \<Rightarrow> int \<times> 'r" and n cache and remain :: nat and b and src :: 'r and y :: "string \<times> 'r"
  let ?ok = "\<lambda>n b. \<exists>p. fst y = p @ b \<and> length p = n \<and> set p \<subseteq> set letterBytes"
  assume IH: "\<And>Int63 n cache remain b src y. loop Int63 n cache remain b src = Some y \<Longrightarrow>
      \<exists>p. fst y = p @ b \<and> length p = n \<and> set p \<subseteq> set letterBytes"
    and run: "(if n = 0 then Some (b, src)
      else if remain = 0
      then (case Int63 src of (fresh, src') \<Rightarrow>
              if fresh mod 64 < int (length letterBytes)
              then loop Int63 (n - 1) (fresh div 64) 9 (letterBytes ! nat (fresh mod 64) # b) src'
              else loop Int63 n (fresh div 64) 9 b src')
      else if cache mod 64 < int (length letterBytes)
      then loop Int63 (n - 1) (cache div 64) (remain - 1) (letterBytes ! nat (cache mod 64) # b) src
      else loop Int63 n (cache div 64) (remain - 1) b src) = Some y"
  have letter: "?ok n b" if ok: "?ok (n - 1) (letterBytes ! nat (v mod 64) # b)" and "n \<noteq> 0"
    and "v mod 64 < int (length letterBytes)" for v
  proof -
    obtain p where "fst y = p @ letterBytes ! nat (v mod 64) # b" "length p = n - 1" "set p \<subseteq> set letterBytes"
      using ok by blast
    then show ?thesis
      using that(2,3) letter_in [of v] by (intro exI [of _ "p @ [letterBytes ! nat (v mod 64)]"]) auto
  qed
  show "?ok n b"
    using run by (auto split: if_splits prod.splits dest!: IH intro!: letter)
qed

lemma RandomString_letters:
  "RandomString Int63 n src = Some (t, src') \<Longrightarrow> length t = n \<and> set t \<subseteq> set letterBytes"
  using random_loop_result [of Int63 n "fst (Int63 src)" 10 "[]" "snd (Int63 src)" "(t, src')"]
  by (simp add: RandomString_def split_beta)

end
