(* ===== verification/Compare_Tool.thy ===== *)
theory Compare_Tool
  imports Request Query_Tools "HOL-Library.List_Lexorder" "HOL-Library.Char_ord"
begin

text \<open>
  \<open>tools/query/tool/compare.go\<close>: the same question put to two servers, and the replies compared with
  \<open>SortAndCheck\<close> of \<open>test/helpers.go\<close>. The textual form of a record, by which the sections are sorted,
  the type numbers and the exchange are the fields of \<open>cmp_lib\<close>. Go's \<open>sort.Sort\<close> is not stable: \<open>cmp_Sort\<close>
  is any function that sorts, which \<open>sort_laws\<close> states.
\<close>

section \<open>Checking a reply\<close>

record 'w cmp_lib =
  cmp_String :: "dns_RR \<Rightarrow> string"
  cmp_Sort :: "dns_RR list \<Rightarrow> dns_RR list"
  cmp_StringToType :: "string \<Rightarrow> uint16"
  cmp_same_other :: "string \<Rightarrow> string \<Rightarrow> bool"
  cmp_Exchange :: "string \<Rightarrow> uint16 \<Rightarrow> string \<Rightarrow> 'w \<Rightarrow> (go_error + dns_Msg) \<times> 'w"

record Case =
  tc_Qname :: string
  tc_Qtype :: uint16
  tc_Rcode :: int
  tc_Do :: bool
  tc_Answer :: "dns_RR list"
  tc_Ns :: "dns_RR list"
  tc_Extra :: "dns_RR list"
  tc_Error :: "go_error option"

text \<open>The errors, without their texts; the number is the position in the section.\<close>

datatype difference =
    RcodeDiffers
  | AnswerCount
  | AuthorityCount
  | AdditionalCount
  | NameDiffers nat
  | TtlDiffers nat
  | TypeDiffers nat
  | DataDiffers nat

definition Header :: "Case \<Rightarrow> dns_Msg \<Rightarrow> difference option" where
  "Header tc resp =
     (if msg_Rcode resp \<noteq> tc_Rcode tc then Some RcodeDiffers
      else if length (msg_Answer resp) \<noteq> length (tc_Answer tc) then Some AnswerCount
      else if length (msg_Ns resp) \<noteq> length (tc_Ns tc) then Some AuthorityCount
      else if length (msg_Extra resp) \<noteq> length (tc_Extra tc) then Some AdditionalCount
      else None)"

text \<open>\<open>for j, txt := range x.Txt\<close>, with the index into the other list.\<close>

fun same_texts :: "string list \<Rightarrow> string list \<Rightarrow> go_panic + bool" where
  "same_texts [] ys = Inr True"
| "same_texts (x # xs) [] = Inl IndexOutOfRange"
| "same_texts (x # xs) (y # ys) = (if x \<noteq> y then Inr False else same_texts xs ys)"

text \<open>
  The type switch: which fields are compared for which type. The first argument is the record of the
  reply, the second, asserted to have the same dynamic type, the one it is compared with. Records of
  types without a constructor of their own (OPT, HINFO) are compared by \<open>cmp_same_other\<close>.
\<close>

definition same_data :: "'w cmp_lib \<Rightarrow> rdata \<Rightarrow> rdata \<Rightarrow> go_panic + bool" where
  "same_data lib x y =
     (case x of
        RSRV target weight port priority \<Rightarrow>
          (case y of RSRV target' weight' port' priority' \<Rightarrow>
             Inr (priority = priority' \<and> weight = weight' \<and> port = port' \<and> target = target')
           | _ \<Rightarrow> Inl TypeAssertion)
      | RRRSIG s \<Rightarrow>
          (case y of RRRSIG s' \<Rightarrow>
             Inr (sig_TypeCovered s = sig_TypeCovered s' \<and> sig_Labels s = sig_Labels s' \<and>
               sig_SignerName s = sig_SignerName s')
           | _ \<Rightarrow> Inl TypeAssertion)
      | RNSEC next _ \<Rightarrow> (case y of RNSEC next' _ \<Rightarrow> Inr (next = next') | _ \<Rightarrow> Inl TypeAssertion)
      | RA ip \<Rightarrow> (case y of RA ip' \<Rightarrow> Inr (IP_String ip = IP_String ip') | _ \<Rightarrow> Inl TypeAssertion)
      | RAAAA ip \<Rightarrow> (case y of RAAAA ip' \<Rightarrow> Inr (IP_String ip = IP_String ip') | _ \<Rightarrow> Inl TypeAssertion)
      | RTXT ts \<Rightarrow>
          (if ts = [] then Inr True
           else case y of RTXT ts' \<Rightarrow> same_texts ts ts' | _ \<Rightarrow> Inl TypeAssertion)
      | RSOA s \<Rightarrow> (case y of RSOA s' \<Rightarrow> Inr (soa_Ns s = soa_Ns s') | _ \<Rightarrow> Inl TypeAssertion)
      | RPTR p \<Rightarrow> (case y of RPTR p' \<Rightarrow> Inr (p = p') | _ \<Rightarrow> Inl TypeAssertion)
      | RCNAME t \<Rightarrow> (case y of RCNAME t' \<Rightarrow> Inr (t = t') | _ \<Rightarrow> Inl TypeAssertion)
      | RMX mx preference \<Rightarrow>
          (case y of RMX mx' preference' \<Rightarrow> Inr (mx = mx' \<and> preference = preference') | _ \<Rightarrow> Inl TypeAssertion)
      | RNS ns \<Rightarrow> (case y of RNS ns' \<Rightarrow> Inr (ns = ns') | _ \<Rightarrow> Inl TypeAssertion)
      | RCAA v flag tag \<Rightarrow>
          (case y of RCAA v' flag' tag' \<Rightarrow> Inr (v = v' \<and> tag = tag' \<and> flag = flag') | _ \<Rightarrow> Inl TypeAssertion)
      | RTLSA usage selector matching certificate \<Rightarrow>
          (case y of RTLSA usage' selector' matching' certificate' \<Rightarrow>
             Inr (usage = usage' \<and> selector = selector' \<and> matching = matching' \<and> certificate = certificate')
           | _ \<Rightarrow> Inl TypeAssertion)
      | RDNSKEY _ \<Rightarrow> Inr True
      | ROther o1 \<Rightarrow> (case y of ROther o2 \<Rightarrow> Inr (cmp_same_other lib o1 o2) | _ \<Rightarrow> Inl TypeAssertion))"

text \<open>The loop of \<open>Section\<close> from position \<open>i\<close>; \<open>None\<close> is the nil error.\<close>

fun Section_loop :: "'w cmp_lib \<Rightarrow> nat \<Rightarrow> dns_RR list \<Rightarrow> dns_RR list \<Rightarrow> go_panic + difference option" where
  "Section_loop lib i [] sec = Inr None"
| "Section_loop lib i (a # rr) [] = Inl IndexOutOfRange"
| "Section_loop lib i (a # rr) (b # sec) =
     (if rr_name a \<noteq> rr_name b then Inr (Some (NameDiffers i))
      else if rr_ttl b \<noteq> 303 \<and> rr_ttl a \<noteq> rr_ttl b \<and> rr_type b \<noteq> TypeOPT then Inr (Some (TtlDiffers i))
      else if rr_type a \<noteq> rr_type b then Inr (Some (TypeDiffers i))
      else
        (case same_data lib (rr_Data a) (rr_Data b) of
           Inl p \<Rightarrow> Inl p
         | Inr same \<Rightarrow> if same then Section_loop lib (i + 1) rr sec else Inr (Some (DataDiffers i))))"

definition SortAndCheck :: "'w cmp_lib \<Rightarrow> dns_Msg \<Rightarrow> Case \<Rightarrow> go_panic + difference option" where
  "SortAndCheck lib resp tc =
     (let resp = resp\<lparr>msg_Answer := cmp_Sort lib (msg_Answer resp), msg_Ns := cmp_Sort lib (msg_Ns resp),
            msg_Extra := cmp_Sort lib (msg_Extra resp)\<rparr>
      in case Header tc resp of
           Some err \<Rightarrow> Inr (Some err)
         | None \<Rightarrow>
             (case Section_loop lib 0 (msg_Answer resp) (tc_Answer tc) of
                Inl p \<Rightarrow> Inl p
              | Inr (Some err) \<Rightarrow> Inr (Some err)
              | Inr None \<Rightarrow>
                  (case Section_loop lib 0 (msg_Ns resp) (tc_Ns tc) of
                     Inl p \<Rightarrow> Inl p
                   | Inr (Some err) \<Rightarrow> Inr (Some err)
                   | Inr None \<Rightarrow> Section_loop lib 0 (msg_Extra resp) (tc_Extra tc))))"

section \<open>The tool\<close>

record CompareTool =
  ct_server1Address :: string
  ct_server2Address :: string

definition NewCompareTool :: "string \<Rightarrow> string \<Rightarrow> CompareTool" where
  "NewCompareTool s1 s2 = \<lparr>ct_server1Address = s1, ct_server2Address = s2\<rparr>"

text \<open>What is printed about a query, if anything.\<close>

datatype complaint = ErrorsDiffer "go_error option" "go_error option" | RepliesDiffer difference

definition err_of :: "go_error + dns_Msg \<Rightarrow> go_error option" where
  "err_of r = (case r of Inl e \<Rightarrow> Some e | Inr _ \<Rightarrow> None)"

definition compare_Act :: "'w cmp_lib \<Rightarrow> CompareTool \<Rightarrow> Query \<Rightarrow> ('w, complaint option) go" where
  "compare_Act lib t q =
     (let qtype = cmp_StringToType lib (q_QType q)
      in Bind (Extern (cmp_Exchange lib (q_QName q) qtype (ct_server1Address t))) (\<lambda>r1.
         Bind (Extern (cmp_Exchange lib (q_QName q) qtype (ct_server2Address t))) (\<lambda>r2.
         if err_of r1 \<noteq> err_of r2 then Return (Some (ErrorsDiffer (err_of r1) (err_of r2)))
         else
           (case (r1, r2) of
              (Inr resp1, Inr resp2) \<Rightarrow>
                (case msg_Question resp1 of
                   [] \<Rightarrow> Panic IndexOutOfRange
                 | (name, qt) # _ \<Rightarrow>
                     Bind (Lift (SortAndCheck lib resp2
                       \<lparr>tc_Qname = name, tc_Qtype = qt, tc_Rcode = msg_Rcode resp1, tc_Do = False,
                        tc_Answer = cmp_Sort lib (msg_Answer resp1), tc_Ns = cmp_Sort lib (msg_Ns resp1),
                        tc_Extra = cmp_Sort lib (msg_Extra resp1), tc_Error = None\<rparr>)) (\<lambda>err.
                     Return (map_option RepliesDiffer err)))
            | _ \<Rightarrow> Return None))))"

section \<open>Records that pass\<close>

text \<open>\<open>sort.Sort\<close> permutes and sorts by the textual form.\<close>

definition sort_laws :: "'w cmp_lib \<Rightarrow> bool" where
  "sort_laws lib \<longleftrightarrow> (\<forall>rrs. mset (cmp_Sort lib rrs) = mset rrs \<and> sorted (map (cmp_String lib) (cmp_Sort lib rrs)))"

text \<open>What two records that are taken for the same have in common.\<close>

definition alike :: "'w cmp_lib \<Rightarrow> dns_RR \<Rightarrow> dns_RR \<Rightarrow> bool" where
  "alike lib a b \<longleftrightarrow> rr_name a = rr_name b \<and> rr_type a = rr_type b \<and>
     (rr_ttl a = rr_ttl b \<or> rr_ttl b = 303 \<or> rr_type b = TypeOPT) \<and> same_data lib (rr_Data a) (rr_Data b) = Inr True"

lemma same_texts_refl [simp]: "same_texts ts ts = Inr True"
  by (induction ts) simp_all

lemma same_data_refl: "(\<And>t. cmp_same_other lib t t) \<Longrightarrow> same_data lib d d = Inr True"
  by (cases d) (simp_all add: same_data_def)

lemma Section_loop_alike:
  "length rr = length sec \<Longrightarrow> Section_loop lib i rr sec = Inr None \<longleftrightarrow> list_all2 (alike lib) rr sec"
  by (induction rr sec arbitrary: i rule: list_induct2) (auto simp: alike_def split: sum.splits)

text \<open>Two sorted permutations of the same records are equal when no two records print alike.\<close>

lemma Sort_unique:
  assumes "sort_laws lib" "mset xs = mset ys" "inj_on (cmp_String lib) (set xs)"
  shows "cmp_Sort lib xs = cmp_Sort lib ys"
proof -
  let ?f = "cmp_String lib"
  have laws: "mset (cmp_Sort lib zs) = mset zs" "sorted (map ?f (cmp_Sort lib zs))" for zs
    using assms(1) by (simp_all add: sort_laws_def)
  have "mset (map ?f (cmp_Sort lib xs)) = mset (map ?f (cmp_Sort lib ys))"
    by (simp add: laws assms(2))
  then have "map ?f (cmp_Sort lib xs) = map ?f (cmp_Sort lib ys)"
    using laws(2) properties_for_sort [of "map ?f (cmp_Sort lib xs)" "map ?f (cmp_Sort lib ys)"]
      properties_for_sort [of "map ?f (cmp_Sort lib ys)" "map ?f (cmp_Sort lib ys)"] by simp
  moreover have "set (cmp_Sort lib xs) = set xs" "set (cmp_Sort lib ys) = set xs"
    by (metis laws(1) set_mset_mset, metis assms(2) laws(1) set_mset_mset)
  ultimately show ?thesis using assms(3) by (simp add: inj_on_map_eq_map)
qed

lemma Section_loop_refl:
  "(\<And>t. cmp_same_other lib t t) \<Longrightarrow> Section_loop lib i rrs rrs = Inr None"
  by (simp add: Section_loop_alike alike_def same_data_refl list_all2_refl)

definition same_records :: "dns_Msg \<Rightarrow> dns_Msg \<Rightarrow> bool" where
  "same_records m1 m2 \<longleftrightarrow> msg_Rcode m1 = msg_Rcode m2 \<and> mset (msg_Answer m1) = mset (msg_Answer m2) \<and>
     mset (msg_Ns m1) = mset (msg_Ns m2) \<and> mset (msg_Extra m1) = mset (msg_Extra m2)"

definition sections :: "dns_Msg \<Rightarrow> dns_RR set" where
  "sections m = set (msg_Answer m) \<union> set (msg_Ns m) \<union> set (msg_Extra m)"

text \<open>Matching up to the order in which the records are sent.\<close>

definition matching :: "'w cmp_lib \<Rightarrow> dns_RR list \<Rightarrow> dns_RR list \<Rightarrow> bool" where
  "matching lib rrs1 rrs2 \<longleftrightarrow>
     (\<exists>xs ys. mset xs = mset rrs1 \<and> mset ys = mset rrs2 \<and> list_all2 (alike lib) ys xs)"

text \<open>The checks in turn all pass exactly when each passes.\<close>

lemma check_then:
  "(case r of Inl p \<Rightarrow> Inl p | Inr (Some err) \<Rightarrow> Inr (Some err) | Inr None \<Rightarrow> k) = Inr None \<longleftrightarrow>
     r = Inr None \<and> k = Inr None"
  by (auto split: sum.splits option.splits)

lemma Header_None:
  "Header tc resp = None \<longleftrightarrow> msg_Rcode resp = tc_Rcode tc \<and> length (msg_Answer resp) = length (tc_Answer tc) \<and>
     length (msg_Ns resp) = length (tc_Ns tc) \<and> length (msg_Extra resp) = length (tc_Extra tc)"
  by (simp add: Header_def)

lemma list_all2_Section_loop:
  "list_all2 (alike lib) rr sec \<longleftrightarrow> length rr = length sec \<and> Section_loop lib 0 rr sec = Inr None"
  using Section_loop_alike [of rr sec lib 0] by (auto dest: list_all2_lengthD)

lemma SortAndCheck_None:
  "SortAndCheck lib resp tc = Inr None \<longleftrightarrow>
     msg_Rcode resp = tc_Rcode tc \<and> list_all2 (alike lib) (cmp_Sort lib (msg_Answer resp)) (tc_Answer tc) \<and>
     list_all2 (alike lib) (cmp_Sort lib (msg_Ns resp)) (tc_Ns tc) \<and>
     list_all2 (alike lib) (cmp_Sort lib (msg_Extra resp)) (tc_Extra tc)"
proof -
  let ?m = "resp\<lparr>msg_Answer := cmp_Sort lib (msg_Answer resp), msg_Ns := cmp_Sort lib (msg_Ns resp),
    msg_Extra := cmp_Sort lib (msg_Extra resp)\<rparr>"
  have "SortAndCheck lib resp tc = Inr None \<longleftrightarrow> Header tc ?m = None \<and>
      Section_loop lib 0 (msg_Answer ?m) (tc_Answer tc) = Inr None \<and>
      Section_loop lib 0 (msg_Ns ?m) (tc_Ns tc) = Inr None \<and>
      Section_loop lib 0 (msg_Extra ?m) (tc_Extra tc) = Inr None"
    by (cases "Header tc ?m") (simp_all add: SortAndCheck_def Let_def check_then)
  then show ?thesis
    by (auto simp: Header_None list_all2_Section_loop)
qed

lemma matching_Sort:
  "sort_laws lib \<Longrightarrow> list_all2 (alike lib) (cmp_Sort lib ys) (cmp_Sort lib xs) \<Longrightarrow> matching lib xs ys"
  unfolding matching_def sort_laws_def by blast

lemma compare_Act_replies:
  assumes "cmp_Exchange lib (q_QName q) (cmp_StringToType lib (q_QType q)) (ct_server1Address t) w = (Inr m1, w1)"
    and "cmp_Exchange lib (q_QName q) (cmp_StringToType lib (q_QType q)) (ct_server2Address t) w1 = (Inr m2, w2)"
    and "msg_Question m1 \<noteq> []"
  shows "compare_Act lib t q w = Inr (None, w2) \<longleftrightarrow> msg_Rcode m2 = msg_Rcode m1 \<and>
    list_all2 (alike lib) (cmp_Sort lib (msg_Answer m2)) (cmp_Sort lib (msg_Answer m1)) \<and>
    list_all2 (alike lib) (cmp_Sort lib (msg_Ns m2)) (cmp_Sort lib (msg_Ns m1)) \<and>
    list_all2 (alike lib) (cmp_Sort lib (msg_Extra m2)) (cmp_Sort lib (msg_Extra m1))"
proof -
  obtain name qt rest where q: "msg_Question m1 = (name, qt) # rest"
    using assms(3) by (cases "msg_Question m1") auto
  let ?tc = "\<lparr>tc_Qname = name, tc_Qtype = qt, tc_Rcode = msg_Rcode m1, tc_Do = False,
    tc_Answer = cmp_Sort lib (msg_Answer m1), tc_Ns = cmp_Sort lib (msg_Ns m1),
    tc_Extra = cmp_Sort lib (msg_Extra m1), tc_Error = None\<rparr>"
  have "compare_Act lib t q w = Inr (None, w2) \<longleftrightarrow> SortAndCheck lib m2 ?tc = Inr None"
    using assms(1,2) q
    by (auto simp: compare_Act_def Let_def err_of_def Bind_def Extern_def Lift_def Return_def split: sum.split)
  then show ?thesis by (simp add: SortAndCheck_None)
qed

section \<open>Properties\<close>

text \<open>
  C39. Comparing two servers does not depend on the order of records: when both reply, the tool prints
  nothing if the replies have the same code and the same records in each section, in any order,
  provided different records print differently; and when it prints nothing, the codes are equal and
  the records of each section can be paired so that names, types, times to live (unless 303) and the
  compared data agree.
\<close>

theorem compare_ignores_order:
  assumes laws: "sort_laws lib" and other: "\<And>t. cmp_same_other lib t t"
    and "cmp_Exchange lib (q_QName q) (cmp_StringToType lib (q_QType q)) (ct_server1Address t) w = (Inr m1, w1)"
    and "cmp_Exchange lib (q_QName q) (cmp_StringToType lib (q_QType q)) (ct_server2Address t) w1 = (Inr m2, w2)"
    and "msg_Question m1 \<noteq> []"
  shows "(same_records m1 m2 \<and> inj_on (cmp_String lib) (sections m1) \<longrightarrow> compare_Act lib t q w = Inr (None, w2)) \<and>
    (compare_Act lib t q w = Inr (None, w2) \<longrightarrow> msg_Rcode m1 = msg_Rcode m2 \<and>
       matching lib (msg_Answer m1) (msg_Answer m2) \<and> matching lib (msg_Ns m1) (msg_Ns m2) \<and>
       matching lib (msg_Extra m1) (msg_Extra m2))"
proof (intro conjI impI)
  note silent = compare_Act_replies [OF assms(3-5)]
  assume same: "same_records m1 m2 \<and> inj_on (cmp_String lib) (sections m1)"
  have refl: "list_all2 (alike lib) (cmp_Sort lib ys) (cmp_Sort lib xs)"
    if "mset xs = mset ys" "set xs \<subseteq> sections m1" for xs ys
  proof -
    have "cmp_Sort lib xs = cmp_Sort lib ys"
      using Sort_unique [OF laws that(1)] same inj_on_subset [OF _ that(2), of "cmp_String lib"] by blast
    then show ?thesis by (simp add: alike_def same_data_refl [OF other] list_all2_refl)
  qed
  show "compare_Act lib t q w = Inr (None, w2)"
    using same by (auto simp: silent same_records_def sections_def intro!: refl)
next
  assume "compare_Act lib t q w = Inr (None, w2)"
  then have "msg_Rcode m2 = msg_Rcode m1"
    "list_all2 (alike lib) (cmp_Sort lib (msg_Answer m2)) (cmp_Sort lib (msg_Answer m1))"
    "list_all2 (alike lib) (cmp_Sort lib (msg_Ns m2)) (cmp_Sort lib (msg_Ns m1))"
    "list_all2 (alike lib) (cmp_Sort lib (msg_Extra m2)) (cmp_Sort lib (msg_Extra m1))"
    by (simp_all add: compare_Act_replies [OF assms(3-5)])
  then show "msg_Rcode m1 = msg_Rcode m2" "matching lib (msg_Answer m1) (msg_Answer m2)"
    "matching lib (msg_Ns m1) (msg_Ns m2)" "matching lib (msg_Extra m1) (msg_Extra m2)"
    by (auto intro: matching_Sort [OF laws])
qed


text \<open>Two servers that answer with the same two records in opposite order.\<close>

definition example_record :: "string \<Rightarrow> dns_RR" where
  "example_record name = RR \<lparr>hdr_Name = name, hdr_Rrtype = TypeNS, hdr_Class = ClassINET, hdr_Ttl = 60\<rparr> (RNS ''ns.'')"

definition example_reply :: "dns_RR list \<Rightarrow> dns_Msg" where
  "example_reply rrs = new_Msg\<lparr>msg_Question := [(''z.'', TypeNS)], msg_Answer := rrs\<rparr>"

definition example_cmp_lib :: "unit cmp_lib" where
  "example_cmp_lib = \<lparr>cmp_String = rr_name, cmp_Sort = sort_key rr_name, cmp_StringToType = (\<lambda>_. TypeNS),
     cmp_same_other = (=),
     cmp_Exchange = (\<lambda>_ _ server. Pair (Inr (example_reply
       (if server = ''s1'' then [example_record ''a.'', example_record ''b.'']
        else [example_record ''b.'', example_record ''a.'']))))\<rparr>"

theorem compare_ignores_order_witness:
  "compare_Act example_cmp_lib (NewCompareTool ''s1'' ''s2'') \<lparr>q_QName = ''z.'', q_QType = ''NS''\<rparr> () = Inr (None, ())"
proof -
  let ?m1 = "example_reply [example_record ''a.'', example_record ''b.'']"
    and ?m2 = "example_reply [example_record ''b.'', example_record ''a.'']"
  have "sort_laws example_cmp_lib" by (simp add: sort_laws_def example_cmp_lib_def)
  moreover have "same_records ?m1 ?m2" by (simp add: same_records_def example_reply_def add_mset_commute)
  moreover have "inj_on (cmp_String example_cmp_lib) (sections ?m1)"
    by (simp add: sections_def example_reply_def example_cmp_lib_def example_record_def new_Msg_def)
  ultimately show ?thesis
    using compare_ignores_order [of example_cmp_lib "\<lparr>q_QName = ''z.'', q_QType = ''NS''\<rparr>"
        "NewCompareTool ''s1'' ''s2''" "()" ?m1 "()" ?m2 "()"]
    by (simp add: example_cmp_lib_def NewCompareTool_def example_reply_def)
qed

end
