(* ===== verification/Query_Main.thy ===== *)
theory Query_Main
  imports Compare_Tool
begin

text \<open>
  The main function of \<open>tools/query/query.go\<close>: it chooses a source of queries and a tool, starts workers,
  queues the queries and waits until the workers have counted all of them. The worker pool is a
  parameter: the jobs in the order in which they are run, each with the number of its worker.
\<close>

section \<open>Sources and tools\<close>

text \<open>The values of the two interfaces.\<close>

datatype 'r QueryGenerator = RedisSource RedisDumpQueryGenerator | FileSource "'r FileQueryGenerator"

datatype QueryTool = BenchQueryTool BenchTool | CompareQueryTool CompareTool "(Query \<times> complaint) list"

record ('r, 'w) qm_lib =
  qm_SMembers :: "string \<Rightarrow> string \<Rightarrow> 'w \<Rightarrow> string list \<times> 'w"
  qm_GetHKeys :: "string \<Rightarrow> string \<Rightarrow> 'w \<Rightarrow> string list \<times> 'w"
  qm_file_lines :: "string \<Rightarrow> string list"
  qm_scan :: "string \<Rightarrow> Query"
  qm_seed :: 'r
  qm_zipf :: "'r \<Rightarrow> 64 word \<Rightarrow> 64 word \<times> 'r"
  qm_Exchange :: "Query \<Rightarrow> string \<Rightarrow> 'w \<Rightarrow> int \<times> 'w"
  qm_cmp :: "'w cmp_lib"
  qm_pool :: "nat \<Rightarrow> Query list \<Rightarrow> (nat \<times> Query) list"

definition Count :: "'r QueryGenerator \<Rightarrow> int" where
  "Count g = (case g of RedisSource d \<Rightarrow> redis_Count d | FileSource f \<Rightarrow> file_Count f)"

definition GetQuery :: "('r, 'w) qm_lib \<Rightarrow> ('r QueryGenerator, Query) go" where
  "GetQuery lib g =
     (case g of
        RedisSource d \<Rightarrow>
          (case redis_GetQuery d of Inl p \<Rightarrow> Inl p | Inr (q, d') \<Rightarrow> Inr (q, RedisSource d'))
      | FileSource f \<Rightarrow>
          (case file_GetQuery (qm_zipf lib) f of Inl p \<Rightarrow> Inl p | Inr (q, f') \<Rightarrow> Inr (q, FileSource f')))"

text \<open>\<open>None\<close> is the message about an invalid flag and the return.\<close>

definition select_source ::
  "('r, 'w) qm_lib \<Rightarrow> string \<Rightarrow> string \<Rightarrow> int \<Rightarrow> ('w, 'r QueryGenerator option) go" where
  "select_source lib src addr maxQueries =
     (if src = ''redis''
      then Bind (NewRedisDumpQueryGenerator (qm_SMembers lib addr) (qm_GetHKeys lib addr)) (\<lambda>d.
           Return (Some (RedisSource d)))
      else if src = ''file''
      then Return (Some (FileSource (NewFileQueryGenerator (qm_scan lib) (qm_file_lines lib addr) maxQueries (qm_seed lib))))
      else Return None)"

definition select_tool :: "string \<Rightarrow> string \<Rightarrow> string \<Rightarrow> QueryTool option" where
  "select_tool tool s1 s2 =
     (if tool = ''compare'' then Some (CompareQueryTool (NewCompareTool s1 s2) [])
      else if tool = ''bench'' then Some (BenchQueryTool (NewBenchTool s1))
      else None)"

text \<open>\<open>t.Act(q, client)\<close>; what the compare tool prints is kept.\<close>

definition Act :: "('r, 'w) qm_lib \<Rightarrow> Query \<Rightarrow> (QueryTool \<times> 'w, unit) go" where
  "Act lib q = (\<lambda>(t, w).
     case t of
       BenchQueryTool b \<Rightarrow>
         (case bench_Act (qm_Exchange lib) q (b, w) of (b', w') \<Rightarrow> Inr ((), BenchQueryTool b', w'))
     | CompareQueryTool c printed \<Rightarrow>
         (case compare_Act (qm_cmp lib) c q w of
            Inl p \<Rightarrow> Inl p
          | Inr (r, w') \<Rightarrow>
              Inr ((), CompareQueryTool c (case r of None \<Rightarrow> printed | Some x \<Rightarrow> printed @ [(q, x)]), w')))"

section \<open>Workers\<close>

text \<open>The handler of a job: it counts in the slot of its worker, then lets the tool act.\<close>

definition handler :: "('r, 'w) qm_lib \<Rightarrow> nat \<times> Query \<Rightarrow> (int list \<times> QueryTool \<times> 'w, unit) go" where
  "handler lib = (\<lambda>(worker, q) (cnt, t, w).
     if worker < length cnt
     then (case Act lib q (t, w) of
             Inl p \<Rightarrow> Inl p
           | Inr (_, t', w') \<Rightarrow> Inr ((), cnt[worker := cnt ! worker + 1], t', w'))
     else Inl IndexOutOfRange)"

definition run_jobs :: "('r, 'w) qm_lib \<Rightarrow> (nat \<times> Query) list \<Rightarrow> (int list \<times> QueryTool \<times> 'w, unit) go" where
  "run_jobs lib jobs = ForEach jobs (\<lambda>job _. handler lib job) ()"

text \<open>
  The loop that waits: \<open>seen i\<close> is what the counters show at its turn \<open>i\<close>. It may wait forever, so it is
  a partial function; its value is the number of turns.
\<close>

partial_function (option) wait_loop :: "int \<Rightarrow> (nat \<Rightarrow> int list) \<Rightarrow> int \<Rightarrow> nat \<Rightarrow> nat option" where
  "wait_loop n seen totalCount i =
     (if totalCount = n then Some i else wait_loop n seen (sum_list (seen i)) (i + 1))"

text \<open>
  The whole run: the queries are queued, the pool runs them, and the loop, which sees the counters
  \<open>seen\<close>, waits. The result is the tool, the counters and the number of turns waited; \<open>None\<close> for an
  invalid flag.
\<close>

definition query_main ::
  "('r, 'w) qm_lib \<Rightarrow> string \<Rightarrow> string \<Rightarrow> string \<Rightarrow> string \<Rightarrow> string \<Rightarrow> nat \<Rightarrow> int \<Rightarrow> (nat \<Rightarrow> int list) \<Rightarrow>
     ('w, (QueryTool \<times> int list \<times> nat option) option) go" where
  "query_main lib src tool s1 s2 addr maxWorkers maxQueries seen =
     Bind (select_source lib src addr maxQueries) (\<lambda>g.
     case g of None \<Rightarrow> Return None | Some g \<Rightarrow>
     case select_tool tool s1 s2 of None \<Rightarrow> Return None | Some t \<Rightarrow>
     case dispatch Count (GetQuery lib) g of
       Inl p \<Rightarrow> Panic p
     | Inr (qs, g') \<Rightarrow>
         (\<lambda>w. case run_jobs lib (qm_pool lib maxWorkers qs) (replicate maxWorkers 0, t, w) of
            Inl p \<Rightarrow> Inl p
          | Inr (_, cnt, t', w') \<Rightarrow> Inr (Some (t', cnt, wait_loop (Count g') seen 0 0), w')))"

section \<open>Every job is counted\<close>

text \<open>A pool runs every queued job once, on one of its workers.\<close>

definition pool_ok :: "(nat \<Rightarrow> Query list \<Rightarrow> (nat \<times> Query) list) \<Rightarrow> bool" where
  "pool_ok pool \<longleftrightarrow>
     (\<forall>n qs. 0 < n \<longrightarrow> mset (map snd (pool n qs)) = mset qs \<and> (\<forall>(i, q) \<in> set (pool n qs). i < n))"

lemma sum_list_bump: "i < length xs \<Longrightarrow> sum_list (xs[i := xs ! i + 1]) = sum_list xs + (1 :: int)"
  by (induction xs arbitrary: i) (auto split: nat.split)

lemma bench_count_Act: "fst (bench_Act ex q (b, w)) = b' \<Longrightarrow> bt_count b' = bt_count b + 1"
  by (auto simp: bench_Act_def bench_record_def Let_def split: prod.splits)

lemma run_jobs_bench:
  assumes "\<forall>(i, q) \<in> set jobs. i < length cnt"
  shows "\<exists>cnt' b' w'. run_jobs lib jobs (cnt, BenchQueryTool b, w) = Inr ((), cnt', BenchQueryTool b', w') \<and>
    length cnt' = length cnt \<and> sum_list cnt' = sum_list cnt + int (length jobs) \<and>
    bt_count b' = bt_count b + int (length jobs)"
  using assms
proof (induction jobs arbitrary: cnt b w)
  case Nil
  show ?case by (simp add: run_jobs_def Return_def)
next
  case (Cons job jobs)
  obtain i q where job: "job = (i, q)" by fastforce
  obtain b1 w1 where act: "bench_Act (qm_Exchange lib) q (b, w) = (b1, w1)" by fastforce
  let ?cnt = "cnt[i := cnt ! i + 1]"
  have i: "i < length cnt" using Cons.prems by (simp add: job)
  obtain cnt' b' w' where "run_jobs lib jobs (?cnt, BenchQueryTool b1, w1) = Inr ((), cnt', BenchQueryTool b', w')"
    "length cnt' = length ?cnt" "sum_list cnt' = sum_list ?cnt + int (length jobs)"
    "bt_count b' = bt_count b1 + int (length jobs)"
    using Cons.IH [of ?cnt b1 w1] Cons.prems by auto
  moreover have "bt_count b1 = bt_count b + 1" using bench_count_Act [of "qm_Exchange lib" q b w b1] act by simp
  ultimately show ?case
    using i act by (simp add: run_jobs_def job Bind_def handler_def Act_def sum_list_bump)
qed

lemma wait_loop_ends:
  assumes "\<And>j. k \<le> j \<Longrightarrow> sum_list (seen j) = n"
  shows "\<exists>m. wait_loop n seen c i = Some m"
proof (induction "k - i" arbitrary: c i rule: less_induct)
  case less
  show ?case
  proof (cases "c = n")
    case True
    then show ?thesis by (subst wait_loop.simps) simp
  next
    case False
    then have step: "wait_loop n seen c i = wait_loop n seen (sum_list (seen i)) (i + 1)"
      by (subst wait_loop.simps) simp
    show ?thesis
    proof (cases "i < k")
      case True
      then show ?thesis using less [of "i + 1"] step by auto
    next
      case outside: False
      then have "wait_loop n seen (sum_list (seen i)) (i + 1) = Some (i + 1)"
        using assms [of i] by (subst wait_loop.simps) simp
      then show ?thesis by (simp add: step)
    qed
  qed
qed


section \<open>The run ends\<close>

text \<open>A generator of either kind can be asked \<open>k\<close> times.\<close>

definition source_ready :: "('r, 'w) qm_lib \<Rightarrow> nat \<Rightarrow> 'r QueryGenerator \<Rightarrow> bool" where
  "source_ready lib k g =
     (case g of
        RedisSource d \<Rightarrow> rg_pos d + k \<le> length (rg_queries d)
      | FileSource f \<Rightarrow> file_ready (qm_zipf lib) f)"

interpretation query_source: query_generator Count "GetQuery lib" "source_ready lib"
  for lib :: "('r, 'w) qm_lib"
proof
  fix k and g :: "'r QueryGenerator"
  assume "source_ready lib (Suc k) g"
  then show "\<exists>q g'. GetQuery lib g = Inr (q, g') \<and> source_ready lib k g'"
    using redis_dump.GetQuery_ready [of _ k] file_source.GetQuery_ready [of "qm_zipf lib"]
    by (cases g) (fastforce simp: source_ready_def GetQuery_def)+
next
  fix g g' :: "'r QueryGenerator" and q
  assume "GetQuery lib g = Inr (q, g')"
  then show "Count g' = Count g"
    using redis_dump.GetQuery_Count file_source.GetQuery_Count [of "qm_zipf lib"]
    by (cases g) (fastforce simp: GetQuery_def Count_def split: sum.splits prod.splits)+
qed

lemma NewRedisDump_ready:
  "\<exists>d w'. NewRedisDumpQueryGenerator SMembers GetHKeys w = Inr (d, w') \<and> rg_pos d = 0"
proof -
  have "\<exists>qs w'. ForEach zones (\<lambda>zone queries. Bind (Extern (GetHKeys (''redins:zones:'' @ zone))) (\<lambda>locations.
      Return (queries @ concat (map (location_queries zone) locations)))) acc w = Inr (qs, w')" for zones acc w
    by (induction zones arbitrary: acc w) (auto simp: Bind_def Return_def Extern_def split: prod.splits)
  from this [of "fst (SMembers ''redins:zones'' w)" "[]" "snd (SMembers ''redins:zones'' w)"]
  show ?thesis
    by (auto simp: NewRedisDumpQueryGenerator_def Bind_def [of "Extern _"] Bind_def [of "ForEach _ _ _"]
        Extern_def [of "SMembers _"] Return_def split: prod.split)
qed


text \<open>
  The flags name a source that can be asked: a redis, or a file with at least one line and a number of
  queries that is not negative.
\<close>

definition source_flags_ok :: "('r, 'w) qm_lib \<Rightarrow> string \<Rightarrow> string \<Rightarrow> int \<Rightarrow> bool" where
  "source_flags_ok lib src addr maxQueries \<longleftrightarrow>
     src = ''redis'' \<or>
     src = ''file'' \<and> qm_file_lines lib addr \<noteq> [] \<and> length (qm_file_lines lib addr) < 2 ^ 64 \<and>
       (\<forall>r m. fst (qm_zipf lib r m) \<le> m) \<and> 0 \<le> maxQueries"

lemma select_source_ready:
  assumes "source_flags_ok lib src addr maxQueries"
  shows "\<exists>g w1. select_source lib src addr maxQueries w = Inr (Some g, w1) \<and>
    source_ready lib (nat (Count g)) g \<and> 0 \<le> Count g"
proof (cases "src = ''redis''")
  case True
  obtain d w' where "NewRedisDumpQueryGenerator (qm_SMembers lib addr) (qm_GetHKeys lib addr) w = Inr (d, w')" "rg_pos d = 0"
    using NewRedisDump_ready [of "qm_SMembers lib addr" "qm_GetHKeys lib addr" w] by blast
  then show ?thesis
    using True by (simp add: select_source_def Bind_def Return_def source_ready_def Count_def redis_Count_def)
next
  case False
  define n where "n = length (qm_file_lines lib addr)"
  have n: "0 < n" "n < 2 ^ 64" using False assms by (auto simp: source_flags_ok_def n_def)
  then have "(word_of_int (int n - 1) :: 64 word) = word_of_nat (n - 1)" by (simp add: of_nat_diff)
  moreover have "unat (word_of_nat m :: 64 word) = m" if "m < 2 ^ 64" for m using that by (simp add: unat_of_nat)
  ultimately have "unat (word_of_int (int n - 1) :: 64 word) < n" using n by (metis diff_less less_imp_diff_less zero_less_one)
  with False assms show ?thesis
    by (auto simp: source_flags_ok_def select_source_def Return_def source_ready_def file_ready_def
        NewFileQueryGenerator_def Let_def Count_def file_Count_def n_def)
qed


text \<open>A redis with one zone of one name, and a pool that gives every job to its first worker.\<close>

definition example_qm_lib :: "(unit, unit) qm_lib" where
  "example_qm_lib = \<lparr>qm_SMembers = (\<lambda>_ _. Pair [''z.'']), qm_GetHKeys = (\<lambda>_ _. Pair [''@'']),
     qm_file_lines = (\<lambda>_. []), qm_scan = (\<lambda>_. \<lparr>q_QName = [], q_QType = []\<rparr>), qm_seed = (),
     qm_zipf = (\<lambda>r m. (0, r)), qm_Exchange = (\<lambda>_ _. Pair 5), qm_cmp = example_cmp_lib,
     qm_pool = (\<lambda>n. map (Pair 0))\<rparr>"


end
