(* ===== verification/Perf_Tools.thy ===== *)
theory Perf_Tools
  imports Query_Tools Upstream
begin

text \<open>
  The load generator \<open>tools/perf/gen/gen.go\<close> and the client \<open>tools/perf/bulk/bulk.go\<close> that replays
  its queries: what the generator stores in redis and writes to its files, how the client reads the
  query file back, and how it judges the replies. Redis, the file system, the random numbers and the
  DNS client are parameters.
\<close>

section \<open>The generator\<close>

record 'r gen_lib =
  gl_Int63 :: "'r \<Rightarrow> int \<times> 'r"
  gl_Intn :: "int \<Rightarrow> 'r \<Rightarrow> int \<times> 'r"
  gl_Dial :: bool
  gl_Create :: "string \<Rightarrow> bool"

abbreviation newline :: string where
  "newline \<equiv> [CHR 0x0A]"

definition zone_suffix :: string where
  "zone_suffix = ''.tst.''"

text \<open>\<open>fmt.Sprintf("%d.%d.%d.%d", rand.Intn(256), \<dots>)\<close>.\<close>

definition random_ip :: "'r gen_lib \<Rightarrow> 'r \<Rightarrow> string \<times> 'r" where
  "random_ip lib r =
     (let (a, r) = gl_Intn lib 256 r; (b, r) = gl_Intn lib 256 r; (c, r) = gl_Intn lib 256 r;
          (d, r) = gl_Intn lib 256 r
      in (Itoa a @ ''.'' @ Itoa b @ ''.'' @ Itoa c @ ''.'' @ Itoa d, r))"

text \<open>\<open>fmt.Sprintf("%s.%s %d %d %s\n", \<dots>)\<close>, a line of the query file.\<close>

definition query_line :: "string \<Rightarrow> string \<Rightarrow> uint16 \<Rightarrow> int \<Rightarrow> string \<Rightarrow> string" where
  "query_line location zoneName qtype rcode result =
     location @ ''.'' @ zoneName @ '' '' @ Itoa (uint qtype) @ '' '' @ Itoa rcode @ '' '' @ result @ newline"

definition nxdomain_line :: "string \<Rightarrow> string \<Rightarrow> uint16 \<Rightarrow> int \<Rightarrow> string" where
  "nxdomain_line location zoneName qtype rcode =
     location @ ''.'' @ zoneName @ '' '' @ Itoa (uint qtype) @ '' '' @ Itoa rcode @ newline"

text \<open>The values stored in redis.\<close>

definition a_value :: "string \<Rightarrow> string" where
  \<open>a_value ip = ''{"a":{"ttl":300, "records":[{"ip":"'' @ ip @ ''"}]}}''\<close>

definition cname_value :: "string \<Rightarrow> string \<Rightarrow> string" where
  \<open>cname_value location2 zoneName =
     ''{"cname":{"ttl":300, "host":"'' @ location2 @ ''.'' @ zoneName @ ''."}}''\<close>

definition txt_value :: "string \<Rightarrow> string" where
  \<open>txt_value t = ''{"txt":{"ttl":300, "records:{"text":"'' @ t @ ''"}"}}''\<close>

definition HSET :: "string \<Rightarrow> string \<Rightarrow> string \<Rightarrow> string list" where
  "HSET zoneName location v = [''HSET'', ''redins:zones:'' @ zoneName, location, v]"

text \<open>
  One turn of the inner loop: the commands for redis, the text for the query file and the text for
  the zone file. A random name may never be found, which is \<open>None\<close>.
\<close>

record entry =
  en_redis :: "string list list"
  en_query :: string
  en_zone :: string

definition gen_entry :: "'r gen_lib \<Rightarrow> string \<Rightarrow> string \<Rightarrow> 'r \<Rightarrow> (entry \<times> 'r) option" where
  "gen_entry lib mode zoneName r =
     (if mode = ''cname'' then
        (case RandomString (gl_Int63 lib) 15 r of None \<Rightarrow> None | Some (location1, r) \<Rightarrow>
         case RandomString (gl_Int63 lib) 15 r of None \<Rightarrow> None | Some (location2, r) \<Rightarrow>
         case random_ip lib r of (ip, r) \<Rightarrow>
         Some (\<lparr>en_redis = [HSET zoneName location1 (cname_value location2 zoneName),
                   HSET zoneName location2 (a_value ip)],
                en_query = query_line location1 zoneName TypeA RcodeSuccess ip,
                en_zone = location1 @ '' CNAME '' @ location2 @ newline @
                   location2 @ '' A '' @ ip @ newline\<rparr>, r))
      else if mode = ''txt'' then
        (case RandomString (gl_Int63 lib) 15 r of None \<Rightarrow> None | Some (location, r) \<Rightarrow>
         case RandomString (gl_Int63 lib) 200 r of None \<Rightarrow> None | Some (t, r) \<Rightarrow>
         Some (\<lparr>en_redis = [HSET zoneName location (txt_value t)],
                en_query = query_line location zoneName TypeTXT RcodeSuccess t,
                en_zone = location @ '' TXT '' @ [CHR 0x22] @ t @ [CHR 0x22]\<rparr>, r))
      else if mode = ''nxdomain'' then
        (case RandomString (gl_Int63 lib) 15 r of None \<Rightarrow> None | Some (location, r) \<Rightarrow>
         Some (\<lparr>en_redis = [], en_query = nxdomain_line location zoneName TypeA RcodeNameError,
                en_zone = []\<rparr>, r))
      else
        (case RandomString (gl_Int63 lib) 15 r of None \<Rightarrow> None | Some (location, r) \<Rightarrow>
         case random_ip lib r of (ip, r) \<Rightarrow>
         Some (\<lparr>en_redis = [HSET zoneName location (a_value ip)],
                en_query = query_line location zoneName TypeA RcodeSuccess ip,
                en_zone = location @ '' A '' @ ip @ newline\<rparr>, r)))"

primrec gen_entries ::
  "nat \<Rightarrow> 'r gen_lib \<Rightarrow> string \<Rightarrow> string \<Rightarrow> 'r \<Rightarrow> (entry list \<times> 'r) option" where
  "gen_entries 0 lib mode zoneName r = Some ([], r)"
| "gen_entries (Suc n) lib mode zoneName r =
     (case gen_entry lib mode zoneName r of None \<Rightarrow> None | Some (e, r) \<Rightarrow>
      case gen_entries n lib mode zoneName r of None \<Rightarrow> None | Some (es, r) \<Rightarrow> Some (e # es, r))"

text \<open>The head of a zone file.\<close>

definition zone_head :: "string \<Rightarrow> string" where
  "zone_head zoneName =
     ''$ORIGIN '' @ zoneName @ newline @ ''$TTL 300'' @ newline @ newline @
     ''@       SOA ns1 hostmaster ('' @ newline @ ''1      ; serial'' @ newline @
     ''7200   ; refresh'' @ newline @ ''30M    ; retry'' @ newline @ ''3D     ; expire'' @ newline @
     ''900    ; ncache'' @ newline @ '')'' @ newline @
     ''@ NS ns1.'' @ zoneName @ newline @ ''ns1 A 1.2.3.4'' @ newline @ newline"

text \<open>
  What the program leaves behind: the commands sent to redis, the zone files, and the text given to
  the buffered writer of the query file, which reaches the file when the program gets to its flush.
\<close>

record gen_out =
  out_redis :: "string list list"
  out_zones :: "(string \<times> string) list"
  out_query :: string
  out_flushed :: bool

datatype gen_exit = RedisConnectionError | CannotOpen string | Generated

primrec gen_zones ::
  "nat \<Rightarrow> nat \<Rightarrow> 'r gen_lib \<Rightarrow> string \<Rightarrow> gen_out \<Rightarrow> 'r \<Rightarrow> (gen_exit \<times> gen_out \<times> 'r) option" where
  "gen_zones 0 entries lib mode out r = Some (Generated, out\<lparr>out_flushed := True\<rparr>, r)"
| "gen_zones (Suc n) entries lib mode out r =
     (case RandomString (gl_Int63 lib) 15 r of None \<Rightarrow> None | Some (name, r) \<Rightarrow>
      let zoneName = name @ zone_suffix
      in if \<not> gl_Create lib (''../'' @ zoneName) then Some (CannotOpen zoneName, out, r)
         else
           (case gen_entries entries lib mode zoneName r of None \<Rightarrow> None | Some (es, r) \<Rightarrow>
            gen_zones n entries lib mode
              \<lparr>out_redis = out_redis out @ [''SADD'', ''redins:zones'', zoneName] # concat (map en_redis es),
               out_zones = out_zones out @ [(''../'' @ zoneName, zone_head zoneName @ concat (map en_zone es))],
               out_query = out_query out @ concat (map en_query es),
               out_flushed = out_flushed out\<rparr> r))"

definition gen_main ::
  "'r gen_lib \<Rightarrow> int \<Rightarrow> int \<Rightarrow> string \<Rightarrow> 'r \<Rightarrow> (gen_exit \<times> gen_out \<times> 'r) option" where
  "gen_main lib zones entries mode r =
     (let out = \<lparr>out_redis = [], out_zones = [], out_query = [], out_flushed = False\<rparr>;
          cleared = out\<lparr>out_redis := [[''EVAL'',
            ''return redis.call('' @ [CHR 0x27] @ ''del'' @ [CHR 0x27] @ '', unpack(redis.call('' @ [CHR 0x27] @
            ''keys'' @ [CHR 0x27] @ '', ARGV[1])))'', ''0'', ''*'']]\<rparr>
      in if \<not> gl_Dial lib then Some (RedisConnectionError, out, r)
         else if \<not> gl_Create lib ''../query.txt'' then Some (CannotOpen ''query.txt'', cleared, r)
         else gen_zones (nat zones) (nat entries) lib mode cleared r)"

section \<open>The client\<close>

record bulk_query =
  bq_queryAddr :: string
  bq_queryType :: int
  bq_resultCode :: int
  bq_queryResult :: string

text \<open>\<open>ReadString\<close> up to the newline until the end of the file; a last line without one is dropped.\<close>

fun read_lines :: "string \<Rightarrow> string \<Rightarrow> string list" where
  "read_lines acc [] = []"
| "read_lines acc (c # cs) =
     (if c = CHR 0x0A then (acc @ [c]) # read_lines [] cs else read_lines (acc @ [c]) cs)"

text \<open>
  \<open>fmt.Sscan\<close> for text in ASCII. A field of type string is the next run of characters that are not
  white space. A field of type int is read here in plain decimal notation; \<open>other\<close> stands for the
  notations with a sign, a prefix, a leading zero or underscores.
\<close>

definition is_space :: "char \<Rightarrow> bool" where
  "is_space c \<longleftrightarrow> c \<in> {CHR 0x09, CHR 0x0A, CHR 0x0B, CHR 0x0C, CHR 0x0D, CHR 0x20}"

definition is_digit :: "char \<Rightarrow> bool" where
  "is_digit c \<longleftrightarrow> c \<in> set ''0123456789''"

definition digit_value :: "char \<Rightarrow> int" where
  "digit_value c = int (of_char c) - 48"

definition decimal :: "string \<Rightarrow> int" where
  "decimal ds = foldl (\<lambda>n c. 10 * n + digit_value c) 0 ds"

definition scan_string :: "string \<Rightarrow> (string \<times> string) option" where
  "scan_string s =
     (let s = dropWhile is_space s
      in if s = [] then None
         else Some (takeWhile (\<lambda>c. \<not> is_space c) s, dropWhile (\<lambda>c. \<not> is_space c) s))"

definition scan_int :: "(string \<Rightarrow> (int \<times> string) option) \<Rightarrow> string \<Rightarrow> (int \<times> string) option" where
  "scan_int other s =
     (let s = dropWhile is_space s; ds = takeWhile is_digit s; rest = dropWhile is_digit s
      in if s = [] then None
         else if ds = [] \<or> (hd ds = CHR ''0'' \<and> (length ds > 1 \<or> (rest \<noteq> [] \<and> hd rest \<in> set ''bBoOxX''))) \<or>
                 (rest \<noteq> [] \<and> hd rest = CHR ''_'')
         then other s
         else if decimal ds < 2 ^ 63 then Some (decimal ds, rest) else None)"

definition bulk_parse :: "(string \<Rightarrow> (int \<times> string) option) \<Rightarrow> string \<Rightarrow> bulk_query" where
  "bulk_parse other line =
     (let q = \<lparr>bq_queryAddr = [], bq_queryType = 0, bq_resultCode = 0, bq_queryResult = []\<rparr>
      in case scan_string line of None \<Rightarrow> q | Some (addr, rest) \<Rightarrow>
         let q = q\<lparr>bq_queryAddr := addr\<rparr> in
         case scan_int other rest of None \<Rightarrow> q | Some (t, rest) \<Rightarrow>
         let q = q\<lparr>bq_queryType := t\<rparr> in
         case scan_int other rest of None \<Rightarrow> q | Some (code, rest) \<Rightarrow>
         let q = q\<lparr>bq_resultCode := code\<rparr> in
         case scan_string rest of None \<Rightarrow> q | Some (result, rest) \<Rightarrow> q\<lparr>bq_queryResult := result\<rparr>)"

definition read_queries :: "(string \<Rightarrow> (int \<times> string) option) \<Rightarrow> string \<Rightarrow> bulk_query list" where
  "read_queries other file = map (bulk_parse other) (read_lines [] file)"


text \<open>What the client prints about a query.\<close>

datatype bulk_event =
    Progress int
  | ExchangeError go_error string
  | BadResponse int
  | EmptyResponse
  | IncorrectAnswer string string

text \<open>
  The verdict on a reply: what is printed, whether the loop goes on, and whether the time counts. The
  \<open>break\<close> after an incorrect answer leaves the \<open>switch\<close> only.
\<close>

definition expect :: "string \<Rightarrow> string \<Rightarrow> bulk_event option" where
  "expect wanted got = (if got \<noteq> wanted then Some (IncorrectAnswer wanted got) else None)"

definition bulk_judge :: "bulk_query \<Rightarrow> dns_Reply \<Rightarrow> go_panic + (bulk_event option \<times> bool \<times> bool)" where
  "bulk_judge q r =
     (if reply_Rcode r \<noteq> bq_resultCode q then Inr (Some (BadResponse (reply_Rcode r)), False, False)
      else if bq_resultCode q \<noteq> RcodeSuccess then Inr (None, True, False)
      else
        (case reply_Answer r of
           [] \<Rightarrow> Inr (Some EmptyResponse, False, False)
         | a # _ \<Rightarrow>
             let qtype = word_of_int (bq_queryType q)
             in if qtype = TypeA
                then (case rr_Data a of
                        RA ip \<Rightarrow> Inr (expect (bq_queryResult q) (IP_String ip), True, True)
                      | _ \<Rightarrow> Inl TypeAssertion)
                else if qtype = TypeTXT
                then (case rr_Data a of
                        RTXT ts \<Rightarrow>
                          (case ts of [] \<Rightarrow> Inl IndexOutOfRange
                           | t # _ \<Rightarrow> Inr (expect (bq_queryResult q) t, True, True))
                      | _ \<Rightarrow> Inl TypeAssertion)
                else Inr (None, True, True)))"

record 'w bulk_lib =
  bl_Int :: "'w \<Rightarrow> int \<times> 'w"
  bl_Exchange :: "string \<Rightarrow> uint16 \<Rightarrow> 'w \<Rightarrow> (go_error + dns_Reply \<times> int) \<times> 'w"

record 'w bulk_state =
  bs_events :: "bulk_event list"
  bs_duration :: int
  bs_world :: 'w

abbreviation bulk_world :: "('w, 'a) go \<Rightarrow> ('w bulk_state, 'a) go" where
  "bulk_world \<equiv> Zoom bs_world (\<lambda>w s. s\<lparr>bs_world := w\<rparr>)"

definition emit :: "bulk_event option \<Rightarrow> ('w bulk_state, unit) go" where
  "emit e = Modify (\<lambda>s. s\<lparr>bs_events := bs_events s @ (case e of None \<Rightarrow> [] | Some e \<Rightarrow> [e])\<rparr>)"

text \<open>One turn of the loop; the result says whether the loop goes on.\<close>

definition bulk_step :: "'w bulk_lib \<Rightarrow> bulk_query list \<Rightarrow> int \<Rightarrow> ('w bulk_state, bool) go" where
  "bulk_step lib queries i =
     Seq (emit (if i mod 1000000 = 0 then Some (Progress i) else None))
     (Bind (bulk_world (Extern (bl_Int lib))) (\<lambda>x.
      if queries = [] then Panic DivideByZero
      else
        let q = queries ! nat (x mod int (length queries))
        in Bind (bulk_world (Extern (bl_Exchange lib (bq_queryAddr q) (word_of_int (bq_queryType q)))))
             (\<lambda>resp. case resp of
                Inl err \<Rightarrow> Seq (emit (Some (ExchangeError err (bq_queryAddr q)))) (Return True)
              | Inr (r, rtt) \<Rightarrow>
                  Bind (Lift (bulk_judge q r)) (\<lambda>(e, go_on, counts).
                  Seq (emit e)
                  (Seq (Modify (\<lambda>s. if counts then s\<lparr>bs_duration := bs_duration s + rtt\<rparr> else s))
                  (Return go_on))))))"

primrec bulk_loop ::
  "nat \<Rightarrow> int \<Rightarrow> 'w bulk_lib \<Rightarrow> bulk_query list \<Rightarrow> ('w bulk_state, unit) go" where
  "bulk_loop 0 i lib queries = Return ()"
| "bulk_loop (Suc n) i lib queries =
     Bind (bulk_step lib queries i) (\<lambda>go_on.
     if go_on then bulk_loop n (i + 1) lib queries else Return ())"

text \<open>The file is \<open>None\<close> when it cannot be opened.\<close>

definition bulk_main ::
  "'w bulk_lib \<Rightarrow> (string \<Rightarrow> (int \<times> string) option) \<Rightarrow> string option \<Rightarrow> int \<Rightarrow> ('w bulk_state, unit) go" where
  "bulk_main lib other file numQueries =
     (case file of
        None \<Rightarrow> Return ()
      | Some contents \<Rightarrow> bulk_loop (nat numQueries) 0 lib (read_queries other contents))"

section \<open>Reading the query file back\<close>

lemma letter_plain: "c \<in> set letterBytes \<Longrightarrow> \<not> is_space c"
  by (auto simp: letterBytes_def is_space_def)

lemma read_lines_line:
  "CHR 0x0A \<notin> set l \<Longrightarrow> read_lines acc (l @ CHR 0x0A # cs) = (acc @ l @ newline) # read_lines [] cs"
  by (induction l arbitrary: acc) auto

lemma read_lines_concat:
  "(\<And>l. l \<in> set ls \<Longrightarrow> \<exists>l'. l = l' @ newline \<and> CHR 0x0A \<notin> set l') \<Longrightarrow>
     read_lines [] (concat ls @ rest) = ls @ read_lines [] rest"
proof (induction ls)
  case (Cons l ls)
  obtain l' where "l = l' @ newline" "CHR 0x0A \<notin> set l'" using Cons.prems by force
  then show ?case using Cons read_lines_line [of l' "[]" "concat ls @ rest"] by simp
qed simp

text \<open>A field of a line: no white space, followed by one.\<close>

definition plain :: "string \<Rightarrow> bool" where
  "plain t \<longleftrightarrow> t \<noteq> [] \<and> list_all (\<lambda>c. \<not> is_space c) t"

lemma scan_string_plain:
  "plain t \<Longrightarrow> is_space c \<Longrightarrow> scan_string (t @ c # cs) = Some (t, c # cs)"
  "plain t \<Longrightarrow> is_space c \<Longrightarrow> is_space d \<Longrightarrow> scan_string (d # t @ c # cs) = Some (t, c # cs)"
  by (cases t; auto simp: plain_def scan_string_def list_all_iff takeWhile_append dropWhile_append
      takeWhile_tail)+


lemma digit_char_plain: "d < 10 \<Longrightarrow> \<not> is_space (digit_char d)"
proof -
  assume "d < 10"
  then have "d \<in> {0, 1, 2, 3, 4, 5, 6, 7, 8, 9}" by auto
  then show ?thesis by (auto simp: digit_char_def is_space_def)
qed

lemma nat_text_plain: "plain (nat_text 10 n)"
proof (induction n rule: less_induct)
  case (less n)
  show ?case
  proof (cases "n < 10")
    case True
    then show ?thesis by (subst nat_text.simps) (simp add: plain_def digit_char_plain)
  next
    case False
    then have "plain (nat_text 10 (n div 10))" by (intro less.IH) simp
    then show ?thesis using False by (subst nat_text.simps) (simp add: plain_def digit_char_plain)
  qed
qed

lemma plain_Itoa: "plain (Itoa n)"
  using nat_text_plain [of "nat n"] nat_text_plain [of "nat (- n)"]
  by (simp add: Itoa_def plain_def is_space_def)

lemma plain_append: "plain s \<Longrightarrow> plain t \<Longrightarrow> plain (s @ t)"
  by (simp add: plain_def)

lemma plain_dot: "plain ''.''" "plain zone_suffix"
  by (simp_all add: plain_def zone_suffix_def is_space_def)

lemma plain_dot_Cons: "plain t \<Longrightarrow> plain (CHR ''.'' # t)"
  by (simp add: plain_def is_space_def)

lemma plain_random_ip: "random_ip lib r = (ip, r') \<Longrightarrow> plain ip"
  unfolding random_ip_def by (auto simp: Let_def split_beta intro!: plain_append plain_Itoa plain_dot_Cons)

lemma plain_RandomString: "RandomString Int63 n r = Some (t, r') \<Longrightarrow> 0 < n \<Longrightarrow> plain t"
  using RandomString_letters [of Int63 n r t r'] letter_plain by (auto simp: plain_def list_all_iff)

text \<open>The numbers the generator writes.\<close>

lemma Itoa_codes: "Itoa 0 = ''0''" "Itoa 1 = ''1''" "Itoa 3 = ''3''" "Itoa 16 = ''16''"
  by (simp_all add: Itoa_def nat_text.simps digit_char_def)

lemma scan_codes:
  assumes "is_space c"
  shows "scan_int other (CHR '' '' # CHR ''0'' # c # cs) = Some (0, c # cs)"
    "scan_int other (CHR '' '' # CHR ''1'' # c # cs) = Some (1, c # cs)"
    "scan_int other (CHR '' '' # CHR ''3'' # c # cs) = Some (3, c # cs)"
    "scan_int other (CHR '' '' # CHR ''1'' # CHR ''6'' # c # cs) = Some (16, c # cs)"
proof -
  have "\<not> is_digit c" "c \<notin> set ''bBoOxX_''" using assms by (auto simp: is_space_def is_digit_def)
  then show "scan_int other (CHR '' '' # CHR ''0'' # c # cs) = Some (0, c # cs)"
    "scan_int other (CHR '' '' # CHR ''1'' # c # cs) = Some (1, c # cs)"
    "scan_int other (CHR '' '' # CHR ''3'' # c # cs) = Some (3, c # cs)"
    "scan_int other (CHR '' '' # CHR ''1'' # CHR ''6'' # c # cs) = Some (16, c # cs)"
    by (simp_all add: scan_int_def is_digit_def is_space_def decimal_def digit_value_def)
qed

lemma spaces: "is_space (CHR '' '')" "is_space (CHR 0x0A)"
  by (simp_all add: is_space_def)

lemma parse_query_line:
  assumes "plain location" "plain zoneName" "plain result" "qtype = TypeA \<or> qtype = TypeTXT"
  shows "bulk_parse other (query_line location zoneName qtype RcodeSuccess result) =
    \<lparr>bq_queryAddr = location @ ''.'' @ zoneName, bq_queryType = uint qtype, bq_resultCode = RcodeSuccess,
     bq_queryResult = result\<rparr>"
proof -
  have "plain (location @ ''.'' @ zoneName)" using assms by (intro plain_append plain_dot)
  then have addr: "scan_string (location @ CHR ''.'' # zoneName @ CHR '' '' # cs) =
      Some (location @ CHR ''.'' # zoneName, CHR '' '' # cs)" for cs
    using scan_string_plain(1) [of "location @ ''.'' @ zoneName" "CHR '' ''" cs] by (simp add: spaces)
  from assms(4) show ?thesis
    using scan_string_plain(2) [OF assms(3) spaces(2,1), of "[]"]
    by (auto simp: bulk_parse_def query_line_def addr Itoa_codes scan_codes spaces rcodes type_codes Let_def)
qed

lemma parse_nxdomain_line:
  assumes "plain location" "plain zoneName"
  shows "bulk_parse other (nxdomain_line location zoneName TypeA RcodeNameError) =
    \<lparr>bq_queryAddr = location @ ''.'' @ zoneName, bq_queryType = uint TypeA, bq_resultCode = RcodeNameError,
     bq_queryResult = []\<rparr>"
proof -
  have "plain (location @ ''.'' @ zoneName)" using assms by (intro plain_append plain_dot)
  then have addr: "scan_string (location @ CHR ''.'' # zoneName @ CHR '' '' # cs) =
      Some (location @ CHR ''.'' # zoneName, CHR '' '' # cs)" for cs
    using scan_string_plain(1) [of "location @ ''.'' @ zoneName" "CHR '' ''" cs] by (simp add: spaces)
  have "scan_string newline = None" by (simp add: scan_string_def is_space_def)
  then show ?thesis
    by (simp add: bulk_parse_def nxdomain_line_def addr Itoa_codes scan_codes spaces rcodes type_codes)
qed


section \<open>The queries match the data\<close>

text \<open>
  A query is backed by the commands sent to redis: its name is a location of a zone that was added,
  and what it expects is what was stored there (nothing, in the mode that asks for missing names).
\<close>

definition stored :: "string \<Rightarrow> string list list \<Rightarrow> string \<Rightarrow> string \<Rightarrow> bulk_query \<Rightarrow> bool" where
  "stored mode cmds location zoneName q \<longleftrightarrow>
     (if mode = ''cname''
      then bq_queryType q = uint TypeA \<and> bq_resultCode q = RcodeSuccess \<and>
        (\<exists>location2. HSET zoneName location (cname_value location2 zoneName) \<in> set cmds \<and>
           HSET zoneName location2 (a_value (bq_queryResult q)) \<in> set cmds)
      else if mode = ''txt''
      then bq_queryType q = uint TypeTXT \<and> bq_resultCode q = RcodeSuccess \<and>
        HSET zoneName location (txt_value (bq_queryResult q)) \<in> set cmds
      else if mode = ''nxdomain''
      then bq_queryType q = uint TypeA \<and> bq_resultCode q = RcodeNameError \<and> bq_queryResult q = []
      else bq_queryType q = uint TypeA \<and> bq_resultCode q = RcodeSuccess \<and>
        HSET zoneName location (a_value (bq_queryResult q)) \<in> set cmds)"

definition backed :: "string \<Rightarrow> string list list \<Rightarrow> bulk_query \<Rightarrow> bool" where
  "backed mode cmds q \<longleftrightarrow>
     (\<exists>location zoneName. bq_queryAddr q = location @ ''.'' @ zoneName \<and>
        [''SADD'', ''redins:zones'', zoneName] \<in> set cmds \<and> stored mode cmds location zoneName q)"

lemma backedI:
  "bq_queryAddr q = location @ ''.'' @ zoneName \<Longrightarrow> [''SADD'', ''redins:zones'', zoneName] \<in> set cmds \<Longrightarrow>
     stored mode cmds location zoneName q \<Longrightarrow> backed mode cmds q"
  unfolding backed_def by blast

lemma stored_mono: "stored mode cmds location zoneName q \<Longrightarrow> set cmds \<subseteq> set cmds' \<Longrightarrow> stored mode cmds' location zoneName q"
  by (auto simp: stored_def split: if_splits)

lemma backed_mono: "backed mode cmds q \<Longrightarrow> set cmds \<subseteq> set cmds' \<Longrightarrow> backed mode cmds' q"
  unfolding backed_def using stored_mono by blast

definition is_line :: "string \<Rightarrow> bool" where
  "is_line l \<longleftrightarrow> (\<exists>l'. l = l' @ newline \<and> CHR 0x0A \<notin> set l')"

lemma plain_no_newline: "plain t \<Longrightarrow> CHR 0x0A \<notin> set t"
  by (auto simp: plain_def list_all_iff spaces)

lemma is_line_query:
  "plain location \<Longrightarrow> plain zoneName \<Longrightarrow> plain result \<Longrightarrow>
     is_line (query_line location zoneName qtype rcode result)"
  "plain location \<Longrightarrow> plain zoneName \<Longrightarrow> is_line (nxdomain_line location zoneName qtype rcode)"
  using plain_no_newline plain_no_newline [OF plain_Itoa]
  by (auto simp: is_line_def query_line_def nxdomain_line_def)

lemma gen_entry_backed:
  assumes "gen_entry lib mode zoneName r = Some (e, r')" "plain zoneName"
  shows "is_line (en_query e) \<and>
    backed mode ([''SADD'', ''redins:zones'', zoneName] # en_redis e) (bulk_parse other (en_query e))"
proof -
  have random: "plain t" if "RandomString (gl_Int63 lib) n r = Some (t, r')" "0 < n" for n r t r'
    using that by (rule plain_RandomString)
  consider (cname) location location2 ip where "mode = ''cname''" "plain location" "plain ip"
      "en_redis e = [HSET zoneName location (cname_value location2 zoneName), HSET zoneName location2 (a_value ip)]"
      "en_query e = query_line location zoneName TypeA RcodeSuccess ip"
    | (quoted) location t where "mode = ''txt''" "plain location" "plain t"
      "en_redis e = [HSET zoneName location (txt_value t)]"
      "en_query e = query_line location zoneName TypeTXT RcodeSuccess t"
    | (nxdomain) location where "mode = ''nxdomain''" "plain location"
      "en_query e = nxdomain_line location zoneName TypeA RcodeNameError"
    | (a) location ip where "mode \<notin> {''cname'', ''txt'', ''nxdomain''}" "plain location" "plain ip"
      "en_redis e = [HSET zoneName location (a_value ip)]"
      "en_query e = query_line location zoneName TypeA RcodeSuccess ip"
    using assms(1) unfolding gen_entry_def
    by (auto split: if_splits option.splits prod.splits dest!: plain_random_ip random)
  then show ?thesis
  proof cases
    case cname
    then show ?thesis using assms(2)
      by (auto simp: parse_query_line is_line_query stored_def intro!: backedI [of _ location zoneName])
  next
    case quoted
    then show ?thesis using assms(2)
      by (auto simp: parse_query_line is_line_query stored_def intro!: backedI [of _ location zoneName])
  next
    case nxdomain
    then show ?thesis using assms(2)
      by (auto simp: parse_nxdomain_line is_line_query stored_def intro!: backedI [of _ location zoneName])
  next
    case a
    then show ?thesis using assms(2)
      by (auto simp: parse_query_line is_line_query stored_def intro!: backedI [of _ location zoneName])
  qed
qed

lemma gen_entries_backed:
  assumes "gen_entries n lib mode zoneName r = Some (es, r')" "plain zoneName"
  shows "length es = n \<and> (\<forall>e \<in> set es. is_line (en_query e) \<and>
    backed mode ([''SADD'', ''redins:zones'', zoneName] # en_redis e) (bulk_parse other (en_query e)))"
  using assms(1)
proof (induction n arbitrary: r es)
  case (Suc n)
  from Suc.prems obtain e r1 es' where "gen_entry lib mode zoneName r = Some (e, r1)"
    "gen_entries n lib mode zoneName r1 = Some (es', r')" "es = e # es'"
    by (auto split: option.splits prod.splits)
  with Suc.IH [of r1 es'] gen_entry_backed [OF _ assms(2), of lib mode r e r1] show ?case by simp
qed simp

text \<open>The query file consists of lines that are backed by what redis was told.\<close>

definition out_ok :: "(string \<Rightarrow> (int \<times> string) option) \<Rightarrow> string \<Rightarrow> nat \<Rightarrow> gen_out \<Rightarrow> bool" where
  "out_ok other mode k out \<longleftrightarrow>
     (\<exists>ls. out_query out = concat ls \<and> length ls = k \<and>
        (\<forall>l \<in> set ls. is_line l \<and> backed mode (out_redis out) (bulk_parse other l)))"

lemma out_ok_entries:
  assumes "out_ok other mode k out" "gen_entries n lib mode zoneName r = Some (es, r')" "plain zoneName"
    and "out_redis out' = out_redis out @ [''SADD'', ''redins:zones'', zoneName] # concat (map en_redis es)"
    and "out_query out' = out_query out @ concat (map en_query es)"
  shows "out_ok other mode (k + n) out'"
proof -
  obtain ls where ls: "out_query out = concat ls" "length ls = k"
    "\<forall>l \<in> set ls. is_line l \<and> backed mode (out_redis out) (bulk_parse other l)"
    using assms(1) by (auto simp: out_ok_def)
  have es: "length es = n" "\<And>e. e \<in> set es \<Longrightarrow> is_line (en_query e) \<and>
      backed mode ([''SADD'', ''redins:zones'', zoneName] # en_redis e) (bulk_parse other (en_query e))"
    using gen_entries_backed [OF assms(2,3)] by auto
  have "is_line l \<and> backed mode (out_redis out') (bulk_parse other l)"
    if l: "l \<in> set (ls @ map en_query es)" for l
  proof (cases "l \<in> set ls")
    case True
    then show ?thesis using ls(3) by (auto simp: assms(4) elim!: backed_mono)
  next
    case False
    then obtain e where "e \<in> set es" "l = en_query e" using l by auto
    then show ?thesis
      using es(2) [of e] by (auto simp: assms(4) elim!: backed_mono)
  qed
  with ls(1,2) es(1) show ?thesis
    unfolding out_ok_def assms(5) by (intro exI [of _ "ls @ map en_query es"]) simp
qed

lemma gen_zones_ok:
  assumes "gen_zones n entries lib mode out r = Some (Generated, out', r')" "out_ok other mode k out"
  shows "out_flushed out' \<and> out_ok other mode (k + n * entries) out'"
  using assms
proof (induction n arbitrary: k out r)
  case 0
  then show ?case by (auto simp: out_ok_def)
next
  case (Suc n)
  from Suc.prems(1) obtain name r1 where name: "RandomString (gl_Int63 lib) 15 r = Some (name, r1)"
    by (auto split: option.splits)
  with Suc.prems(1) obtain es r2 where es: "gen_entries entries lib mode (name @ zone_suffix) r1 = Some (es, r2)"
    by (auto simp: Let_def split: option.splits if_splits)
  define out1 where "out1 = \<lparr>out_redis = out_redis out @
      [''SADD'', ''redins:zones'', name @ zone_suffix] # concat (map en_redis es),
    out_zones = out_zones out @ [(''../'' @ name @ zone_suffix,
      zone_head (name @ zone_suffix) @ concat (map en_zone es))],
    out_query = out_query out @ concat (map en_query es), out_flushed = out_flushed out\<rparr>"
  have rest: "gen_zones n entries lib mode out1 r2 = Some (Generated, out', r')"
    using Suc.prems(1) name es by (auto simp: Let_def out1_def split: if_splits)
  have out1: "out_redis out1 = out_redis out @ [''SADD'', ''redins:zones'', name @ zone_suffix] # concat (map en_redis es)"
    "out_query out1 = out_query out @ concat (map en_query es)"
    by (simp_all add: out1_def)
  have "plain (name @ zone_suffix)" using plain_RandomString [OF name] by (intro plain_append plain_dot) simp
  from Suc.IH [OF rest out_ok_entries [OF Suc.prems(2) es this out1]] show ?case by (simp add: ac_simps)
qed



lemma random_zeros: "random_loop (\<lambda>r. (0, r)) n 0 remain b r = Some (replicate n (CHR ''a'') @ b, r)"
proof (induction n arbitrary: remain b)
  case (Suc n)
  have "random_loop (\<lambda>r. (0, r)) (Suc n) 0 remain b r =
      random_loop (\<lambda>r. (0, r)) n 0 (if remain = 0 then 9 else remain - 1) (CHR ''a'' # b) r"
    by (subst random_loop.simps) (simp add: letterBytes_def)
  with Suc show ?case by (simp add: replicate_append_same)
qed simp

definition example_gen_lib :: "nat gen_lib" where
  "example_gen_lib = \<lparr>gl_Int63 = (\<lambda>r. (0, r)), gl_Intn = (\<lambda>n r. (int r mod n, r + 1)), gl_Dial = True,
     gl_Create = (\<lambda>_. True)\<rparr>"


section \<open>The verdict of the client\<close>

text \<open>The reply a query asks for.\<close>

definition expected_reply :: "bulk_query \<Rightarrow> dns_Reply \<Rightarrow> bool" where
  "expected_reply q r \<longleftrightarrow>
     reply_Rcode r = bq_resultCode q \<and>
     (bq_resultCode q = RcodeSuccess \<longrightarrow>
        (\<exists>a rest. reply_Answer r = a # rest \<and>
           (word_of_int (bq_queryType q) = TypeA \<longrightarrow>
              (\<exists>ip. rr_Data a = RA ip \<and> IP_String ip = bq_queryResult q)) \<and>
           (word_of_int (bq_queryType q) = TypeTXT \<longrightarrow> (\<exists>ts. rr_Data a = RTXT (bq_queryResult q # ts)))))"

text \<open>
  The client complains about a reply, or panics on it, exactly when it is not the one the query
  expects; it panics exactly when the first record is of another dynamic type than the query, which is
  what an alias is answered with, or a text record without a text; and a wrong address does not stop
  it.
\<close>

lemma bulk_verdict:
  "(\<exists>go_on counts. bulk_judge q r = Inr (None, go_on, counts)) = expected_reply q r"
  by (auto simp: bulk_judge_def expected_reply_def expect_def Let_def type_codes split: list.splits rdata.splits)

lemma bulk_panics_on_alias:
  assumes "reply_Rcode r = RcodeSuccess" "bq_resultCode q = RcodeSuccess" "word_of_int (bq_queryType q) = TypeA"
    and "reply_Answer r = a # rest" "rr_Data a = RCNAME target"
  shows "bulk_judge q r = Inl TypeAssertion"
  using assms by (simp add: bulk_judge_def)

lemma bulk_judge_expected: "expected_reply q r \<Longrightarrow> \<exists>counts. bulk_judge q r = Inr (None, True, counts)"
  by (auto simp: bulk_judge_def expected_reply_def expect_def Let_def type_codes split: list.splits rdata.splits)

end
