(* ===== verification/Spec2Isabelle.thy ===== *)
theory Spec2Isabelle
  imports Handler_Cases Database_Runs Capnp_Lists Command_Line Limiter_Race Query_Main Perf_Tools
begin

text \<open>
  A verification development of redins, an authoritative DNS server that keeps its zones in redis.

  \<^bold>\<open>The program.\<close> A message arrives at a listener (\<open>handler/server.go\<close>) and is passed to
  \<open>handleRequest\<close> (\<open>redins.go\<close>), which builds a request context (\<open>handler/request.go\<close>) and asks the
  rate limiter (\<open>handler/limiter.go\<close>). \<open>HandleRequest\<close> (\<open>handler/handler.go\<close>) finds the zone of the
  name in a radix tree of reversed zone names, loads the zone and the record of the location through
  caches from redis, follows aliases, and builds the answer; address records are filtered by the
  health check (\<open>handler/healthcheck.go\<close>) and by location (\<open>handler/geoip.go\<close>) and ordered; an ANAME
  is resolved by an upstream server (\<open>handler/upstream.go\<close>); the sections are signed
  (\<open>handler/dnssec.go\<close>); the reply is sent and an entry queued for the log
  (\<open>handler/logformat\<close>). Background goroutines write the log, reload the zones and run the health
  checks. \<open>redins.go\<close> also loads and verifies the configuration, starts, stops and reloads. The tools
  under \<open>tools/\<close> generate load and measure.

  \<^bold>\<open>How programs are modelled.\<close> \<open>Redins_Prelude\<close>: a stateful operation is a function from a state to
  a panic or a value with a new state (type \<open>go\<close>); every index, nil dereference, type assertion,
  division and send that can panic is such a branch. Errors that the code returns are values.
  \<open>wp\<close> is a weakest-precondition calculus for it. Libraries that are not part of the repository
  (redis client, caches, radix tree, DNS library, JSON, HTTP, ICMP, MaxMind, cryptography, Cap'n
  Proto, clock) are records of functions over an arbitrary world; what a theorem needs of them is a
  named predicate (\<open>cache_laws\<close>, \<open>libs_ok\<close>, \<open>radix_laws\<close>, \<open>capnp_laws\<close> and others) with an instance in its
  witness. Machine integers are words where their width matters (times to live, ports, record types,
  the fields of the log message) and unbounded integers for durations and counters of Go type int,
  whose 64 bits are not reached; 64-bit floating-point numbers are reals.

  \<^bold>\<open>Theories and what they show.\<close>
  \<^item> \<open>Dns_Types\<close> (\<open>dns_types.go\<close>): record sets; \<open>UnmarshalJSON\<close> accepts exactly the documented shapes.
  \<^item> \<open>Zones\<close> (\<open>zone.go\<close>): \<open>NewZone\<close>, \<open>FindLocation\<close>; equivalence with the wildcard rules of RFC 4592
    under a condition on location names, and a counterexample without it.
  \<^item> \<open>Answers\<close>, \<open>Ordering\<close> (\<open>handler.go\<close>): the builders share the contract \<open>rr_builder\<close>; contents, times to
    live, text chunks; the order of addresses as rotation and with weights.
  \<^item> \<open>Mask_Stage\<close>: the contract of the filters (a stage never brings an address back), stages compose.
    \<open>Geo_Ip\<close> and \<open>Healthcheck\<close> interpret it; \<open>Handler_Cases\<close> composes them.
  \<^item> \<open>Geo_Ip\<close> (\<open>geoip.go\<close>): which addresses the filters keep; when the distance filter panics.
  \<^item> \<open>Healthcheck\<close>, \<open>Net_Text\<close>, \<open>Config_Types\<close> (\<open>healthcheck.go\<close>): the status machine with hysteresis, its
    storage round trip, one check, the filter's threshold, the two background loops. The loops take
    the number of rounds as an argument; statements hold for every number.
  \<^item> \<open>Rate_Limiter\<close> (\<open>limiter.go\<close>): the rate bound, the burst, and the refinement of the generic cell
    rate algorithm. \<open>Limiter_Race\<close>: concurrent requests as interleaved steps over shared buckets; the
    bound holds under every interleaving while the bucket is found, and not for the first requests.
  \<^item> \<open>Upstream\<close> (\<open>upstream.go\<close>): order of the servers, cache times. \<open>Dnssec\<close> (\<open>dnssec.go\<close>): signing keeps
    every record. \<open>Request\<close> (\<open>request.go\<close>): source address, name, reply.
  \<^item> \<open>Runes\<close>, \<open>Zone_Store\<close> (\<open>handler.go\<close>): \<open>LoadZones\<close> and \<open>FindZone\<close> find the longest enclosing zone;
    zones and records through the caches.
  \<^item> \<open>Handler\<close> with \<open>Handler_Frame\<close>, \<open>Handler_Chain\<close>, \<open>Handler_Safety\<close>, \<open>Handler_Total\<close>, \<open>Handler_Reply\<close>,
    \<open>Handler_Cases\<close> (\<open>handler.go\<close>): the request path; what it leaves alone, the shape of an answer,
    freedom from panics and well-formedness, one reply and one log entry per request, alias cycles,
    denials, the choice of addresses. The alias loop counts to eleven as in the code (\<open>loopCount > 10\<close>),
    so no fuel is added; \<open>FindCAA\<close> and \<open>FindANAME\<close> likewise.
  \<^item> \<open>Database_Spec\<close>, \<open>Coherence\<close>, \<open>Handler_Refine\<close>, \<open>Database_Runs\<close>: an abstract specification of the request
    path, \<open>resolve\<close>, as a lookup in the stored zones and records without caches, heap, clock or order of
    access, and the refinement: from every state whose caches are coherent with the database the
    handler computes what \<open>resolve\<close> allows, request after request. Which addresses the filters choose and
    what upstream servers say is left open in the specification (it is a set of outcomes). Redis must
    answer and no zone may lie below another, since the record cache does not tell their keys apart.
  \<^item> \<open>Handler_Life\<close> (\<open>handler.go\<close>): \<open>NewHandler\<close>, its goroutines and \<open>ShutDown\<close> as an interleaving step
    relation; order of the log, completion and limits of shutting down.
  \<^item> \<open>Capnp_Log\<close>, \<open>Capnp_Lists\<close>, \<open>Log_Format\<close> (\<open>logformat/request.capnp.go\<close>, \<open>logformat.go\<close>): read through the generated
    accessors the struct is a record of independent fields; every type assertion of the formatter;
    what is encoded reads back as the entry, also from lists. The library is instantiated by a struct of bytes.
  \<^item> \<open>Redins_Server\<close>, \<open>Redins_Main\<close>, \<open>Redins_Verify\<close>, \<open>Command_Line\<close> (\<open>server.go\<close>, \<open>redins.go\<close>): listeners, the entry point,
    configuration and its reload, the signal loop as a step relation, and \<open>Verify\<close>: a clean report
    can be trusted. The flags are parsed as Go's package \<open>flag\<close> does and select what \<open>main\<close> does.
  \<^item> \<open>Query_Tools\<close>, \<open>Compare_Tool\<close>, \<open>Query_Main\<close> (\<open>tools/query\<close>, \<open>test/helpers.go\<close>): the generators share the
    contract \<open>query_generator\<close>; a dump is asked once, running statistics, comparison up to the order of
    records, and the whole run: workers, counters and the loop that waits for them.
  \<^item> \<open>Perf_Tools\<close> (\<open>tools/perf\<close>): the load generator and the bulk client; the client reads back what the
    generator wrote. The loops of \<open>RandomString\<close> and of the waiting main function may run forever, so
    they are partial functions with values in option, and it is shown when they return.
  \<^item> This theory: the statements that span components, on the reply to a request and its log entry.

  \<^bold>\<open>Findings.\<close> Where the code departs from what it means to do, the model follows the code and a theorem
  states the behaviour: wildcards at label boundaries, the index of the distance filter, the swap of
  upstream servers, lost notifications, a shutdown that cannot finish without zones, a reload that
  keeps removed settings, statistics of the bench tool, records shared by nested zones.

  \<^bold>\<open>Not modelled.\<close>
  The command-line flags of the tools and console output other than that of \<open>Verify\<close> and of the tools'
  verdicts. Of \<open>test/helpers.go\<close> only what the compare tool uses. Outside \<open>Limiter_Race\<close> a
  request is one atomic step between those of the goroutines: races of concurrent requests in the
  handler, and the single-flight groups that order them, are not modelled.
\<close>

section \<open>The reply to a request\<close>



text \<open>
  C5. A chain of aliases is answered as a chain: in a zone without flattening the answer starts with
  CNAME records, the first of the queried name, each of the name the previous one points to, at most
  eleven of them, and continues with records of the last name (or the zone's own SOA and keys), all
  within the configured maximum time to live. Otherwise the answer is empty and the reply code is
  SERVFAIL (a chain that is too long) or NOTIMP (a type that is not implemented).
\<close>

theorem answer_is_chain:
  assumes "\<not> zc_CnameFlattening (zone_Config zone)" "rc_Answer ctxt = []"
  shows "wp AnyPanic (HandleRequest_loop h zoneName zone ctxt 0 qname)
           (\<lambda>(c, res) _.
              res \<in> {RcodeServerFailure, RcodeNotImplemented} \<and> rc_Answer c = [] \<or>
              (\<exists>chain rest end. rc_Answer c = chain @ rest \<and> linked qname chain end \<and>
                 length chain \<le> 11 \<and> (\<forall>r \<in> set chain. ttl_ok h r) \<and> owned h zone end rest)) s"
  by (rule wp_strengthen [OF yieldsD [OF yields_loop_chain [OF assms(1), of h ctxt qname 0]]])
    (use assms(2) in \<open>auto simp: chain_ok_def\<close>)

theorem answer_is_chain_witness:
  "wp AnyPanic (HandleRequest_loop example_handler ''example.com.'' (example_zone {''www''})
       (example_request ''www.example.com.'' TypeA) 0 ''www.example.com.'')
     (\<lambda>(c, res) _. rc_Answer c = [] \<or>
        (\<exists>chain rest end. rc_Answer c = chain @ rest \<and> linked ''www.example.com.'' chain end))
     example_state"
proof -
  let ?z = "example_zone {''www''}" and ?c = "example_request ''www.example.com.'' TypeA"
  have "\<not> zc_CnameFlattening (zone_Config ?z)" "rc_Answer ?c = []"
    by (simp_all add: example_zone_def default_ZoneConfig_def example_request_def
        NewRequestContext_def Let_def split_beta RawName_def new_Msg_def)
  from answer_is_chain [OF this, of example_handler "''example.com.''" "''www.example.com.''"]
  show ?thesis by (rule wp_strengthen) auto
qed

text \<open>
  C12. With flattening the chain is hidden: whatever aliases were followed, every record of the answer
  is of the queried name (or the zone's own SOA and keys) and within the maximum time to live.
\<close>

theorem answer_is_flat:
  assumes "zc_CnameFlattening (zone_Config zone)" "rc_Answer ctxt = []"
  shows "wp AnyPanic (HandleRequest_loop h zoneName zone ctxt 0 qname)
           (\<lambda>(c, res) _. owned h zone (raw_name ctxt) (rc_Answer c)) s"
  by (rule wp_strengthen [OF yieldsD [OF yields_loop_flat [OF assms(1), of h ctxt zoneName 0 qname]]])
    (use assms(2) in \<open>auto simp: flat_ok_def\<close>)

theorem answer_is_flat_witness:
  "wp AnyPanic (HandleRequest_loop example_handler ''example.com.''
       (example_zone {''www''}\<lparr>zone_Config := (default_ZoneConfig 0 ''example.com.'')\<lparr>zc_CnameFlattening := True\<rparr>\<rparr>)
       (example_request ''www.example.com.'' TypeA) 0 ''www.example.com.'')
     (\<lambda>(c, res) _. list_all (\<lambda>r. r \<in> apex_records (example_zone {''www''}\<lparr>zone_Config :=
           (default_ZoneConfig 0 ''example.com.'')\<lparr>zc_CnameFlattening := True\<rparr>\<rparr>) \<or>
         rr_name r = raw_name (example_request ''www.example.com.'' TypeA)) (rc_Answer c)) example_state"
proof -
  let ?z = "example_zone {''www''}\<lparr>zone_Config :=
    (default_ZoneConfig 0 ''example.com.'')\<lparr>zc_CnameFlattening := True\<rparr>\<rparr>"
  let ?c = "example_request ''www.example.com.'' TypeA"
  have "zc_CnameFlattening (zone_Config ?z)" "rc_Answer ?c = []"
    by (simp_all add: example_request_def NewRequestContext_def Let_def split_beta RawName_def new_Msg_def)
  from answer_is_flat [OF this, of example_handler "''example.com.''" "''www.example.com.''"]
  show ?thesis by (rule wp_strengthen) (auto simp: owned_def list_all_iff)
qed

section \<open>A message arrives\<close>

text \<open>
  C27. A client over its limit is refused: when the rate limiter does not let the request pass, exactly
  one message with reply code REFUSED is sent, nothing is logged, and nothing panics.
\<close>

theorem over_limit_refused:
  assumes "lib_Now (h_lib h) (hs_world s) = (now, w1)"
    and "CanHandle rlib l (in_IP r) w1 = Inr (False, w2)"
  shows "\<exists>s'. handleRequest rlib l h r s = Inr ((), s') \<and> hs_logQueue s' = hs_logQueue s \<and>
           hs_sent s' = hs_sent s @ [reply_Msg (lib_rq (h_lib h))
             (NewRequestContext (lib_rq (h_lib h)) now (in_QType r) (in_Type r) (in_Do r) (in_IP r) (in_Msg r))
             RcodeRefused]"
proof -
  let ?c = "NewRequestContext (lib_rq (h_lib h)) now (in_QType r) (in_Type r) (in_Do r) (in_IP r) (in_Msg r)"
  have ip: "rc_IP ?c = in_IP r"
    by (simp add: NewRequestContext_def Let_def split_beta RawName_def)
  have "handleRequest rlib l h r s = Send h ?c RcodeRefused (s\<lparr>hs_world := w2\<rparr>)"
    using assms by (simp add: handleRequest_def Now_def World_def Bind_def Zoom_def Extern_def Let_def ip)
  with wp_NoPanicD [OF wp_Send [of h ?c RcodeRefused "s\<lparr>hs_world := w2\<rparr>"]] show ?thesis by auto
qed

definition example_incoming :: incoming where
  "example_incoming = \<lparr>in_QType = TypeA, in_Type = ''A'', in_Do = False, in_IP = ''6.6.6.6'',
     in_Msg = new_Msg\<lparr>msg_Question := [(''www.example.com.'', TypeA)]\<rparr>\<rparr>"

definition example_limiter :: RateLimiter where
  "example_limiter = \<lparr>rl_MaxTime = 10 * second, rl_TimeStep = second,
     rl_Config = \<lparr>rlc_Enable = True, rlc_Burst = 10, rlc_Rate = 60, rlc_WhiteList = [],
       rlc_BlackList = [''6.6.6.6'']\<rparr>, rl_WhiteList = {}, rl_BlackList = {''6.6.6.6''}\<rparr>"

theorem over_limit_refused_witness:
  "\<exists>s' m. handleRequest \<lparr>rll_Now = Pair 0, rll_Get = (\<lambda>_. Pair None), rll_Set = (\<lambda>_ _ _ w. w)\<rparr>
       example_limiter example_handler example_incoming example_state = Inr ((), s') \<and>
     hs_sent s' = [m] \<and> hs_logQueue s' = []"
proof -
  let ?rlib = "\<lparr>rll_Now = Pair 0, rll_Get = (\<lambda>_. Pair None), rll_Set = (\<lambda>_ _ _ w. w)\<rparr> :: (string \<rightharpoonup> string) rl_lib"
  have "lib_Now (h_lib example_handler) (hs_world example_state) = (100 * second, Map.empty)"
    by (simp add: example_handler_def example_h_lib_def example_state_def)
  moreover have "CanHandle ?rlib example_limiter (in_IP example_incoming) Map.empty = Inr (False, Map.empty)"
    by (simp add: CanHandle_def example_limiter_def example_incoming_def Return_def)
  ultimately show ?thesis
    using over_limit_refused [of example_handler example_state] by (fastforce simp: example_state_def)
qed

text \<open>
  C26. Whatever a request leaves in the log queue can be formatted: each entry that handling a message
  adds carries the values the request log formatter asserts, with their types, so that formatting it
  does not panic.
\<close>

theorem log_entries_format:
  "wp AnyPanic (handleRequest rlib l h r) (\<lambda>_ s'.
     \<exists>entries. hs_logQueue s' = hs_logQueue s @ entries \<and>
       list_all (\<lambda>d. \<exists>out t'. Format clib unixtime d t = Inr (out, t')) entries) s"
proof -
  let ?Q = "\<lambda>_ s'. \<exists>entries. hs_logQueue s' = hs_logQueue s @ entries \<and>
       list_all (\<lambda>d. \<exists>out t'. Format clib unixtime d t = Inr (out, t')) entries"
  have fine: "\<exists>out t'. Format clib unixtime (log_entry c dt res) t = Inr (out, t')"
    if "log_ok (rc_LogData c)" for c dt res
    using wp_NoPanicD [OF Format_loggable [OF log_ok_entry [OF that], where lib = clib and s = t]] by blast
  have handled: "wp AnyPanic (HandleRequest h c) ?Q u"
    if log: "log_ok (rc_LogData c)" and queue: "hs_logQueue u = hs_logQueue s" for c u
  proof (rule wp_strengthen [OF HandleRequest_replied])
    fix a s'
    assume "replied h c u s'"
    then obtain c' res dt where "follows c c'" "hs_logQueue s' = enqueue (hs_logQueue s) (log_entry c' dt res)"
      using queue by (auto simp: replied_def)
    with log fine [of c' dt res] show "?Q a s'"
      by (cases "length (hs_logQueue s) < logQueue_capacity") (auto simp: follows_def enqueue_def)
  qed
  have sent: "wp AnyPanic (Send h c res) ?Q u" if "hs_logQueue u = hs_logQueue s" for c res u
    using wp_Send [of h c res u] by (rule wp_mono) (use that in simp_all)
  show ?thesis
    unfolding handleRequest_def Now_def Let_def
    by (simp add: wp_rules World_def, rule wp_strengthen [OF wp_triv])
      (auto intro!: handled sent log_ok_new split: if_splits)
qed

end
